(* ===== verification/Prelude.thy ===== *)
theory Prelude
  imports Main "HOL-Library.Word" "HOL-Library.Sublist" "HOL-Library.Multiset"
begin

text \<open>
  What the components share: the development's theorem collections, the Go string
  functions the sources call (\<open>strings.HasPrefix\<close>, \<open>strings.Contains\<close>,
  \<open>strings.ToLower\<close>, \<open>strings.Join\<close>, the verbs \<open>%q\<close> and \<open>%d\<close> of \<open>fmt\<close>),
  Go errors with wrapping, integers at their width, and time.

  Strings are byte strings; text functions are exact on 7-bit ASCII, the
  alphabet of every literal of the sources.
\<close>

named_theorems go_defs \<open>definitions of small constants, unfolded to evaluate a call\<close>
named_theorems phase_simps \<open>evaluation of phases and events of the job life cycle\<close>

section \<open>Strings\<close>

text \<open>\<open>strings.HasPrefix(s, p)\<close>\<close>

definition HasPrefix :: "string \<Rightarrow> string \<Rightarrow> bool" where
  "HasPrefix s p = (take (length p) s = p)"

text \<open>\<open>strings.Contains(s, sub)\<close>\<close>

fun Contains :: "string \<Rightarrow> string \<Rightarrow> bool" where
  "Contains [] sub = (sub = [])"
| "Contains (c # cs) sub = (HasPrefix (c # cs) sub \<or> Contains cs sub)"

text \<open>\<open>strings.ToLower(s)\<close> on ASCII\<close>

definition lower_char :: "char \<Rightarrow> char" where
  "lower_char c = (if 65 \<le> (of_char c :: nat) \<and> (of_char c :: nat) \<le> 90
                   then char_of ((of_char c :: nat) + 32) else c)"

definition ToLower :: "string \<Rightarrow> string" where
  "ToLower s = map lower_char s"

text \<open>\<open>strings.Join(xs, sep)\<close>\<close>

fun Join :: "string list \<Rightarrow> string \<Rightarrow> string" where
  "Join [] sep = []"
| "Join [x] sep = x"
| "Join (x # y # xs) sep = x @ sep @ Join (y # xs) sep"

text \<open>Decimal digits: \<open>%d\<close> of a number that is not negative\<close>

definition digit_char :: "nat \<Rightarrow> char" where
  "digit_char d = char_of (48 + d)"

fun dec_nat :: "nat \<Rightarrow> string" where
  "dec_nat n = (if n < 10 then [digit_char n]
                else dec_nat (n div 10) @ [digit_char (n mod 10)])"

declare dec_nat.simps [simp del]

definition dec_int :: "int \<Rightarrow> string" where
  "dec_int i = (if i < 0 then ''-'' @ dec_nat (nat (- i)) else dec_nat (nat i))"

text \<open>\<open>%q\<close>: \<open>strconv.Quote\<close>\<close>

definition hex_digit :: "nat \<Rightarrow> char" where
  "hex_digit d = (if d < 10 then char_of (48 + d) else char_of (87 + d))"

definition quote_char :: "char \<Rightarrow> string" where
  "quote_char c =
     (let n = (of_char c :: nat) in
      if n = 34 then [char_of (92 :: nat), c]
      else if n = 92 then [char_of (92 :: nat), c]
      else if n = 7 then char_of (92 :: nat) # ''a''
      else if n = 8 then char_of (92 :: nat) # ''b''
      else if n = 12 then char_of (92 :: nat) # ''f''
      else if n = 10 then char_of (92 :: nat) # ''n''
      else if n = 13 then char_of (92 :: nat) # ''r''
      else if n = 9 then char_of (92 :: nat) # ''t''
      else if n = 11 then char_of (92 :: nat) # ''v''
      else if n < 32 \<or> n = 127
        then [char_of (92 :: nat), CHR ''x'', hex_digit (n div 16), hex_digit (n mod 16)]
      else [c])"

definition go_quote :: "string \<Rightarrow> string" where
  "go_quote s = [char_of (34 :: nat)] @ concat (map quote_char s) @ [char_of (34 :: nat)]"

lemma HasPrefix_append [simp]: "HasPrefix (p @ s) p"
  by (simp add: HasPrefix_def)

lemma HasPrefix_iff: "HasPrefix s p \<longleftrightarrow> (\<exists>r. s = p @ r)"
proof
  assume "HasPrefix s p"
  then have "s = p @ drop (length p) s"
    by (metis HasPrefix_def append_take_drop_id)
  then show "\<exists>r. s = p @ r" ..
next
  assume "\<exists>r. s = p @ r"
  then show "HasPrefix s p" by (auto simp: HasPrefix_def)
qed

lemma HasPrefix_prefix: "HasPrefix s p \<longleftrightarrow> prefix p s"
  by (simp add: HasPrefix_iff prefix_def)

lemma Contains_iff: "Contains s sub \<longleftrightarrow> (\<exists>a b. s = a @ sub @ b)"
proof (induction s)
  case Nil
  then show ?case by auto
next
  case (Cons c cs)
  show ?case
  proof
    assume "Contains (c # cs) sub"
    then consider "HasPrefix (c # cs) sub" | "Contains cs sub" by auto
    then show "\<exists>a b. c # cs = a @ sub @ b"
    proof cases
      case 1
      then obtain r where "c # cs = [] @ sub @ r" by (auto simp: HasPrefix_iff)
      then show ?thesis by blast
    next
      case 2
      with Cons.IH obtain a b where "c # cs = (c # a) @ sub @ b" by auto
      then show ?thesis by blast
    qed
  next
    assume "\<exists>a b. c # cs = a @ sub @ b"
    then obtain a b where ab: "c # cs = a @ sub @ b" by blast
    show "Contains (c # cs) sub"
    proof (cases a)
      case Nil
      with ab have "HasPrefix (c # cs) sub" by (auto simp: HasPrefix_iff)
      then show ?thesis by simp
    next
      case (Cons x a')
      with ab have "cs = a' @ sub @ b" by simp
      with Cons.IH show ?thesis by auto
    qed
  qed
qed

lemma Contains_appendI1: "Contains s sub \<Longrightarrow> Contains (p @ s) sub"
  by (metis Contains_iff append.assoc)

lemma Contains_appendI2: "Contains p sub \<Longrightarrow> Contains (p @ s) sub"
  by (metis Contains_iff append.assoc)

lemma ToLower_append [simp]: "ToLower (a @ b) = ToLower a @ ToLower b"
  by (simp add: ToLower_def)

lemma length_ToLower [simp]: "length (ToLower s) = length s"
  by (simp add: ToLower_def)

lemma append_sep_inject:
  assumes "a @ c # x = b @ c # y" and "c \<notin> set a" and "c \<notin> set b"
  shows "a = b \<and> x = y"
  using assms
proof (induction a arbitrary: b)
  case Nil
  then show ?case by (cases b) auto
next
  case (Cons h t)
  then show ?case by (cases b) auto
qed

lemma digit_char_inject: "d < 10 \<Longrightarrow> e < 10 \<Longrightarrow> digit_char d = digit_char e \<Longrightarrow> d = e"
proof -
  assume d: "d < 10" and e: "e < 10" and eq: "digit_char d = digit_char e"
  have "(of_char (char_of (48 + d) :: char) :: nat) = 48 + d" using d by simp
  moreover have "(of_char (char_of (48 + e) :: char) :: nat) = 48 + e" using e by simp
  ultimately show "d = e" using eq by (simp add: digit_char_def)
qed

lemma digit_char_1: "digit_char 1 = CHR ''1''" "digit_char (Suc 0) = CHR ''1''"
  by code_simp+

lemma dec_nat_nonempty [simp]: "dec_nat n \<noteq> []"
  by (subst dec_nat.simps) simp

lemma Nil_neq_dec_nat [simp]: "[] \<noteq> dec_nat n"
  by (rule dec_nat_nonempty [symmetric])

lemma dec_nat_inject: "dec_nat m = dec_nat n \<Longrightarrow> m = n"
proof (induction m arbitrary: n rule: dec_nat.induct)
  case (1 m)
  show ?case
  proof (cases "m < 10")
    case True
    with 1(2) have "[digit_char m] = dec_nat n" by (simp add: dec_nat.simps [of m])
    then show ?thesis
      using True dec_nat_nonempty [of "n div 10"]
      by (cases "n < 10") (auto simp: dec_nat.simps [of n] dest: digit_char_inject)
  next
    case False
    then have m: "dec_nat m = dec_nat (m div 10) @ [digit_char (m mod 10)]"
      by (simp add: dec_nat.simps [of m])
    show ?thesis
    proof (cases "n < 10")
      case True
      then have "dec_nat n = [digit_char n]" by (simp add: dec_nat.simps [of n])
      with m 1(2) show ?thesis by simp
    next
      case nF: False
      then have "dec_nat n = dec_nat (n div 10) @ [digit_char (n mod 10)]"
        by (simp add: dec_nat.simps [of n])
      with m 1(2) have "dec_nat (m div 10) = dec_nat (n div 10)"
        and "digit_char (m mod 10) = digit_char (n mod 10)" by simp_all
      then have "m div 10 = n div 10" and "m mod 10 = n mod 10"
        using 1(1) False digit_char_inject [of "m mod 10" "n mod 10"] by auto
      then show ?thesis by (metis div_mult_mod_eq)
    qed
  qed
qed

lemma dec_nat_digits: "set (dec_nat n) \<subseteq> digit_char ` {..<10}"
proof (induction n rule: dec_nat.induct)
  case (1 n)
  show ?case
  proof (cases "n < 10")
    case True
    then show ?thesis by (subst dec_nat.simps) simp
  next
    case False
    with 1 show ?thesis by (subst dec_nat.simps) auto
  qed
qed

section \<open>Errors\<close>

text \<open>
  An \<open>error\<close> value is a leaf (made by a library or by \<open>fmt.Errorf\<close> without \<open>%w\<close>)
  or a wrap made by \<open>fmt.Errorf("prefix %w")\<close>, which keeps what it wraps. The kind
  of a leaf is what the predicates of the sources test for
  (\<open>apierrors.IsNotFound\<close>, \<open>apierrors.IsAlreadyExists\<close>, \<open>errors.Is(err, context.Canceled)\<close>,
  \<open>errors.Is(err, resource.ErrPartialResource)\<close>, \<open>errors.Is(err, resource.ErrSchemaURLConflict)\<close>).
\<close>

datatype ekind =
    KNotFound | KAlreadyExists | KCanceled | KPartialResource | KSchemaURLConflict | KOther

datatype goerror = Leaf ekind string | Wrapped string goerror

type_synonym 'a res = "goerror + 'a"

fun err_text :: "goerror \<Rightarrow> string" where
  "err_text (Leaf k s) = s"
| "err_text (Wrapped p e) = p @ err_text e"

fun err_is :: "ekind \<Rightarrow> goerror \<Rightarrow> bool" where
  "err_is k (Leaf k' s) = (k = k')"
| "err_is k (Wrapped p e) = err_is k e"

abbreviation Errorf :: "string \<Rightarrow> goerror" where
  "Errorf s \<equiv> Leaf KOther s"

abbreviation IsNotFound :: "goerror \<Rightarrow> bool" where
  "IsNotFound e \<equiv> err_is KNotFound e"

abbreviation IsAlreadyExists :: "goerror \<Rightarrow> bool" where
  "IsAlreadyExists e \<equiv> err_is KAlreadyExists e"

text \<open>\<open>client.IgnoreNotFound(err)\<close> on an error that is not nil\<close>

definition IgnoreNotFound :: "goerror \<Rightarrow> goerror option" where
  "IgnoreNotFound e = (if IsNotFound e then None else Some e)"

section \<open>Integers and time\<close>

type_synonym int32 = "32 word"
type_synonym int64 = "64 word"

text \<open>
  An instant is a number of nanoseconds; the zero \<open>time.Time\<close> is January 1 of year 1.
  A \<open>time.Duration\<close> is an \<open>int64\<close> of nanoseconds, and \<open>Time.Sub\<close> saturates.
\<close>

type_synonym instant = int

definition zero_time :: instant where
  "zero_time = - 62135596800000000000"

definition time_sub :: "instant \<Rightarrow> instant \<Rightarrow> int64" where
  "time_sub a b = word_of_int (max (- (2 ^ 63)) (min (2 ^ 63 - 1) (a - b)))"

definition Second :: int64 where
  "Second = 1000000000"

text \<open>\<open>time.Duration(n) * time.Second\<close> for an \<open>int32\<close>\<close>

definition seconds :: "int32 \<Rightarrow> int64" where
  "seconds n = scast n * Second"

lemma sint32_bounds: "- (2 ^ 31) \<le> sint (n :: int32)" "sint (n :: int32) < 2 ^ 31"
  using sint_greater_eq [of n] sint_less [of n] by auto

lemma sint64_bounds: "- (2 ^ 63) \<le> sint (n :: int64)" "sint (n :: int64) < 2 ^ 63"
  using sint_greater_eq [of n] sint_less [of n] by auto

lemma sint_word_of_int64:
  "- (2 ^ 63) \<le> i \<Longrightarrow> i < 2 ^ 63 \<Longrightarrow> sint (word_of_int i :: int64) = i"
  by (simp add: signed_take_bit_int_eq_self sint_sbintrunc')

lemma sint_word_of_int32:
  "- (2 ^ 31) \<le> i \<Longrightarrow> i < 2 ^ 31 \<Longrightarrow> sint (word_of_int i :: int32) = i"
  by (simp add: signed_take_bit_int_eq_self sint_sbintrunc')

lemma sint_time_sub:
  "sint (time_sub a b) = max (- (2 ^ 63)) (min (2 ^ 63 - 1) (a - b))"
  unfolding time_sub_def by (rule sint_word_of_int64) auto

text \<open>The product never leaves the 64 bits of a duration.\<close>

lemma sint_seconds: "sint (seconds n) = sint n * 1000000000"
proof -
  have *: "seconds n = word_of_int (sint n * 1000000000)"
    unfolding seconds_def Second_def scast_eq of_int_mult by simp
  have "- 2147483648 \<le> sint n" and "sint n < 2147483648"
    using sint32_bounds [of n] by simp_all
  then have "- (2 ^ 63) \<le> sint n * 1000000000" and "sint n * 1000000000 < 2 ^ 63"
    by simp_all
  then show ?thesis unfolding * by (rule sint_word_of_int64)
qed

section \<open>Maps visited by range\<close>

text \<open>
  Go visits a map in an unspecified order. A definition that ranges over a map takes
  the order as an argument; \<open>range_order\<close> says that it visits every key once.
\<close>

definition range_order :: "'k list \<Rightarrow> ('k \<rightharpoonup> 'v) \<Rightarrow> bool" where
  "range_order ks m \<longleftrightarrow> distinct ks \<and> set ks = dom m"

lemma range_orderD: "range_order ks m \<Longrightarrow> k \<in> set ks \<Longrightarrow> \<exists>v. m k = Some v"
  by (auto simp: range_order_def)

lemma range_order_empty [simp]: "range_order [] Map.empty"
  by (simp add: range_order_def)

end
