(* ===== verification/Agent_Types.thy ===== *)
theory Agent_Types
  imports Prelude
begin

text \<open>
  \<open>core/agent/types.go\<close>: phases, roles, specifications, jobs and events. A Go string type
  is \<open>string\<close>, its constants are definitions: the zero value \<open>''''\<close> and unknown values exist
  in the model as they do in the code. Instants of a status are optional (a nil pointer).
\<close>

type_synonym Phase = string

definition PhasePending :: Phase where "PhasePending = ''Pending''"
definition PhaseRunning :: Phase where "PhaseRunning = ''Running''"
definition PhaseSucceeded :: Phase where "PhaseSucceeded = ''Succeeded''"
definition PhaseFailed :: Phase where "PhaseFailed = ''Failed''"
definition PhaseTerminating :: Phase where "PhaseTerminating = ''Terminating''"

lemmas phase_consts [phase_simps] =
  PhasePending_def PhaseRunning_def PhaseSucceeded_def PhaseFailed_def PhaseTerminating_def

definition IsTerminal :: "Phase \<Rightarrow> bool" where
  "IsTerminal p = (p = PhaseSucceeded \<or> p = PhaseFailed)"

type_synonym TriggerType = string

definition TriggerEvent :: TriggerType where "TriggerEvent = ''event''"
definition TriggerCron :: TriggerType where "TriggerCron = ''cron''"
definition TriggerManual :: TriggerType where "TriggerManual = ''manual''"

record AgentRole =
  ar_Role :: string
  ar_Image :: string
  ar_Command :: string
  ar_MaxReplicas :: int32

record Trigger =
  tr_Type :: TriggerType
  tr_Source :: string

record MessageBusConfig =
  mb_Topic :: string

record Spec =
  sp_TenantRef :: string
  sp_Trigger :: Trigger
  sp_Agents :: "AgentRole list"
  sp_MessageBus :: MessageBusConfig
  sp_TTLAfterCompletion :: int32

record Status =
  st_Phase :: Phase
  st_ActiveAgents :: int32
  st_StartedAt :: "instant option"
  st_CompletedAt :: "instant option"

record Job =
  job_ID :: string
  job_TenantID :: string
  job_Spec :: Spec
  job_Status :: Status

type_synonym EventType = string

definition EventStarted :: EventType where "EventStarted = ''Started''"
definition EventCompleted :: EventType where "EventCompleted = ''Completed''"
definition EventFailed :: EventType where "EventFailed = ''Failed''"

lemmas event_type_consts [phase_simps] =
  EventStarted_def EventCompleted_def EventFailed_def

record Event =
  ev_AgentID :: string
  ev_Type :: EventType
  ev_Message :: string

text \<open>Zero values of the structs\<close>

definition zero_Trigger :: Trigger where
  "zero_Trigger = \<lparr>tr_Type = [], tr_Source = []\<rparr>"

definition zero_Spec :: Spec where
  "zero_Spec = \<lparr>sp_TenantRef = [], sp_Trigger = zero_Trigger, sp_Agents = [],
                sp_MessageBus = \<lparr>mb_Topic = []\<rparr>, sp_TTLAfterCompletion = 0\<rparr>"

definition zero_Status :: Status where
  "zero_Status = \<lparr>st_Phase = [], st_ActiveAgents = 0, st_StartedAt = None, st_CompletedAt = None\<rparr>"

text \<open>\<open>job.Status.Phase = p\<close>\<close>

definition set_phase :: "Phase \<Rightarrow> Job \<Rightarrow> Job" where
  "set_phase p j = j\<lparr>job_Status := (job_Status j)\<lparr>st_Phase := p\<rparr>\<rparr>"

abbreviation job_phase :: "Job \<Rightarrow> Phase" where
  "job_phase j \<equiv> st_Phase (job_Status j)"

lemma set_phase_sels [simp]:
  "job_ID (set_phase p j) = job_ID j" "job_TenantID (set_phase p j) = job_TenantID j"
  "job_Spec (set_phase p j) = job_Spec j" "job_phase (set_phase p j) = p"
  "st_StartedAt (job_Status (set_phase p j)) = st_StartedAt (job_Status j)"
  by (simp_all add: set_phase_def)

lemma IsTerminal_simps [simp]:
  "IsTerminal PhaseSucceeded" "IsTerminal PhaseFailed" "\<not> IsTerminal PhaseRunning"
  "\<not> IsTerminal PhasePending" "\<not> IsTerminal PhaseTerminating"
  by (simp_all add: IsTerminal_def phase_simps)

lemma phases_distinct [simp]:
  "PhasePending \<noteq> PhaseRunning" "PhaseRunning \<noteq> PhasePending"
  "PhasePending \<noteq> PhaseSucceeded" "PhaseSucceeded \<noteq> PhasePending"
  "PhasePending \<noteq> PhaseFailed" "PhaseFailed \<noteq> PhasePending"
  "PhasePending \<noteq> PhaseTerminating" "PhaseTerminating \<noteq> PhasePending"
  "PhaseRunning \<noteq> PhaseSucceeded" "PhaseSucceeded \<noteq> PhaseRunning"
  "PhaseRunning \<noteq> PhaseFailed" "PhaseFailed \<noteq> PhaseRunning"
  "PhaseRunning \<noteq> PhaseTerminating" "PhaseTerminating \<noteq> PhaseRunning"
  "PhaseSucceeded \<noteq> PhaseFailed" "PhaseFailed \<noteq> PhaseSucceeded"
  "PhaseSucceeded \<noteq> PhaseTerminating" "PhaseTerminating \<noteq> PhaseSucceeded"
  "PhaseFailed \<noteq> PhaseTerminating" "PhaseTerminating \<noteq> PhaseFailed"
  by (simp_all add: phase_simps)

lemma event_types_distinct [simp]:
  "EventCompleted \<noteq> EventFailed" "EventFailed \<noteq> EventCompleted"
  "EventStarted \<noteq> EventCompleted" "EventCompleted \<noteq> EventStarted"
  "EventStarted \<noteq> EventFailed" "EventFailed \<noteq> EventStarted"
  by (simp_all add: phase_simps)

text \<open>An event that reports the end of an agent\<close>

definition terminal_event :: "Event \<Rightarrow> bool" where
  "terminal_event e \<longleftrightarrow> ev_Type e = EventCompleted \<or> ev_Type e = EventFailed"

end
