(* ===== verification/State_Machine.thy ===== *)
theory State_Machine
  imports Agent_Types
begin

text \<open>
  \<open>core/scheduler/statemachine.go\<close>: the table of phase transitions and \<open>Transition\<close>, which
  looks a phase and an event up in it. The table is also read as a step relation, so that
  other components can be shown to move a job along it.
\<close>

type_synonym SchedEvent = string

definition EventSpawned :: SchedEvent where "EventSpawned = ''Spawned''"
definition EventAllComplete :: SchedEvent where "EventAllComplete = ''AllComplete''"
definition EventAgentFailed :: SchedEvent where "EventAgentFailed = ''AgentFailed''"
definition EventTTLExpired :: SchedEvent where "EventTTLExpired = ''TTLExpired''"
definition EventCancelled :: SchedEvent where "EventCancelled = ''Cancelled''"

lemmas sched_event_consts [phase_simps] =
  EventSpawned_def EventAllComplete_def EventAgentFailed_def EventTTLExpired_def
  EventCancelled_def

definition transitions :: "Phase \<times> SchedEvent \<rightharpoonup> Phase" where
  "transitions = [
     (PhasePending, EventSpawned) \<mapsto> PhaseRunning,
     (PhaseRunning, EventAllComplete) \<mapsto> PhaseSucceeded,
     (PhaseRunning, EventAgentFailed) \<mapsto> PhaseFailed,
     (PhaseRunning, EventCancelled) \<mapsto> PhaseTerminating,
     (PhaseSucceeded, EventTTLExpired) \<mapsto> PhaseTerminating,
     (PhaseFailed, EventTTLExpired) \<mapsto> PhaseTerminating,
     (PhaseSucceeded, EventCancelled) \<mapsto> PhaseTerminating,
     (PhaseFailed, EventCancelled) \<mapsto> PhaseTerminating]"

definition Transition :: "Phase \<Rightarrow> SchedEvent \<Rightarrow> Phase res" where
  "Transition current event =
     (case transitions (current, event) of
        None \<Rightarrow> Inl (Errorf (''invalid transition: '' @ current @ '' + '' @ event))
      | Some next \<Rightarrow> Inr next)"

lemma sched_events_distinct [simp]:
  "EventSpawned \<noteq> EventAllComplete" "EventAllComplete \<noteq> EventSpawned"
  "EventSpawned \<noteq> EventAgentFailed" "EventAgentFailed \<noteq> EventSpawned"
  "EventSpawned \<noteq> EventTTLExpired" "EventTTLExpired \<noteq> EventSpawned"
  "EventSpawned \<noteq> EventCancelled" "EventCancelled \<noteq> EventSpawned"
  "EventAllComplete \<noteq> EventAgentFailed" "EventAgentFailed \<noteq> EventAllComplete"
  "EventAllComplete \<noteq> EventTTLExpired" "EventTTLExpired \<noteq> EventAllComplete"
  "EventAllComplete \<noteq> EventCancelled" "EventCancelled \<noteq> EventAllComplete"
  "EventAgentFailed \<noteq> EventTTLExpired" "EventTTLExpired \<noteq> EventAgentFailed"
  "EventAgentFailed \<noteq> EventCancelled" "EventCancelled \<noteq> EventAgentFailed"
  "EventTTLExpired \<noteq> EventCancelled" "EventCancelled \<noteq> EventTTLExpired"
  by (simp_all add: phase_simps)

text \<open>The table, row by row\<close>

lemma Transition_rows [simp]:
  "Transition PhasePending EventSpawned = Inr PhaseRunning"
  "Transition PhaseRunning EventAllComplete = Inr PhaseSucceeded"
  "Transition PhaseRunning EventAgentFailed = Inr PhaseFailed"
  "Transition PhaseRunning EventCancelled = Inr PhaseTerminating"
  "Transition PhaseSucceeded EventTTLExpired = Inr PhaseTerminating"
  "Transition PhaseFailed EventTTLExpired = Inr PhaseTerminating"
  "Transition PhaseSucceeded EventCancelled = Inr PhaseTerminating"
  "Transition PhaseFailed EventCancelled = Inr PhaseTerminating"
  by (simp_all add: Transition_def transitions_def)

lemma transitions_Some:
  "transitions (p, e) = Some q \<longleftrightarrow>
     (p, e, q) \<in> {(PhasePending, EventSpawned, PhaseRunning),
                  (PhaseRunning, EventAllComplete, PhaseSucceeded),
                  (PhaseRunning, EventAgentFailed, PhaseFailed),
                  (PhaseRunning, EventCancelled, PhaseTerminating),
                  (PhaseSucceeded, EventTTLExpired, PhaseTerminating),
                  (PhaseFailed, EventTTLExpired, PhaseTerminating),
                  (PhaseSucceeded, EventCancelled, PhaseTerminating),
                  (PhaseFailed, EventCancelled, PhaseTerminating)}"
  by (auto simp: transitions_def split: if_splits)

lemma Transition_Inr: "Transition p e = Inr q \<longleftrightarrow> transitions (p, e) = Some q"
  by (simp add: Transition_def split: option.splits)

lemma Transition_Spawned_Inr: "Transition p EventSpawned = Inr q \<Longrightarrow> p = PhasePending \<and> q = PhaseRunning"
  by (auto simp: Transition_Inr transitions_Some)

lemma Transition_Cancelled_Inr:
  "Transition p EventCancelled = Inr q \<Longrightarrow>
     q = PhaseTerminating \<and> (p = PhaseRunning \<or> IsTerminal p)"
  by (auto simp: Transition_Inr transitions_Some)

lemma Transition_Cancelled_total:
  "p = PhaseRunning \<or> IsTerminal p \<Longrightarrow> Transition p EventCancelled = Inr PhaseTerminating"
  by (auto simp: IsTerminal_def)

lemma Transition_Terminating: "\<exists>x. Transition PhaseTerminating e = Inl x"
  by (cases "Transition PhaseTerminating e") (auto simp: Transition_Inr transitions_Some)

section \<open>The table as a step relation\<close>

inductive phase_step :: "Phase \<Rightarrow> SchedEvent \<Rightarrow> Phase \<Rightarrow> bool" where
  phase_stepI: "Transition p e = Inr q \<Longrightarrow> phase_step p e q"

inductive_simps phase_step_iff: "phase_step p e q"

inductive_cases phase_step_from_Terminating: "phase_step PhaseTerminating e q"

definition phase_move :: "Phase \<Rightarrow> Phase \<Rightarrow> bool" where
  "phase_move p q \<longleftrightarrow> p = q \<or> (\<exists>e. phase_step p e q)"

lemma phase_move_refl [simp]: "phase_move p p"
  by (simp add: phase_move_def)

lemma phase_step_move: "phase_step p e q \<Longrightarrow> phase_move p q"
  by (auto simp: phase_move_def)

text \<open>How far along the life cycle a phase is\<close>

definition phase_rank :: "Phase \<Rightarrow> nat" where
  "phase_rank p =
     (if p = PhasePending then 0 else if p = PhaseRunning then 1
      else if IsTerminal p then 2 else if p = PhaseTerminating then 3 else 0)"

lemma phase_rank_simps [simp]:
  "phase_rank PhasePending = 0" "phase_rank PhaseRunning = 1"
  "phase_rank PhaseSucceeded = 2" "phase_rank PhaseFailed = 2" "phase_rank PhaseTerminating = 3"
  by (simp_all add: phase_rank_def)

lemma phase_rank_le: "phase_rank p \<le> 3"
  by (simp add: phase_rank_def)

lemma phase_step_rank: "phase_step p e q \<Longrightarrow> phase_rank p < phase_rank q"
  by (auto simp: phase_step_iff Transition_Inr transitions_Some)

lemma phase_step_distinct: "phase_step p e q \<Longrightarrow> p \<noteq> q"
  using phase_step_rank by fastforce

lemma phase_move_Terminating: "phase_move PhaseTerminating q \<Longrightarrow> q = PhaseTerminating"
  using Transition_Terminating by (auto simp: phase_move_def phase_step_iff) (metis Inl_Inr_False)

text \<open>A run: the successful transitions for a list of events, errors leaving the phase as it is\<close>

fun run_events :: "Phase \<Rightarrow> SchedEvent list \<Rightarrow> Phase list" where
  "run_events p [] = []"
| "run_events p (e # es) =
     (case Transition p e of Inl _ \<Rightarrow> run_events p es | Inr q \<Rightarrow> q # run_events q es)"

lemma run_events_length: "phase_rank p + length (run_events p es) \<le> 3"
proof (induction es arbitrary: p)
  case Nil
  then show ?case by (simp add: phase_rank_le)
next
  case (Cons e es)
  show ?case
  proof (cases "Transition p e")
    case (Inl x)
    then show ?thesis using Cons.IH by simp
  next
    case (Inr q)
    then have "phase_rank p < phase_rank q" by (intro phase_step_rank phase_stepI)
    with Cons.IH [of q] Inr show ?thesis by simp
  qed
qed

text \<open>
  \<open>Transition\<close> succeeds exactly on the eight rows of the table and then returns the
  row's target; every other phase and event, unknown ones included, is refused with an
  error that names both.
\<close>

theorem Transition_table:
  "Transition p e =
     (if p = PhasePending \<and> e = EventSpawned then Inr PhaseRunning
      else if p = PhaseRunning \<and> e = EventAllComplete then Inr PhaseSucceeded
      else if p = PhaseRunning \<and> e = EventAgentFailed then Inr PhaseFailed
      else if (p = PhaseRunning \<or> p = PhaseSucceeded \<or> p = PhaseFailed) \<and> e = EventCancelled
        then Inr PhaseTerminating
      else if (p = PhaseSucceeded \<or> p = PhaseFailed) \<and> e = EventTTLExpired
        then Inr PhaseTerminating
      else Inl (Errorf (''invalid transition: '' @ p @ '' + '' @ e)))"
  by (auto simp: Transition_def transitions_def)

text \<open>
  A job moves at most three times, whatever events arrive and in whatever order, and
  never comes back to a phase it has left: each successful transition strictly increases
  the rank of the phase.
\<close>

lemma run_events_bounded:
  "length (run_events p es) \<le> 3 \<and> sorted_wrt (\<lambda>a b. phase_rank a < phase_rank b) (p # run_events p es)"
proof
  show "length (run_events p es) \<le> 3" using run_events_length [of p es] by simp
  show "sorted_wrt (\<lambda>a b. phase_rank a < phase_rank b) (p # run_events p es)"
  proof (induction es arbitrary: p)
    case Nil
    then show ?case by simp
  next
    case (Cons e es)
    show ?case
    proof (cases "Transition p e")
      case (Inl x)
      then show ?thesis using Cons.IH by simp
    next
      case (Inr q)
      then have "phase_rank p < phase_rank q" by (intro phase_step_rank phase_stepI)
      with Cons.IH [of q] Inr show ?thesis by auto
    qed
  qed
qed

end
