(* ===== verification/Telemetry.thy ===== *)
theory Telemetry
  imports Prelude
begin

text \<open>
  The outside world and what the program says about itself: the I/O state every
  component threads through its calls, spans (\<open>core/tracing/tracing.go\<close>), metrics
  (\<open>platform/k8s/metrics/metrics.go\<close> and their OTLP mirror \<open>core/metrics/metrics.go\<close>).

  \<open>world\<close> is whatever the libraries talk to (an API server, a CF foundation, a clock);
  it is a type variable, and every library operation is an argument of the definitions
  that call it. \<open>trace\<close> records, in order, each call the program makes to a library
  with the error it returned, each metric operation, each span event and each log line.
\<close>

section \<open>The I/O state\<close>

datatype instrument =
    ReconciliationsTotal | ReconciliationDuration | JobsTotal | JobDuration
  | AgentsRunning | JobQueueDepth

text \<open>
  One operation on an instrument with its label values: a counter increment, a gauge
  (or up-down counter) change, an observed duration.
\<close>

datatype metric_op =
    CounterInc instrument "string list"
  | GaugeAdd instrument "string list" int
  | Observe instrument "string list" int64

datatype 'c effect =
    Call 'c "goerror option"
  | Prom metric_op
  | Otlp metric_op
  | SpanStart string
  | SpanRecordError goerror
  | SpanSetError string
  | SpanEnd
  | LogInfo string
  | LogError "goerror option" string
  | Sdk string "goerror option"

record ('w, 'c) io_state =
  world :: 'w
  trace :: "'c effect list"
  ctx_next :: nat
  ctx_done :: "nat list"
  otlp_active :: bool

text \<open>Operating-system services the sources read: the clock, the environment, randomness.\<close>

record 'w os =
  os_now :: "'w \<Rightarrow> instant \<times> 'w"
  os_getenv :: "string \<Rightarrow> 'w \<Rightarrow> string"
  os_rand :: "nat \<Rightarrow> 'w \<Rightarrow> (8 word list) res \<times> 'w"

definition emit :: "'c effect \<Rightarrow> ('w, 'c) io_state \<Rightarrow> ('w, 'c) io_state" where
  "emit e s = s\<lparr>trace := trace s @ [e]\<rparr>"

definition err_of :: "'a res \<Rightarrow> goerror option" where
  "err_of r = (case r of Inl e \<Rightarrow> Some e | Inr _ \<Rightarrow> None)"

text \<open>A library call that returns a value and an error, and one that returns only an error\<close>

definition api :: "'c \<Rightarrow> ('w \<Rightarrow> 'a res \<times> 'w) \<Rightarrow> ('w, 'c) io_state \<Rightarrow> 'a res \<times> ('w, 'c) io_state" where
  "api c f s =
     (let (r, w) = f (world s) in (r, emit (Call c (err_of r)) (s\<lparr>world := w\<rparr>)))"

definition api_err ::
    "'c \<Rightarrow> ('w \<Rightarrow> goerror option \<times> 'w) \<Rightarrow> ('w, 'c) io_state \<Rightarrow> goerror option \<times> ('w, 'c) io_state" where
  "api_err c f s =
     (let (r, w) = f (world s) in (r, emit (Call c r) (s\<lparr>world := w\<rparr>)))"

definition now :: "'w os \<Rightarrow> ('w, 'c) io_state \<Rightarrow> instant \<times> ('w, 'c) io_state" where
  "now os s = (let (t, w) = os_now os (world s) in (t, s\<lparr>world := w\<rparr>))"

definition getenv :: "'w os \<Rightarrow> string \<Rightarrow> ('w, 'c) io_state \<Rightarrow> string" where
  "getenv os key s = os_getenv os key (world s)"

text \<open>\<open>context.WithCancel(context.Background())\<close> and its cancel function\<close>

definition with_cancel :: "('w, 'c) io_state \<Rightarrow> nat \<times> ('w, 'c) io_state" where
  "with_cancel s = (ctx_next s, s\<lparr>ctx_next := Suc (ctx_next s)\<rparr>)"

definition cancel_ctx :: "nat \<Rightarrow> ('w, 'c) io_state \<Rightarrow> ('w, 'c) io_state" where
  "cancel_ctx c s = s\<lparr>ctx_done := c # ctx_done s\<rparr>"

lemma emit_sels [simp]:
  "world (emit e s) = world s" "trace (emit e s) = trace s @ [e]"
  "ctx_next (emit e s) = ctx_next s" "ctx_done (emit e s) = ctx_done s"
  "otlp_active (emit e s) = otlp_active s"
  by (simp_all add: emit_def)

lemma ctx_sels [simp]:
  "trace (cancel_ctx c s) = trace s" "world (cancel_ctx c s) = world s"
  "ctx_next (cancel_ctx c s) = ctx_next s" "otlp_active (cancel_ctx c s) = otlp_active s"
  "ctx_done (cancel_ctx c s) = c # ctx_done s"
  "fst (with_cancel s) = ctx_next s" "trace (snd (with_cancel s)) = trace s"
  "world (snd (with_cancel s)) = world s" "ctx_done (snd (with_cancel s)) = ctx_done s"
  "ctx_next (snd (with_cancel s)) = Suc (ctx_next s)"
  "otlp_active (snd (with_cancel s)) = otlp_active s"
  by (simp_all add: cancel_ctx_def with_cancel_def)

lemma api_trace: "api c f s = (r, s') \<Longrightarrow> trace s' = trace s @ [Call c (err_of r)]"
  by (auto simp: api_def split: prod.splits)

lemma api_err_trace: "api_err c f s = (r, s') \<Longrightarrow> trace s' = trace s @ [Call c r]"
  by (auto simp: api_err_def split: prod.splits)

lemma now_trace: "now os s = (t, s') \<Longrightarrow> trace s' = trace s"
  by (auto simp: now_def split: prod.splits)

lemma api_active: "api c f s = (r, s') \<Longrightarrow> otlp_active s' = otlp_active s"
  by (auto simp: api_def split: prod.splits)

lemma api_err_active: "api_err c f s = (r, s') \<Longrightarrow> otlp_active s' = otlp_active s"
  by (auto simp: api_err_def split: prod.splits)

lemma now_active: "now os s = (t, s') \<Longrightarrow> otlp_active s' = otlp_active s"
  by (auto simp: now_def split: prod.splits)

lemmas io_trace = api_trace api_err_trace now_trace
lemmas io_active = api_active api_err_active now_active

lemma api_world: "api c f s = (r, s') \<Longrightarrow> f (world s) = (r, world s')"
  by (auto simp: api_def split: prod.splits)

lemma api_err_world: "api_err c f s = (r, s') \<Longrightarrow> f (world s) = (r, world s')"
  by (auto simp: api_err_def split: prod.splits)

lemma now_world: "now os s = (t, s') \<Longrightarrow> os_now os (world s) = (t, world s')"
  by (auto simp: now_def split: prod.splits)

lemmas io_world = api_world api_err_world now_world

text \<open>The requests of a trace with their errors, in order\<close>

fun calls :: "'c effect list \<Rightarrow> ('c \<times> goerror option) list" where
  "calls [] = []"
| "calls (Call c e # es) = (c, e) # calls es"
| "calls (_ # es) = calls es"

lemma calls_append [simp]: "calls (xs @ ys) = calls xs @ calls ys"
  by (induction xs rule: calls.induct) auto

section \<open>Computations that only append to the trace\<close>

text \<open>
  No operation of the program reads the trace: it runs the same whatever the trace
  holds and appends to it. \<open>appending\<close> states this, and is closed under every way the
  model builds operations.
\<close>

definition with_trace :: "'c effect list \<Rightarrow> ('w, 'c) io_state \<Rightarrow> ('w, 'c) io_state" where
  "with_trace t s = s\<lparr>trace := t\<rparr>"

lemma with_trace_same [simp]: "with_trace (trace s) s = s"
  by (cases s) (simp add: with_trace_def)

lemma with_trace_twice [simp]: "with_trace t (with_trace u s) = with_trace t s"
  by (simp add: with_trace_def)

lemma with_trace_sels [simp]:
  "trace (with_trace t s) = t" "world (with_trace t s) = world s"
  "ctx_next (with_trace t s) = ctx_next s" "ctx_done (with_trace t s) = ctx_done s"
  "otlp_active (with_trace t s) = otlp_active s"
  by (simp_all add: with_trace_def)

lemma emit_with_trace [simp]: "emit e (with_trace t s) = with_trace (t @ [e]) s"
  by (simp add: emit_def with_trace_def)

lemma emit_eq: "emit e s = with_trace (trace s @ [e]) s"
  by (simp add: emit_def with_trace_def)

definition appending :: "(('w, 'c) io_state \<Rightarrow> 'a \<times> ('w, 'c) io_state) \<Rightarrow> bool" where
  "appending f \<longleftrightarrow>
     (\<forall>s. \<exists>r s' es. \<forall>t. f (with_trace t s) = (r, with_trace (t @ es) s'))"

lemma appendingI:
  assumes "\<And>s. \<exists>r s' es. \<forall>t. f (with_trace t s) = (r, with_trace (t @ es) s')"
  shows "appending f"
  using assms by (simp add: appending_def)

lemma appendingD:
  "appending f \<Longrightarrow> \<exists>r s' es. \<forall>t. f (with_trace t s) = (r, with_trace (t @ es) s')"
  by (simp add: appending_def)

lemma appending_return [intro, simp]: "appending (\<lambda>s. (x, s))"
  by (rule appendingI) (metis append_Nil2)

lemma appending_emit [intro, simp]: "appending (\<lambda>s. (x, emit e s))"
  by (rule appendingI) (metis emit_with_trace)

lemma appending_api [intro, simp]:
  "appending (api (c :: 'c) (f :: 'w \<Rightarrow> 'a res \<times> 'w))"
proof (rule appendingI)
  fix s :: "('w, 'c) io_state"
  obtain r w where rw: "f (world s) = (r, w)" by fastforce
  have "api c f (with_trace t s)
      = (r, with_trace (t @ [Call c (err_of r)]) (s\<lparr>world := w\<rparr>))" for t
    by (simp add: api_def rw emit_def with_trace_def del: emit_with_trace)
  then show "\<exists>r s' es. \<forall>t. api c f (with_trace t s) = (r, with_trace (t @ es) s')" by blast
qed

lemma appending_api_err [intro, simp]:
  "appending (api_err (c :: 'c) (f :: 'w \<Rightarrow> goerror option \<times> 'w))"
proof (rule appendingI)
  fix s :: "('w, 'c) io_state"
  obtain r w where rw: "f (world s) = (r, w)" by fastforce
  have "api_err c f (with_trace t s)
      = (r, with_trace (t @ [Call c r]) (s\<lparr>world := w\<rparr>))" for t
    by (simp add: api_err_def rw emit_def with_trace_def del: emit_with_trace)
  then show "\<exists>r s' es. \<forall>t. api_err c f (with_trace t s) = (r, with_trace (t @ es) s')" by blast
qed

lemma appending_now [intro, simp]:
  "appending (now (os :: 'w os) :: ('w, 'c) io_state \<Rightarrow> _)"
proof (rule appendingI)
  fix s :: "('w, 'c) io_state"
  obtain r w where rw: "os_now os (world s) = (r, w)" by fastforce
  have "now os (with_trace t s) = (r, with_trace (t @ []) (s\<lparr>world := w\<rparr>))" for t
    by (simp add: now_def rw with_trace_def)
  then show "\<exists>r s' es. \<forall>t. now os (with_trace t s) = (r, with_trace (t @ es) s')" by blast
qed

lemma appending_with_cancel [intro, simp]:
  "appending (with_cancel :: ('w, 'c) io_state \<Rightarrow> _)"
proof (rule appendingI)
  fix s :: "('w, 'c) io_state"
  have "with_cancel (with_trace t s)
      = (ctx_next s, with_trace (t @ []) (s\<lparr>ctx_next := Suc (ctx_next s)\<rparr>))" for t
    by (simp add: with_cancel_def with_trace_def)
  then show "\<exists>r s' es. \<forall>t. with_cancel (with_trace t s) = (r, with_trace (t @ es) s')" by blast
qed

lemma appending_cancel_ctx [intro, simp]:
  "appending (\<lambda>s :: ('w, 'c) io_state. (x, cancel_ctx c s))"
proof (rule appendingI)
  fix s :: "('w, 'c) io_state"
  have "(x, cancel_ctx c (with_trace t s)) = (x, with_trace (t @ []) (cancel_ctx c s))" for t
    by (simp add: cancel_ctx_def with_trace_def)
  then show "\<exists>r s' es. \<forall>t. (x, cancel_ctx c (with_trace t s)) = (r, with_trace (t @ es) s')"
    by blast
qed

lemma appending_bind:
  assumes f: "appending f" and g: "\<And>x. appending (g x)"
  shows "appending (\<lambda>s. case f s of (x, s') \<Rightarrow> g x s')"
proof (rule appendingI)
  fix s
  obtain r s1 es where 1: "\<forall>t. f (with_trace t s) = (r, with_trace (t @ es) s1)"
    using appendingD [OF f, of s] by blast
  obtain r' s2 es' where 2: "\<forall>t. g r (with_trace t s1) = (r', with_trace (t @ es') s2)"
    using appendingD [OF g, of r s1] by blast
  have "(case f (with_trace t s) of (x, s') \<Rightarrow> g x s') = (r', with_trace (t @ (es @ es')) s2)" for t
    using 1 2 by simp
  then show "\<exists>r s' es. \<forall>t. (case f (with_trace t s) of (x, s') \<Rightarrow> g x s')
      = (r, with_trace (t @ es) s')" by blast
qed

lemma appending_post: "appending f \<Longrightarrow> appending (\<lambda>s. case f s of (x, s') \<Rightarrow> (h x, s'))"
  by (rule appending_bind) auto

text \<open>What an appending computation does, at a state with its own trace\<close>

lemma appending_run:
  assumes "appending f"
  obtains r s' es where "f s = (r, with_trace (trace s @ es) s')"
    and "\<And>t. f (with_trace t s) = (r, with_trace (t @ es) s')"
proof -
  obtain r s' es where *: "\<forall>t. f (with_trace t s) = (r, with_trace (t @ es) s')"
    using appendingD [OF assms, of s] by blast
  from * have "f (with_trace (trace s) s) = (r, with_trace (trace s @ es) s')" ..
  then have "f s = (r, with_trace (trace s @ es) s')" by simp
  then show ?thesis by (rule that) (rule * [rule_format])
qed

text \<open>The state without its trace: what the program and its libraries can observe\<close>

definition untraced :: "('w, 'c) io_state \<Rightarrow> ('w, 'c) io_state" where
  "untraced s = with_trace [] s"

lemma untraced_simps [simp]:
  "untraced (with_trace t s) = untraced s" "untraced (emit e s) = untraced s"
  by (simp_all add: untraced_def emit_eq)

section \<open>Spans: \<open>core/tracing/tracing.go\<close>\<close>

text \<open>\<open>em\<close> records a span event on the state \<open>fn\<close> runs on.\<close>

definition WrapWith ::
    "('c effect \<Rightarrow> 's \<Rightarrow> 's) \<Rightarrow> string \<Rightarrow> ('s \<Rightarrow> 'a res \<times> 's) \<Rightarrow> 's \<Rightarrow> 'a res \<times> 's" where
  "WrapWith em name fn s =
     (let (r, s1) = fn (em (SpanStart name) s);
          s2 = (case r of
                  Inl e \<Rightarrow> em (SpanSetError (err_text e)) (em (SpanRecordError e) s1)
                | Inr _ \<Rightarrow> s1)
      in (r, em SpanEnd s2))"

abbreviation Wrap ::
    "string \<Rightarrow> (('w, 'c) io_state \<Rightarrow> 'a res \<times> ('w, 'c) io_state)
     \<Rightarrow> ('w, 'c) io_state \<Rightarrow> 'a res \<times> ('w, 'c) io_state" where
  "Wrap \<equiv> WrapWith emit"

definition res_of :: "goerror option \<Rightarrow> unit res" where
  "res_of e = (case e of None \<Rightarrow> Inr () | Some x \<Rightarrow> Inl x)"

definition WrapErrWith ::
    "('c effect \<Rightarrow> 's \<Rightarrow> 's) \<Rightarrow> string \<Rightarrow> ('s \<Rightarrow> goerror option \<times> 's) \<Rightarrow> 's \<Rightarrow> goerror option \<times> 's" where
  "WrapErrWith em name fn s =
     (let (r, s1) = WrapWith em name (\<lambda>s. case fn s of (e, s') \<Rightarrow> (res_of e, s')) s
      in (err_of r, s1))"

abbreviation WrapErr ::
    "string \<Rightarrow> (('w, 'c) io_state \<Rightarrow> goerror option \<times> ('w, 'c) io_state)
     \<Rightarrow> ('w, 'c) io_state \<Rightarrow> goerror option \<times> ('w, 'c) io_state" where
  "WrapErr \<equiv> WrapErrWith emit"

lemma err_of_res_of [simp]: "err_of (res_of e) = e"
  by (simp add: err_of_def res_of_def split: option.splits)

text \<open>
  A wrapped call does what the call does, and its trace is the call's between the start
  and the end of exactly one span, with the error recorded when there is one.
\<close>

definition span_error :: "'a res \<Rightarrow> 'c effect list" where
  "span_error r =
     (case r of Inl e \<Rightarrow> [SpanRecordError e, SpanSetError (err_text e)] | Inr _ \<Rightarrow> [])"

lemma Wrap_run:
  assumes "\<And>t. fn (with_trace t s) = (r, with_trace (t @ es) s')"
  shows "Wrap name fn (with_trace t s)
    = (r, with_trace (t @ ([SpanStart name] @ es @ span_error r @ [SpanEnd])) s')"
proof (cases r)
  case (Inl e)
  then show ?thesis by (simp add: WrapWith_def span_error_def assms)
next
  case (Inr a)
  then show ?thesis by (simp add: WrapWith_def span_error_def assms)
qed

lemma appending_Wrap [intro]:
  assumes "appending fn" shows "appending (Wrap name fn)"
proof (rule appendingI)
  fix s
  obtain r s' es where *: "\<forall>t. fn (with_trace t s) = (r, with_trace (t @ es) s')"
    using appendingD [OF assms, of s] by blast
  have "Wrap name fn (with_trace t s)
      = (r, with_trace (t @ ([SpanStart name] @ es @ span_error r @ [SpanEnd])) s')" for t
    by (rule Wrap_run) (rule * [rule_format])
  then show "\<exists>r s' es. \<forall>t. Wrap name fn (with_trace t s) = (r, with_trace (t @ es) s')"
    by blast
qed

lemma appending_WrapErr [intro]:
  assumes "appending fn" shows "appending (WrapErr name fn)"
  unfolding WrapErrWith_def [abs_def] Let_def
  by (intro appending_post appending_Wrap assms)

lemma Wrap_transparent_run:
  assumes "appending fn" and "fn s = (r, s1)"
  obtains es s2 where "trace s1 = trace s @ es" and "Wrap name fn s = (r, s2)"
    and "untraced s2 = untraced s1"
    and "trace s2 = trace s @ [SpanStart name] @ es @ span_error r @ [SpanEnd]"
proof -
  obtain r' s' es where all: "\<forall>t. fn (with_trace t s) = (r', with_trace (t @ es) s')"
    using appendingD [OF assms(1), of s] by blast
  then have "fn (with_trace (trace s) s) = (r', with_trace (trace s @ es) s')" ..
  then have run: "fn s = (r', with_trace (trace s @ es) s')" by simp
  have "Wrap name fn (with_trace (trace s) s)
      = (r', with_trace (trace s @ ([SpanStart name] @ es @ span_error r' @ [SpanEnd])) s')"
    by (rule Wrap_run) (rule all [rule_format])
  with run assms(2) show ?thesis
    by (intro that [of es "with_trace (trace s @ ([SpanStart name] @ es @ span_error r'
          @ [SpanEnd])) s'"]) auto
qed

end
