(* ===== verification/Platform_Adapter.thy ===== *)
theory Platform_Adapter
  imports Telemetry Agent_Types
begin

text \<open>
  The interface \<open>scheduler.PlatformAdapter\<close> (\<open>core/scheduler/scheduler.go\<close>) and its tracing
  decorator (\<open>core/tracing/scheduler.go\<close>). \<open>WatchAgent\<close> returns a channel fed by a polling
  goroutine: the model returns the goroutine as a function from the turns of its loop to
  the events it has sent and whether it has closed the channel. The locale states what
  every adapter of the repository promises; the scheduler relies on nothing else.
\<close>

section \<open>The interface\<close>

type_synonym 'p watchproc = "'p list \<Rightarrow> Event list \<times> bool"

text \<open>
  One turn of such a loop: the state in which it makes its request (the rest of the program and the
  platform having moved on since the turn before), whether \<open>ctx.Err()\<close> was not nil when it was checked,
  and whether the select of the turn took \<open>ctx.Done()\<close>.
\<close>

record ('w, 'c) turn =
  turn_state :: "('w, 'c) io_state"
  turn_cancelled :: bool
  turn_done :: bool

text \<open>A turn in a given world that is not told to stop\<close>

definition turn_on :: "'w \<Rightarrow> ('w, 'c) turn" where
  "turn_on w = \<lparr>turn_state = \<lparr>world = w, trace = [], ctx_next = 0, ctx_done = [], otlp_active = False\<rparr>,
                turn_cancelled = False, turn_done = False\<rparr>"

lemma turn_on_sels [simp]:
  "world (turn_state (turn_on w)) = w" "\<not> turn_cancelled (turn_on w)" "\<not> turn_done (turn_on w)"
  by (simp_all add: turn_on_def)

lemma fst_api: "fst (api c f s) = fst (f (world s))"
  by (simp add: api_def split: prod.split)

record ('w, 'c, 'p) adapter =
  pa_SpawnAgent :: "Spec \<Rightarrow> ('w, 'c) io_state \<Rightarrow> string res \<times> ('w, 'c) io_state"
  pa_TerminateAgent :: "string \<Rightarrow> ('w, 'c) io_state \<Rightarrow> goerror option \<times> ('w, 'c) io_state"
  pa_WatchAgent :: "nat \<Rightarrow> string \<Rightarrow> ('w, 'c) io_state \<Rightarrow> 'p watchproc res \<times> ('w, 'c) io_state"

text \<open>
  What a watch goroutine may do: send at most one event, for the agent it watches, which
  ends the agent, and close the channel then; nothing happens after the close.
\<close>

definition one_shot :: "string \<Rightarrow> 'p watchproc \<Rightarrow> bool" where
  "one_shot agent h \<longleftrightarrow>
     (\<forall>ps. length (fst (h ps)) \<le> 1
        \<and> (\<forall>e\<in>set (fst (h ps)). ev_AgentID e = agent \<and> terminal_event e)
        \<and> (fst (h ps) \<noteq> [] \<longrightarrow> snd (h ps))
        \<and> (\<forall>qs. snd (h ps) \<longrightarrow> h (ps @ qs) = h ps))"

text \<open>The cancellation state is the scheduler's own: an adapter only reads it.\<close>

definition keeps_ctx :: "(('w, 'c) io_state \<Rightarrow> 'a \<times> ('w, 'c) io_state) \<Rightarrow> bool" where
  "keeps_ctx f \<longleftrightarrow>
     (\<forall>s. ctx_next (snd (f s)) = ctx_next s \<and> ctx_done (snd (f s)) = ctx_done s)"

lemma keeps_ctxI:
  "(\<And>s. ctx_next (snd (f s)) = ctx_next s \<and> ctx_done (snd (f s)) = ctx_done s) \<Longrightarrow> keeps_ctx f"
  by (simp add: keeps_ctx_def)

lemma keeps_ctxD:
  assumes "keeps_ctx f" and "f s = (r, s')"
  shows "ctx_next s' = ctx_next s" "ctx_done s' = ctx_done s"
  using assms(1) [unfolded keeps_ctx_def, rule_format, of s] assms(2) by simp_all

lemma keeps_ctx_return [simp, intro]: "keeps_ctx (\<lambda>s. (x, s))"
  by (rule keeps_ctxI) simp

lemma keeps_ctx_emit [simp, intro]: "keeps_ctx (\<lambda>s. (x, emit e s))"
  by (rule keeps_ctxI) simp

lemma keeps_ctx_api [simp, intro]: "keeps_ctx (api c f)"
  by (rule keeps_ctxI) (simp add: api_def split: prod.split)

lemma keeps_ctx_api_err [simp, intro]: "keeps_ctx (api_err c f)"
  by (rule keeps_ctxI) (simp add: api_err_def split: prod.split)

lemma keeps_ctx_now [simp, intro]: "keeps_ctx (now os)"
  by (rule keeps_ctxI) (simp add: now_def split: prod.split)

lemma keeps_ctx_bind:
  assumes f: "keeps_ctx f" and g: "\<And>x. keeps_ctx (g x)"
  shows "keeps_ctx (\<lambda>s. case f s of (x, s') \<Rightarrow> g x s')"
proof (rule keeps_ctxI)
  fix s
  obtain x s1 where 1: "f s = (x, s1)" by fastforce
  obtain y s2 where 2: "g x s1 = (y, s2)" by fastforce
  from keeps_ctxD [OF f 1] keeps_ctxD [OF g 2] 1 2
  show "ctx_next (snd (case f s of (x, s') \<Rightarrow> g x s')) = ctx_next s
      \<and> ctx_done (snd (case f s of (x, s') \<Rightarrow> g x s')) = ctx_done s"
    by simp
qed

lemma keeps_ctx_Wrap [intro]: "keeps_ctx f \<Longrightarrow> keeps_ctx (Wrap name f)"
  by (auto simp: keeps_ctx_def WrapWith_def Let_def split: prod.splits sum.splits)
     (metis emit_sels(3,4) snd_conv)+

lemma keeps_ctx_WrapErr [intro]: "keeps_ctx f \<Longrightarrow> keeps_ctx (WrapErr name f)"
  unfolding WrapErrWith_def [abs_def] Let_def
  by (intro keeps_ctx_bind keeps_ctx_Wrap keeps_ctx_return)

locale platform_adapter =
  fixes A :: "('w, 'c, 'p) adapter"
  assumes spawn_no_agents:
      "sp_Agents spec = [] \<Longrightarrow> \<exists>e s'. pa_SpawnAgent A spec s = (Inl e, s') \<and> world s' = world s"
    and watch_succeeds: "\<exists>h s'. pa_WatchAgent A c agent s = (Inr h, s')"
    and watch_one_shot: "pa_WatchAgent A c agent s = (Inr h, s') \<Longrightarrow> one_shot agent h"
    and spawn_appending: "appending (pa_SpawnAgent A spec)"
    and terminate_appending: "appending (pa_TerminateAgent A agent)"
    and watch_appending: "appending (pa_WatchAgent A c agent)"
    and spawn_keeps_ctx: "keeps_ctx (pa_SpawnAgent A spec)"
    and terminate_keeps_ctx: "keeps_ctx (pa_TerminateAgent A agent)"
    and watch_keeps_ctx: "keeps_ctx (pa_WatchAgent A c agent)"
begin

lemma watch_never_fails: "pa_WatchAgent A c agent s \<noteq> (Inl e, s')"
  using watch_succeeds [of c agent s] by auto

lemma watch_event_agent:
  "pa_WatchAgent A c agent s = (Inr h, s') \<Longrightarrow> ev \<in> set (fst (h ps)) \<Longrightarrow>
     ev_AgentID ev = agent \<and> terminal_event ev"
  using watch_one_shot by (auto simp: one_shot_def)

lemma watch_at_most_one:
  "pa_WatchAgent A c agent s = (Inr h, s') \<Longrightarrow> length (fst (h ps)) \<le> 1"
  using watch_one_shot by (auto simp: one_shot_def)

end

section \<open>The tracing decorator\<close>

definition WrapPlatformAdapter :: "('w, 'c, 'p) adapter \<Rightarrow> ('w, 'c, 'p) adapter" where
  "WrapPlatformAdapter inner =
     \<lparr>pa_SpawnAgent = (\<lambda>spec. Wrap ''PlatformAdapter.SpawnAgent'' (pa_SpawnAgent inner spec)),
      pa_TerminateAgent =
        (\<lambda>agent. WrapErr ''PlatformAdapter.TerminateAgent'' (pa_TerminateAgent inner agent)),
      pa_WatchAgent =
        (\<lambda>c agent. Wrap ''PlatformAdapter.WatchAgent'' (pa_WatchAgent inner c agent))\<rparr>"

lemma WrapPlatformAdapter_sels [simp]:
  "pa_SpawnAgent (WrapPlatformAdapter A) spec = Wrap ''PlatformAdapter.SpawnAgent'' (pa_SpawnAgent A spec)"
  "pa_TerminateAgent (WrapPlatformAdapter A) agent =
     WrapErr ''PlatformAdapter.TerminateAgent'' (pa_TerminateAgent A agent)"
  "pa_WatchAgent (WrapPlatformAdapter A) c agent =
     Wrap ''PlatformAdapter.WatchAgent'' (pa_WatchAgent A c agent)"
  by (simp_all add: WrapPlatformAdapter_def)

lemma Wrap_result:
  "Wrap name f s = (r, s') \<Longrightarrow> \<exists>s2. f (emit (SpanStart name) s) = (r, s2) \<and> world s' = world s2"
  by (auto simp: WrapWith_def Let_def split: prod.splits sum.splits)

locale traced_platform_adapter = platform_adapter A for A :: "('w, 'c, 'p) adapter"

sublocale traced_platform_adapter \<subseteq> traced: platform_adapter "WrapPlatformAdapter A"
proof
  fix spec :: Spec and s
  assume "sp_Agents spec = []"
  then obtain e s2 where
    "pa_SpawnAgent A spec (emit (SpanStart ''PlatformAdapter.SpawnAgent'') s) = (Inl e, s2)"
    and "world s2 = world s"
    using spawn_no_agents [of spec "emit (SpanStart ''PlatformAdapter.SpawnAgent'') s"] by auto
  then show "\<exists>e s'. pa_SpawnAgent (WrapPlatformAdapter A) spec s = (Inl e, s') \<and> world s' = world s"
    by (simp add: WrapWith_def)
next
  fix c agent s
  obtain h s2 where
    "pa_WatchAgent A c agent (emit (SpanStart ''PlatformAdapter.WatchAgent'') s) = (Inr h, s2)"
    using watch_succeeds by blast
  then show "\<exists>h s'. pa_WatchAgent (WrapPlatformAdapter A) c agent s = (Inr h, s')"
    by (simp add: WrapWith_def)
next
  fix c agent s h s'
  assume "pa_WatchAgent (WrapPlatformAdapter A) c agent s = (Inr h, s')"
  then show "one_shot agent h"
    by (auto dest!: Wrap_result watch_one_shot)
qed (simp_all add: appending_Wrap appending_WrapErr spawn_appending terminate_appending
      watch_appending keeps_ctx_Wrap keeps_ctx_WrapErr spawn_keeps_ctx terminate_keeps_ctx
      watch_keeps_ctx)

text \<open>
  Tracing a platform call is transparent: the decorated adapter returns what the
  adapter returns and leaves the same world and cancellation state; what it adds to the
  trace is exactly one span around the call's own effects, with the error recorded on it
  when and only when the call fails. Stated for spawning an agent on any adapter whose
  calls do not read the trace.
\<close>

theorem traced_spawn_transparent:
  assumes "appending (pa_SpawnAgent A spec)" and "pa_SpawnAgent A spec s = (r, s1)"
  shows "\<exists>es s2. pa_SpawnAgent (WrapPlatformAdapter A) spec s = (r, s2)
    \<and> trace s1 = trace s @ es \<and> untraced s2 = untraced s1
    \<and> trace s2 = trace s @ [SpanStart ''PlatformAdapter.SpawnAgent''] @ es
        @ (case r of Inl e \<Rightarrow> [SpanRecordError e, SpanSetError (err_text e)] | Inr _ \<Rightarrow> [])
        @ [SpanEnd]"
proof -
  obtain es s2 where "trace s1 = trace s @ es"
    and "Wrap ''PlatformAdapter.SpawnAgent'' (pa_SpawnAgent A spec) s = (r, s2)"
    and "untraced s2 = untraced s1"
    and "trace s2 = trace s @ [SpanStart ''PlatformAdapter.SpawnAgent''] @ es @ span_error r @ [SpanEnd]"
    by (rule Wrap_transparent_run [OF assms])
  then show ?thesis by (auto simp: span_error_def)
qed

theorem traced_spawn_transparent_witness:
  "\<exists>s2. pa_SpawnAgent (WrapPlatformAdapter
       \<lparr>pa_SpawnAgent = (\<lambda>spec. api ''create'' (\<lambda>w :: nat. (Inl (Errorf ''quota''), Suc w))),
        pa_TerminateAgent = (\<lambda>i. api_err ''delete'' (\<lambda>w. (None, w))),
        pa_WatchAgent = (\<lambda>c i s. (Inr (\<lambda>ps :: unit list. ([], False)), s))\<rparr>) zero_Spec
       \<lparr>world = 0, trace = [], ctx_next = 0, ctx_done = [], otlp_active = False\<rparr>
      = (Inl (Errorf ''quota''), s2)
     \<and> trace s2 = [SpanStart ''PlatformAdapter.SpawnAgent'',
         Call ''create'' (Some (Errorf ''quota'')), SpanRecordError (Errorf ''quota''),
         SpanSetError ''quota'', SpanEnd]"
proof -
  let ?A = "\<lparr>pa_SpawnAgent = (\<lambda>spec. api ''create'' (\<lambda>w :: nat. (Inl (Errorf ''quota''), Suc w))),
    pa_TerminateAgent = (\<lambda>i. api_err ''delete'' (\<lambda>w. (None, w))),
    pa_WatchAgent = (\<lambda>c i s. (Inr (\<lambda>ps :: unit list. ([], False)), s))\<rparr>"
  let ?s = "\<lparr>world = 0, trace = [], ctx_next = 0, ctx_done = [], otlp_active = False\<rparr>"
  have run: "pa_SpawnAgent ?A zero_Spec ?s = (Inl (Errorf ''quota''),
      \<lparr>world = 1, trace = [Call ''create'' (Some (Errorf ''quota''))], ctx_next = 0, ctx_done = [],
       otlp_active = False\<rparr>)"
    by (simp add: api_def emit_def err_of_def)
  have "appending (pa_SpawnAgent ?A zero_Spec)" by simp
  from traced_spawn_transparent [OF this run] show ?thesis by auto
qed

end
