(* ===== verification/Scheduler.thy ===== *)
theory Scheduler
  imports State_Machine Platform_Adapter
begin

text \<open>
  \<open>core/scheduler/scheduler.go\<close>: \<open>DefaultScheduler\<close>. Each method is split where the code
  takes and releases its mutex: I/O with the platform adapter outside the lock, one
  function for each critical section. This theory composes the pieces sequentially;
  \<open>Scheduler_Concurrent\<close> interleaves the same critical sections.

  A job is a pointer shared by the caller and the record: \<open>Schedule\<close> returns the job as the
  caller sees it after the call. The record's cancel function is the number of the context
  it cancels. \<open>ds_watchers\<close> lists the \<open>watchJob\<close> goroutines started, oldest first.
\<close>

section \<open>State\<close>

record jobRecord =
  jr_job :: Job
  jr_agentIDs :: "string list"
  jr_cancelWatch :: nat

type_synonym jobs = "string \<rightharpoonup> jobRecord"

record 'p DefaultScheduler =
  ds_jobs :: jobs
  ds_watchers :: "(string \<times> 'p watchproc list) list"

definition NewDefaultScheduler :: "'p DefaultScheduler" where
  "NewDefaultScheduler = \<lparr>ds_jobs = Map.empty, ds_watchers = []\<rparr>"

section \<open>Schedule\<close>

text \<open>The spec built for one role\<close>

definition role_spec :: "string \<Rightarrow> AgentRole \<Rightarrow> Spec" where
  "role_spec tenantRef role = zero_Spec\<lparr>sp_TenantRef := tenantRef, sp_Agents := [role]\<rparr>"

fun spawn_all ::
    "('w, 'c, 'p) adapter \<Rightarrow> string \<Rightarrow> AgentRole list
     \<Rightarrow> ('w, 'c) io_state \<Rightarrow> string list res \<times> ('w, 'c) io_state" where
  "spawn_all A tenantRef [] s = (Inr [], s)"
| "spawn_all A tenantRef (role # roles) s =
     (case pa_SpawnAgent A (role_spec tenantRef role) s of
        (Inl err, s1) \<Rightarrow> (Inl (Wrapped (''spawn agent '' @ ar_Role role @ '': '') err), s1)
      | (Inr i, s1) \<Rightarrow>
          (case spawn_all A tenantRef roles s1 of
             (Inl err, s2) \<Rightarrow> (Inl err, s2)
           | (Inr ids, s2) \<Rightarrow> (Inr (i # ids), s2)))"

fun watch_all ::
    "('w, 'c, 'p) adapter \<Rightarrow> nat \<Rightarrow> string list
     \<Rightarrow> ('w, 'c) io_state \<Rightarrow> 'p watchproc list res \<times> ('w, 'c) io_state" where
  "watch_all A c [] s = (Inr [], s)"
| "watch_all A c (i # ids) s =
     (case pa_WatchAgent A c i s of
        (Inl err, s1) \<Rightarrow> (Inl (Wrapped (''watch agent '' @ i @ '': '') err), s1)
      | (Inr ch, s1) \<Rightarrow>
          (case watch_all A c ids s1 of
             (Inl err, s2) \<Rightarrow> (Inl err, s2)
           | (Inr chs, s2) \<Rightarrow> (Inr (ch # chs), s2)))"

text \<open>\<open>for _, id := range agentIDs { _ = s.adapter.TerminateAgent(ctx, id) }\<close>\<close>

fun terminate_each ::
    "('w, 'c, 'p) adapter \<Rightarrow> string list \<Rightarrow> ('w, 'c) io_state \<Rightarrow> ('w, 'c) io_state" where
  "terminate_each A [] s = s"
| "terminate_each A (i # ids) s = terminate_each A ids (snd (pa_TerminateAgent A i s))"

definition already_scheduled :: "string \<Rightarrow> goerror" where
  "already_scheduled i = Errorf (''job '' @ go_quote i @ '' already scheduled'')"

text \<open>The critical section of \<open>Schedule\<close>\<close>

definition schedule_commit ::
    "Job \<Rightarrow> string list \<Rightarrow> nat \<Rightarrow> jobs \<Rightarrow> goerror option \<times> Job \<times> jobs" where
  "schedule_commit job agentIDs cancelWatch jobs =
     (if jobs (job_ID job) \<noteq> None then (Some (already_scheduled (job_ID job)), job, jobs)
      else
        let job1 = (if job_phase job = [] then set_phase PhasePending job else job)
        in (case Transition (job_phase job1) EventSpawned of
              Inl err \<Rightarrow> (Some (Wrapped ''invalid phase transition: '' err), job1, jobs)
            | Inr next \<Rightarrow>
                let job2 = set_phase next job1
                in (None, job2,
                    jobs(job_ID job \<mapsto>
                      \<lparr>jr_job = job2, jr_agentIDs = agentIDs, jr_cancelWatch = cancelWatch\<rparr>))))"

definition Schedule ::
    "('w, 'c, 'p) adapter \<Rightarrow> Job \<Rightarrow> 'p DefaultScheduler \<times> ('w, 'c) io_state
     \<Rightarrow> (goerror option \<times> Job) \<times> 'p DefaultScheduler \<times> ('w, 'c) io_state" where
  "Schedule A job st =
     (let (ds, s) = st in
      case spawn_all A (sp_TenantRef (job_Spec job)) (sp_Agents (job_Spec job)) s of
        (Inl err, s1) \<Rightarrow> ((Some err, job), (ds, s1))
      | (Inr agentIDs, s1) \<Rightarrow>
          (let (watchCtx, s2) = with_cancel s1 in
           case watch_all A watchCtx agentIDs s2 of
             (Inl err, s3) \<Rightarrow> ((Some err, job), (ds, cancel_ctx watchCtx s3))
           | (Inr watchChans, s3) \<Rightarrow>
               (case schedule_commit job agentIDs watchCtx (ds_jobs ds) of
                  (Some err, job', jobs') \<Rightarrow>
                    ((Some err, job'),
                     (ds\<lparr>ds_jobs := jobs'\<rparr>, terminate_each A agentIDs (cancel_ctx watchCtx s3)))
                | (None, job', jobs') \<Rightarrow>
                    ((None, job'),
                     (ds\<lparr>ds_jobs := jobs',
                         ds_watchers := ds_watchers ds @ [(job_ID job, watchChans)]\<rparr>, s3)))))"

section \<open>Cancel\<close>

definition not_found :: "string \<Rightarrow> goerror" where
  "not_found i = Errorf (''job '' @ go_quote i @ '' not found'')"

text \<open>The terminate loop of \<open>Cancel\<close>, which stops at the first error\<close>

fun terminate_all ::
    "('w, 'c, 'p) adapter \<Rightarrow> string list
     \<Rightarrow> ('w, 'c) io_state \<Rightarrow> goerror option \<times> ('w, 'c) io_state" where
  "terminate_all A [] s = (None, s)"
| "terminate_all A (i # ids) s =
     (case pa_TerminateAgent A i s of
        (Some err, s1) \<Rightarrow> (Some (Wrapped (''terminate agent '' @ i @ '': '') err), s1)
      | (None, s1) \<Rightarrow> terminate_all A ids s1)"

text \<open>
  The second critical section: whether to call \<open>cancelWatch\<close>, the error, the new jobs
\<close>

definition cancel_commit :: "string \<Rightarrow> jobs \<Rightarrow> bool \<times> goerror option \<times> jobs" where
  "cancel_commit jobID jobs =
     (case jobs jobID of
        None \<Rightarrow> (False, None, jobs)
      | Some rec \<Rightarrow>
          (case Transition (job_phase (jr_job rec)) EventCancelled of
             Inl err \<Rightarrow> (True, Some err, jobs)
           | Inr next \<Rightarrow>
               (True, None, jobs(jobID \<mapsto> rec\<lparr>jr_job := set_phase next (jr_job rec)\<rparr>))))"

definition Cancel ::
    "('w, 'c, 'p) adapter \<Rightarrow> string \<Rightarrow> 'p DefaultScheduler \<times> ('w, 'c) io_state
     \<Rightarrow> goerror option \<times> 'p DefaultScheduler \<times> ('w, 'c) io_state" where
  "Cancel A jobID st =
     (let (ds, s) = st in
      case ds_jobs ds jobID of
        None \<Rightarrow> (Some (not_found jobID), (ds, s))
      | Some rec \<Rightarrow>
          (case terminate_all A (jr_agentIDs rec) s of
             (Some err, s1) \<Rightarrow> (Some err, (ds, s1))
           | (None, s1) \<Rightarrow>
               (let (cancel, err, jobs') = cancel_commit jobID (ds_jobs ds)
                in (err, (ds\<lparr>ds_jobs := jobs'\<rparr>,
                          if cancel then cancel_ctx (jr_cancelWatch rec) s1 else s1)))))"

section \<open>Status and ListActive\<close>

definition StatusOf :: "string \<Rightarrow> jobs \<Rightarrow> Status res" where
  "StatusOf jobID jobs =
     (case jobs jobID of None \<Rightarrow> Inl (not_found jobID) | Some rec \<Rightarrow> Inr (job_Status (jr_job rec)))"

definition is_active :: "string \<Rightarrow> Job \<Rightarrow> bool" where
  "is_active tenantID job \<longleftrightarrow> job_TenantID job = tenantID \<and> \<not> IsTerminal (job_phase job)"

text \<open>\<open>order\<close> is the order in which the runtime visits the map.\<close>

fun ListActive :: "string list \<Rightarrow> string \<Rightarrow> jobs \<Rightarrow> Job list" where
  "ListActive [] tenantID jobs = []"
| "ListActive (k # order) tenantID jobs =
     (case jobs k of
        None \<Rightarrow> ListActive order tenantID jobs
      | Some rec \<Rightarrow>
          (if is_active tenantID (jr_job rec) then jr_job rec # ListActive order tenantID jobs
           else ListActive order tenantID jobs))"

section \<open>watchJob\<close>

text \<open>
  The loop over the merged events of all agents: it ends when as many terminal events as
  agents have arrived, or without a result when the merged channel is closed before.
\<close>

fun watch_loop :: "nat \<Rightarrow> nat \<Rightarrow> nat \<Rightarrow> Event list \<Rightarrow> (nat \<times> nat) option" where
  "watch_loop tot completed failed [] =
     (if completed + failed < tot then None else Some (completed, failed))"
| "watch_loop tot completed failed (ev # evs) =
     (if completed + failed < tot then
        (if ev_Type ev = EventCompleted then watch_loop tot (Suc completed) failed evs
         else if ev_Type ev = EventFailed then watch_loop tot completed (Suc failed) evs
         else watch_loop tot completed failed evs)
      else Some (completed, failed))"

text \<open>The critical section of \<open>watchJob\<close>\<close>

definition watch_commit :: "string \<Rightarrow> nat \<Rightarrow> jobs \<Rightarrow> jobs" where
  "watch_commit jobID failed jobs =
     (case jobs jobID of
        None \<Rightarrow> jobs
      | Some rec \<Rightarrow>
          (if job_phase (jr_job rec) \<noteq> PhaseTerminating \<and> \<not> IsTerminal (job_phase (jr_job rec))
           then jobs(jobID \<mapsto> rec\<lparr>jr_job :=
                  set_phase (if failed > 0 then PhaseFailed else PhaseSucceeded) (jr_job rec)\<rparr>)
           else jobs))"

text \<open>\<open>watchJob\<close> on the events the fan-in delivers, in the order it delivers them\<close>

definition watchJob :: "string \<Rightarrow> nat \<Rightarrow> Event list \<Rightarrow> jobs \<Rightarrow> jobs" where
  "watchJob jobID tot evs jobs =
     (case watch_loop tot 0 0 evs of
        None \<Rightarrow> jobs
      | Some (completed, failed) \<Rightarrow> watch_commit jobID failed jobs)"

section \<open>Critical sections: basic facts\<close>

lemma schedule_commit_None:
  assumes "schedule_commit job ids c jobs = (None, job', jobs')"
  shows "jobs (job_ID job) = None" and "job' = set_phase PhaseRunning job"
    and "jobs' = jobs(job_ID job \<mapsto> \<lparr>jr_job = job', jr_agentIDs = ids, jr_cancelWatch = c\<rparr>)"
    and "job_phase job \<in> {[], PhasePending}"
  using assms
  by (auto simp: schedule_commit_def Let_def set_phase_def split: if_splits sum.splits
      dest!: Transition_Spawned_Inr)

lemma schedule_commit_Some:
  "schedule_commit job ids c jobs = (Some e, job', jobs') \<Longrightarrow>
     jobs' = jobs \<and> job' = job
     \<and> (jobs (job_ID job) \<noteq> None \<or> job_phase job \<notin> {[], PhasePending})"
  by (auto simp: schedule_commit_def Let_def split: if_splits sum.splits)

lemma cancel_commit_cases:
  assumes "cancel_commit i jobs = (c, e, jobs')"
  obtains "jobs i = None" "c = False" "e = None" "jobs' = jobs"
  | rec x where "jobs i = Some rec" "Transition (job_phase (jr_job rec)) EventCancelled = Inl x"
      "c" "e = Some x" "jobs' = jobs"
  | rec where "jobs i = Some rec" "job_phase (jr_job rec) = PhaseRunning \<or> IsTerminal (job_phase (jr_job rec))"
      "c" "e = None" "jobs' = jobs(i \<mapsto> rec\<lparr>jr_job := set_phase PhaseTerminating (jr_job rec)\<rparr>)"
  using assms
  by (auto simp: cancel_commit_def split: option.splits sum.splits dest!: Transition_Cancelled_Inr)

lemma watch_commit_cases:
  obtains "watch_commit i failed jobs = jobs"
  | rec where "jobs i = Some rec" "job_phase (jr_job rec) \<noteq> PhaseTerminating"
      "\<not> IsTerminal (job_phase (jr_job rec))"
      "watch_commit i failed jobs = jobs(i \<mapsto> rec\<lparr>jr_job :=
         set_phase (if failed > 0 then PhaseFailed else PhaseSucceeded) (jr_job rec)\<rparr>)"
proof (cases "jobs i")
  case None
  then show ?thesis by (intro that(1)) (simp add: watch_commit_def)
next
  case (Some rec)
  then show ?thesis
    by (cases "job_phase (jr_job rec) \<noteq> PhaseTerminating \<and> \<not> IsTerminal (job_phase (jr_job rec))")
       (use that in \<open>auto simp: watch_commit_def\<close>)
qed

lemma length_spawn_all:
  "spawn_all A t roles s = (Inr ids, s') \<Longrightarrow> length ids = length roles"
  by (induction A t roles s arbitrary: ids rule: spawn_all.induct)
     (auto split: prod.splits sum.splits)

lemma ListActive_filter:
  "ListActive ks t jobs =
     filter (is_active t) (map jr_job (map (the \<circ> jobs) (filter (\<lambda>k. jobs k \<noteq> None) ks)))"
  by (induction ks) (auto split: option.splits)

lemma set_ListActive:
  assumes "range_order ks jobs"
  shows "set (ListActive ks t jobs) = {j. is_active t j \<and> (\<exists>k rec. jobs k = Some rec \<and> jr_job rec = j)}"
proof -
  have "set ks = dom jobs" using assms by (simp add: range_order_def)
  then show ?thesis by (force simp: ListActive_filter)
qed

lemma length_ListActive:
  assumes "range_order ks jobs"
  shows "length (ListActive ks t jobs)
    = card {k. \<exists>rec. jobs k = Some rec \<and> is_active t (jr_job rec)}"
proof -
  let ?P = "\<lambda>k. \<exists>rec. jobs k = Some rec \<and> is_active t (jr_job rec)"
  have "length (ListActive ks t jobs) = length (filter ?P ks)"
    by (induction ks) (auto split: option.splits)
  also have "\<dots> = card (set (filter ?P ks))"
    using assms by (intro distinct_card [symmetric] distinct_filter) (simp add: range_order_def)
  also have "set (filter ?P ks) = {k. ?P k}"
    using assms by (auto simp: range_order_def)
  finally show ?thesis .
qed

end
