(* ===== verification/Watch_FanIn.thy ===== *)
theory Watch_FanIn
  imports Scheduler
begin

text \<open>
  The fan-in of \<open>watchJob\<close>: one forwarding goroutine for each agent channel, all sending to
  \<open>results\<close>. What the loop reads is some interleaving of the channels' events. With the
  adapters' promise of at most one event for each channel, the outcome of the job does not
  depend on which interleaving it is.
\<close>

section \<open>Interleavings of any number of channels\<close>

inductive merged :: "'a list list \<Rightarrow> 'a list \<Rightarrow> bool" where
  merged_done: "(\<forall>xs\<in>set xss. xs = []) \<Longrightarrow> merged xss []"
| merged_step:
    "i < length xss \<Longrightarrow> xss ! i = x # xs \<Longrightarrow> merged (xss[i := xs]) ys \<Longrightarrow> merged xss (x # ys)"

inductive_cases merged_NilE: "merged xss []"
inductive_simps merged_Cons: "merged xss (x # ys)"

lemma sum_list_mset_update:
  "i < length xss \<Longrightarrow> xss ! i = x # xs \<Longrightarrow>
     sum_list (map mset xss) = add_mset x (sum_list (map mset (xss[i := xs])))"
proof (induction xss arbitrary: i)
  case Nil
  then show ?case by simp
next
  case (Cons a xss)
  then show ?case by (cases i) auto
qed

lemma merged_mset: "merged xss ys \<Longrightarrow> mset ys = sum_list (map mset xss)"
proof (induction rule: merged.induct)
  case (merged_done xss)
  then show ?case by (induction xss) auto
next
  case (merged_step i xss x xs ys)
  then show ?case by (simp add: sum_list_mset_update)
qed

lemma merged_mset_concat: "merged xss ys \<Longrightarrow> mset ys = mset (concat xss)"
  by (simp add: merged_mset mset_concat)

lemma merged_length: "merged xss ys \<Longrightarrow> length ys = length (concat xss)"
  using merged_mset_concat mset_eq_length by blast

lemma merged_set: "merged xss ys \<Longrightarrow> set ys = set (concat xss)"
  using merged_mset_concat mset_eq_setD by blast

lemma merged_concat: "merged xss (concat xss)"
proof -
  have "merged (replicate (length pre) [] @ xss) (concat xss)" for pre :: "'a list"
  proof (induction "length (concat xss) + length xss" arbitrary: xss pre rule: less_induct)
    case less
    show ?case
    proof (cases xss)
      case Nil
      then show ?thesis by (auto intro: merged_done)
    next
      case (Cons a rest)
      show ?thesis
      proof (cases a)
        case Nil
        have "merged (replicate (length (undefined # pre)) [] @ rest) (concat rest)"
          using less [of rest "undefined # pre"] Cons Nil by simp
        then show ?thesis using Cons Nil
          by (simp add: replicate_append_same flip: replicate_append_same)
      next
        case ax: (Cons x a')
        have "merged (replicate (length pre) [] @ a' # rest) (concat (a' # rest))"
          using less [of "a' # rest" pre] Cons ax by simp
        then show ?thesis
          using Cons ax
          by (auto intro!: merged_step [where i = "length pre" and xs = a']
              simp: nth_append list_update_append)
      qed
    qed
  qed
  from this [of "[]"] show ?thesis by simp
qed

section \<open>The loop on terminal events\<close>

definition n_of :: "EventType \<Rightarrow> Event list \<Rightarrow> nat" where
  "n_of t evs = length (filter (\<lambda>e. ev_Type e = t) evs)"

lemma n_of_simps [simp]:
  "n_of t [] = 0" "n_of t (e # evs) = (if ev_Type e = t then 1 else 0) + n_of t evs"
  "n_of t (xs @ ys) = n_of t xs + n_of t ys"
  by (simp_all add: n_of_def)

lemma n_of_mset: "mset xs = mset ys \<Longrightarrow> n_of t xs = n_of t ys"
  unfolding n_of_def by (metis mset_filter size_mset)

lemma n_of_pos: "0 < n_of t evs \<longleftrightarrow> (\<exists>e\<in>set evs. ev_Type e = t)"
  by (induction evs) auto

lemma n_of_terminal:
  "\<forall>e\<in>set evs. terminal_event e \<Longrightarrow> n_of EventCompleted evs + n_of EventFailed evs = length evs"
  by (induction evs) (auto simp: terminal_event_def)

lemma watch_loop_enough:
  "\<forall>e\<in>set evs. terminal_event e \<Longrightarrow> completed + failed + length evs = tot \<Longrightarrow>
     watch_loop tot completed failed evs
       = Some (completed + n_of EventCompleted evs, failed + n_of EventFailed evs)"
  by (induction evs arbitrary: completed failed) (auto simp: terminal_event_def)

lemma watch_loop_short:
  "completed + failed + length evs < tot \<Longrightarrow> watch_loop tot completed failed evs = None"
  by (induction evs arbitrary: completed failed) auto

lemma watch_loop_Some_bound:
  "watch_loop tot c f evs = Some (c', f') \<Longrightarrow> tot \<le> c' + f'"
  by (induction evs arbitrary: c f) (auto split: if_splits)

section \<open>Channels that send at most one event\<close>

definition small_channels :: "Event list list \<Rightarrow> bool" where
  "small_channels chans \<longleftrightarrow>
     (\<forall>ch\<in>set chans. length ch \<le> 1 \<and> (\<forall>e\<in>set ch. terminal_event e))"

lemma small_channels_length:
  "small_channels chans \<Longrightarrow> length (concat chans) \<le> length chans"
  "small_channels chans \<Longrightarrow> [] \<in> set chans \<Longrightarrow> length (concat chans) < length chans"
  "small_channels chans \<Longrightarrow> [] \<notin> set chans \<Longrightarrow> length (concat chans) = length chans"
proof -
  have len: "small_channels chans \<Longrightarrow> length (concat chans) \<le> length chans" for chans
    by (induction chans) (auto simp: small_channels_def)
  then show "small_channels chans \<Longrightarrow> length (concat chans) \<le> length chans" .
  show "small_channels chans \<Longrightarrow> [] \<in> set chans \<Longrightarrow> length (concat chans) < length chans"
  proof (induction chans)
    case (Cons ch chans)
    then have "small_channels chans" and "length ch \<le> 1" by (auto simp: small_channels_def)
    with Cons len [of chans] show ?case by (cases "ch = []") auto
  qed simp
  show "small_channels chans \<Longrightarrow> [] \<notin> set chans \<Longrightarrow> length (concat chans) = length chans"
  proof (induction chans)
    case (Cons ch chans)
    then have "length ch = 1" by (cases ch) (auto simp: small_channels_def)
    with Cons show ?case by (auto simp: small_channels_def)
  qed simp
qed

lemma fan_in:
  assumes small: "small_channels chans" and m: "merged chans evs"
  shows "watch_loop (length chans) 0 0 evs =
    (if [] \<in> set chans then None
     else Some (n_of EventCompleted (concat chans), n_of EventFailed (concat chans)))"
proof -
  have te: "\<forall>e\<in>set evs. terminal_event e"
    using small merged_set [OF m] by (auto simp: small_channels_def)
  have counts: "n_of t evs = n_of t (concat chans)" for t
    by (rule n_of_mset) (rule merged_mset_concat [OF m])
  show ?thesis
  proof (cases "[] \<in> set chans")
    case True
    then have "0 + 0 + length evs < length chans"
      using small_channels_length(2) [OF small] merged_length [OF m] by simp
    then show ?thesis using True by (simp only: watch_loop_short if_True)
  next
    case False
    then have "0 + 0 + length evs = length chans"
      using small_channels_length(3) [OF small] merged_length [OF m] by simp
    then show ?thesis using False by (simp add: watch_loop_enough [OF te] counts)
  qed
qed

text \<open>The channels of goroutines that keep the adapters' promise are small.\<close>

definition channel_events :: "'p watchproc list \<Rightarrow> 'p list list \<Rightarrow> Event list list" where
  "channel_events chs pss = map2 (\<lambda>h ps. fst (h ps)) chs pss"

lemma small_channels_one_shot:
  assumes "list_all2 one_shot agents chs" and "length pss = length chs"
  shows "small_channels (channel_events chs pss) \<and> length (channel_events chs pss) = length chs"
proof -
  have "\<forall>h\<in>set chs. \<exists>a. one_shot a h"
    using assms(1) by (induction rule: list_all2_induct) auto
  then show ?thesis
    using assms(2)
    by (auto simp: small_channels_def channel_events_def one_shot_def set_zip) (metis nth_mem)+
qed

lemma watchJob_merged:
  assumes "list_all2 one_shot agents chs" and "length pss = length chs"
    and "merged (channel_events chs pss) evs"
    and "jobs i = Some rec" and "job_phase (jr_job rec) = PhaseRunning"
  shows "watchJob i (length chs) evs jobs =
      (if [] \<in> set (channel_events chs pss) then jobs
       else jobs(i \<mapsto> rec\<lparr>jr_job := set_phase
         (if \<exists>ch\<in>set (channel_events chs pss). \<exists>e\<in>set ch. ev_Type e = EventFailed
          then PhaseFailed else PhaseSucceeded) (jr_job rec)\<rparr>))"
proof -
  let ?cs = "channel_events chs pss"
  have small: "small_channels ?cs" and len: "length ?cs = length chs"
    using small_channels_one_shot [OF assms(1,2)] by auto
  moreover have "(0 < n_of EventFailed (concat ?cs))
      = (\<exists>ch\<in>set ?cs. \<exists>e\<in>set ch. ev_Type e = EventFailed)"
    by (auto simp: n_of_pos)
  ultimately show ?thesis
    using fan_in [OF small assms(3)] len assms(4,5)
    by (simp add: watchJob_def watch_commit_def)
qed

text \<open>
  C9. The outcome of a job does not depend on the order in which its agents report. For
  goroutines that keep the adapters' promise and any interleaving the fan-in delivers, a
  running job becomes Failed if some agent failed and Succeeded if all completed, and stays
  as it is when some channel was closed without an event. At most one event for each agent
  is ever sent, so the buffer of twice as many never fills.
\<close>

theorem watchJob_outcome:
  assumes "list_all2 one_shot agents chs" and "length pss = length chs"
    and "merged (channel_events chs pss) evs"
    and "jobs i = Some rec" and "job_phase (jr_job rec) = PhaseRunning"
  shows "length evs \<le> length chs
    \<and> watchJob i (length chs) evs jobs =
      (if [] \<in> set (channel_events chs pss) then jobs
       else jobs(i \<mapsto> rec\<lparr>jr_job := set_phase
         (if \<exists>ch\<in>set (channel_events chs pss). \<exists>e\<in>set ch. ev_Type e = EventFailed
          then PhaseFailed else PhaseSucceeded) (jr_job rec)\<rparr>))"
proof
  have "small_channels (channel_events chs pss)" and "length (channel_events chs pss) = length chs"
    using small_channels_one_shot [OF assms(1,2)] by auto
  then show "length evs \<le> length chs"
    using merged_length [OF assms(3)] small_channels_length(1) by fastforce
qed (rule watchJob_merged [where jobs = jobs and i = i, OF assms])

theorem watchJob_outcome_witness:
  "watchJob ''j'' 2
     [\<lparr>ev_AgentID = ''b'', ev_Type = EventFailed, ev_Message = []\<rparr>,
      \<lparr>ev_AgentID = ''a'', ev_Type = EventCompleted, ev_Message = []\<rparr>]
     [''j'' \<mapsto> \<lparr>jr_job = \<lparr>job_ID = ''j'', job_TenantID = ''t'', job_Spec = zero_Spec,
        job_Status = zero_Status\<lparr>st_Phase := PhaseRunning\<rparr>\<rparr>,
        jr_agentIDs = [''a'', ''b''], jr_cancelWatch = 0\<rparr>] ''j''
   = Some \<lparr>jr_job = \<lparr>job_ID = ''j'', job_TenantID = ''t'', job_Spec = zero_Spec,
        job_Status = zero_Status\<lparr>st_Phase := PhaseFailed\<rparr>\<rparr>,
        jr_agentIDs = [''a'', ''b''], jr_cancelWatch = 0\<rparr>"
proof -
  let ?ev = "\<lambda>a t. \<lparr>ev_AgentID = a, ev_Type = t, ev_Message = []\<rparr>"
  let ?h = "\<lambda>a t (ps :: unit list). ([?ev a t], True)"
  let ?chs = "[?h ''a'' EventCompleted, ?h ''b'' EventFailed]"
  let ?rec = "\<lparr>jr_job = \<lparr>job_ID = ''j'', job_TenantID = ''t'', job_Spec = zero_Spec,
      job_Status = zero_Status\<lparr>st_Phase := PhaseRunning\<rparr>\<rparr>,
      jr_agentIDs = [''a'', ''b''], jr_cancelWatch = 0\<rparr>"
  have one: "list_all2 one_shot [''a'', ''b''] ?chs"
    by (simp add: one_shot_def terminal_event_def)
  have ch: "channel_events ?chs [[], []] = [[?ev ''a'' EventCompleted], [?ev ''b'' EventFailed]]"
    by (simp add: channel_events_def)
  have m: "merged (channel_events ?chs [[], []]) [?ev ''b'' EventFailed, ?ev ''a'' EventCompleted]"
    unfolding ch
    by (rule merged_step [where i = 1], simp, simp, rule merged_step [where i = 0])
       (auto intro: merged_done)
  show ?thesis
    using watchJob_outcome [OF one _ m, of "[''j'' \<mapsto> ?rec]" "''j''" ?rec]
    by (simp add: ch set_phase_def numeral_2_eq_2)
qed

end
