(* ===== verification/Scheduler_Concurrent.thy ===== *)
theory Scheduler_Concurrent
  imports Watch_FanIn
begin

text \<open>
  \<open>DefaultScheduler\<close> under concurrency: any number of goroutines are inside \<open>Schedule\<close>,
  \<open>Cancel\<close> and \<open>watchJob\<close>, and each step is one critical section (the functions of
  \<open>Scheduler\<close>), one call of the platform adapter made outside the lock, one event received or
  one channel found closed. The adapter's answers are not constrained: a spawn may fail or give
  any identifier, a channel may deliver any events and close at any time, and any goroutine
  may be delayed for ever.
\<close>

section \<open>Goroutines and steps\<close>

text \<open>
  \<open>ThSpawn\<close>: \<open>Schedule\<close> in its first loop, with the roles left and the identifiers so far.
  \<open>ThOpen\<close>: the agents, the watch context, the agents still to be watched, those whose channels
  have been opened; with none left, waiting for the lock. \<open>ThTerminate\<close>: clearing up a refused
  attempt. \<open>ThCancel\<close>: the job was found, its agents are being terminated. \<open>ThWatch\<close>: in the
  receive loop of \<open>watchJob\<close>, with the agents whose channels it was given, those from which
  something may still be received, and its two counters.
\<close>

datatype thread =
    ThSpawn Job "AgentRole list" "string list"
  | ThOpen Job "string list" nat "string list" "string list"
  | ThTerminate "string list"
  | ThCancel string nat "string list"
  | ThWatch string nat "string list" "string list" nat nat

text \<open>\<open>cs_threads\<close> maps a goroutine to where it is; a goroutine that has returned is absent.\<close>

record csys =
  cs_jobs :: jobs
  cs_threads :: "nat \<rightharpoonup> thread"
  cs_next :: nat
  cs_done :: "nat set"
  cs_scheduled :: "string multiset"
  cs_rejected :: "string multiset"

definition cs_init :: csys where
  "cs_init = \<lparr>cs_jobs = Map.empty, cs_threads = Map.empty, cs_next = 0, cs_done = {},
              cs_scheduled = {#}, cs_rejected = {#}\<rparr>"

definition set_thread :: "nat \<Rightarrow> thread option \<Rightarrow> csys \<Rightarrow> csys" where
  "set_thread g x s = s\<lparr>cs_threads := (cs_threads s)(g := x)\<rparr>"

lemma set_thread_simps [simp]:
  "cs_jobs (set_thread g x s) = cs_jobs s" "cs_threads (set_thread g x s) = (cs_threads s)(g := x)"
  "cs_next (set_thread g x s) = cs_next s" "cs_done (set_thread g x s) = cs_done s"
  "cs_scheduled (set_thread g x s) = cs_scheduled s" "cs_rejected (set_thread g x s) = cs_rejected s"
  by (simp_all add: set_thread_def)

text \<open>One turn of the receive loop\<close>

definition count_event :: "Event \<Rightarrow> nat \<times> nat \<Rightarrow> nat \<times> nat" where
  "count_event ev cf =
     (if ev_Type ev = EventCompleted then (Suc (fst cf), snd cf)
      else if ev_Type ev = EventFailed then (fst cf, Suc (snd cf)) else cf)"

text \<open>
  The rules follow the text of the methods. \<open>Schedule\<close> returns on a failed spawn and leaves the
  agents it has; on a failed watch it cancels the context and leaves them too; refused under
  the lock, it cancels the context and terminates them, ignoring errors. \<open>Cancel\<close> stops at the
  first agent it cannot terminate. What \<open>watchJob\<close> receives comes from a channel that is still
  open, which may or may not be the last thing that channel sends.
\<close>

inductive cstep :: "csys \<Rightarrow> csys \<Rightarrow> bool" where
  schedule_call:
    "cs_threads s g = None \<Longrightarrow>
     cstep s (set_thread g (Some (ThSpawn job (sp_Agents (job_Spec job)) [])) s)"
| spawn_ok:
    "cs_threads s g = Some (ThSpawn job (role # roles) ids) \<Longrightarrow>
     cstep s (set_thread g (Some (ThSpawn job roles (ids @ [i]))) s)"
| spawn_failed:
    "cs_threads s g = Some (ThSpawn job (role # roles) ids) \<Longrightarrow>
     cstep s (set_thread g None s)"
| watch_context:
    "cs_threads s g = Some (ThSpawn job [] ids) \<Longrightarrow>
     cstep s ((set_thread g (Some (ThOpen job ids (cs_next s) ids [])) s)\<lparr>cs_next := Suc (cs_next s)\<rparr>)"
| watch_ok:
    "cs_threads s g = Some (ThOpen job ids c (i # todo) opened) \<Longrightarrow>
     cstep s (set_thread g (Some (ThOpen job ids c todo (opened @ [i]))) s)"
| watch_failed:
    "cs_threads s g = Some (ThOpen job ids c (i # todo) opened) \<Longrightarrow>
     cstep s ((set_thread g None s)\<lparr>cs_done := insert c (cs_done s)\<rparr>)"
| schedule_ok:
    "cs_threads s g = Some (ThOpen job ids c [] chans) \<Longrightarrow>
     schedule_commit job ids c (cs_jobs s) = (None, job', jobs') \<Longrightarrow>
     cstep s ((set_thread g (Some (ThWatch (job_ID job) c chans chans 0 0)) s)
                \<lparr>cs_jobs := jobs', cs_scheduled := add_mset (job_ID job) (cs_scheduled s)\<rparr>)"
| schedule_rejected:
    "cs_threads s g = Some (ThOpen job ids c [] chans) \<Longrightarrow>
     schedule_commit job ids c (cs_jobs s) = (Some e, job', jobs') \<Longrightarrow>
     cstep s ((set_thread g (Some (ThTerminate ids)) s)
                \<lparr>cs_jobs := jobs', cs_done := insert c (cs_done s),
                 cs_rejected := add_mset (job_ID job) (cs_rejected s)\<rparr>)"
| terminate_next:
    "cs_threads s g = Some (ThTerminate (i # ids)) \<Longrightarrow>
     cstep s (set_thread g (Some (ThTerminate ids)) s)"
| terminated:
    "cs_threads s g = Some (ThTerminate []) \<Longrightarrow> cstep s (set_thread g None s)"
| cancel_call:
    "cs_jobs s i = Some rec \<Longrightarrow> cs_threads s g = None \<Longrightarrow>
     cstep s (set_thread g (Some (ThCancel i (jr_cancelWatch rec) (jr_agentIDs rec))) s)"
| cancel_terminated:
    "cs_threads s g = Some (ThCancel i c (k # ks)) \<Longrightarrow>
     cstep s (set_thread g (Some (ThCancel i c ks)) s)"
| cancel_aborted:
    "cs_threads s g = Some (ThCancel i c (k # ks)) \<Longrightarrow> cstep s (set_thread g None s)"
| cancel_section:
    "cs_threads s g = Some (ThCancel i c []) \<Longrightarrow>
     cancel_commit i (cs_jobs s) = (cancel, e, jobs') \<Longrightarrow>
     cstep s ((set_thread g None s)
                \<lparr>cs_jobs := jobs', cs_done := (if cancel then insert c (cs_done s) else cs_done s)\<rparr>)"
| watch_event:
    "cs_threads s g = Some (ThWatch i x chans live c f) \<Longrightarrow> c + f < length chans \<Longrightarrow>
     k \<in> set live \<Longrightarrow> count_event ev (c, f) = (c', f') \<Longrightarrow>
     live' = live \<or> live' = remove1 k live \<Longrightarrow>
     cstep s (set_thread g (Some (ThWatch i x chans live' c' f')) s)"
| channel_closed:
    "cs_threads s g = Some (ThWatch i x chans live c f) \<Longrightarrow> c + f < length chans \<Longrightarrow>
     k \<in> set live \<Longrightarrow>
     cstep s (set_thread g (Some (ThWatch i x chans (remove1 k live) c f)) s)"
| watch_closed:
    "cs_threads s g = Some (ThWatch i x chans [] c f) \<Longrightarrow> c + f < length chans \<Longrightarrow>
     cstep s (set_thread g None s)"
| watch_section:
    "cs_threads s g = Some (ThWatch i x chans live c f) \<Longrightarrow> length chans \<le> c + f \<Longrightarrow>
     cstep s ((set_thread g None s)\<lparr>cs_jobs := watch_commit i f (cs_jobs s)\<rparr>)"

inductive creach :: "csys \<Rightarrow> bool" where
  creach_init: "creach cs_init"
| creach_step: "creach s \<Longrightarrow> cstep s t \<Longrightarrow> creach t"

section \<open>Invariants\<close>

definition live_phase :: "Phase \<Rightarrow> bool" where
  "live_phase p \<longleftrightarrow> p = PhaseRunning \<or> IsTerminal p \<or> p = PhaseTerminating"

text \<open>Records are filed under their job's identifier, in a phase the scheduler writes.\<close>

definition inv_jobs :: "jobs \<Rightarrow> bool" where
  "inv_jobs jobs \<longleftrightarrow>
     (\<forall>i rec. jobs i = Some rec \<longrightarrow> job_ID (jr_job rec) = i \<and> live_phase (job_phase (jr_job rec)))"

text \<open>One successful \<open>Schedule\<close> for each record\<close>

definition inv_sched :: "csys \<Rightarrow> bool" where
  "inv_sched s \<longleftrightarrow>
     (\<forall>i. count (cs_scheduled s) i = (if cs_jobs s i = None then 0 else 1))"

text \<open>Contexts: each belongs to one call or to one record.\<close>

fun sched_ctx :: "thread \<Rightarrow> nat option" where
  "sched_ctx (ThOpen job ids c todo opened) = Some c"
| "sched_ctx _ = None"

definition ctx_of :: "jobs \<Rightarrow> string \<Rightarrow> nat option" where
  "ctx_of jobs k = map_option jr_cancelWatch (jobs k)"

definition thread_ctx :: "csys \<Rightarrow> nat \<Rightarrow> nat option" where
  "thread_ctx s g = Option.bind (cs_threads s g) sched_ctx"

definition inv_owner :: "csys \<Rightarrow> bool" where
  "inv_owner s \<longleftrightarrow>
     (\<forall>i c. ctx_of (cs_jobs s) i = Some c \<longrightarrow> c < cs_next s)
     \<and> (\<forall>i j c. ctx_of (cs_jobs s) i = Some c \<longrightarrow> ctx_of (cs_jobs s) j = Some c \<longrightarrow> i = j)
     \<and> (\<forall>g c. thread_ctx s g = Some c \<longrightarrow>
          c < cs_next s \<and> c \<notin> cs_done s \<and> (\<forall>i. ctx_of (cs_jobs s) i \<noteq> Some c))
     \<and> (\<forall>g h c. thread_ctx s g = Some c \<longrightarrow> thread_ctx s h = Some c \<longrightarrow> g = h)
     \<and> (\<forall>c\<in>cs_done s. c < cs_next s)"

definition inv_cancel :: "csys \<Rightarrow> bool" where
  "inv_cancel s \<longleftrightarrow>
     (\<forall>g i c ks. cs_threads s g = Some (ThCancel i c ks) \<longrightarrow> ctx_of (cs_jobs s) i = Some c)"

text \<open>At most one goroutine watches a job, and only a scheduled one.\<close>

definition watches :: "csys \<Rightarrow> nat \<Rightarrow> string \<Rightarrow> bool" where
  "watches s g i \<longleftrightarrow> (\<exists>x chans live c f. cs_threads s g = Some (ThWatch i x chans live c f))"

definition inv_watch :: "csys \<Rightarrow> bool" where
  "inv_watch s \<longleftrightarrow>
     (\<forall>g i. watches s g i \<longrightarrow> cs_jobs s i \<noteq> None)
     \<and> (\<forall>g h i. watches s g i \<longrightarrow> watches s h i \<longrightarrow> g = h)"

text \<open>A job is being torn down exactly when its watchers have been told to stop.\<close>

definition inv_done :: "csys \<Rightarrow> bool" where
  "inv_done s \<longleftrightarrow>
     (\<forall>i rec. cs_jobs s i = Some rec \<longrightarrow>
        (jr_cancelWatch rec \<in> cs_done s \<longleftrightarrow> job_phase (jr_job rec) = PhaseTerminating))"

lemma live_phase_simps [simp]:
  "live_phase PhaseRunning" "live_phase PhaseSucceeded" "live_phase PhaseFailed"
  "live_phase PhaseTerminating"
  by (simp_all add: live_phase_def)

lemma live_cancel:
  assumes "live_phase p" and "Transition p EventCancelled = Inl x"
  shows "p = PhaseTerminating"
  using assms Transition_Cancelled_total [of p] by (auto simp: live_phase_def)

subsection \<open>Each critical section keeps the records well formed\<close>

lemma inv_jobs_schedule:
  "inv_jobs jobs \<Longrightarrow> schedule_commit job ids c jobs = (e, job', jobs') \<Longrightarrow> inv_jobs jobs'"
proof (cases e)
  case None
  assume "inv_jobs jobs" and eq: "schedule_commit job ids c jobs = (e, job', jobs')"
  with None schedule_commit_None [of job ids c jobs job' jobs'] show ?thesis
    by (auto simp: inv_jobs_def)
next
  case (Some x)
  assume "inv_jobs jobs" and "schedule_commit job ids c jobs = (e, job', jobs')"
  with Some show ?thesis by (auto dest: schedule_commit_Some)
qed

lemma inv_jobs_cancel:
  assumes "inv_jobs jobs" and "cancel_commit i jobs = (c, e, jobs')"
  shows "inv_jobs jobs'"
  using assms(2) by (rule cancel_commit_cases) (use assms(1) in \<open>auto simp: inv_jobs_def\<close>)

lemma inv_jobs_watch: "inv_jobs jobs \<Longrightarrow> inv_jobs (watch_commit i f jobs)"
  by (rule watch_commit_cases [of i f jobs]) (auto simp: inv_jobs_def)

lemma cstep_inv_jobs: "cstep s t \<Longrightarrow> inv_jobs (cs_jobs s) \<Longrightarrow> inv_jobs (cs_jobs t)"
  by (induction rule: cstep.induct)
     (auto intro: inv_jobs_schedule inv_jobs_cancel inv_jobs_watch)

subsection \<open>Records are never lost, and what identifies them never changes\<close>

definition same_record :: "jobRecord \<Rightarrow> jobRecord \<Rightarrow> bool" where
  "same_record r r' \<longleftrightarrow>
     jr_agentIDs r' = jr_agentIDs r \<and> jr_cancelWatch r' = jr_cancelWatch r
     \<and> job_ID (jr_job r') = job_ID (jr_job r) \<and> job_TenantID (jr_job r') = job_TenantID (jr_job r)
     \<and> job_Spec (jr_job r') = job_Spec (jr_job r)"

lemma same_record_refl [simp]: "same_record r r"
  by (simp add: same_record_def)

lemma same_record_set_phase [simp]:
  "same_record r (r\<lparr>jr_job := set_phase p (jr_job r)\<rparr>)"
  by (simp add: same_record_def)

definition evolves :: "jobs \<Rightarrow> jobs \<Rightarrow> bool" where
  "evolves jobs jobs' \<longleftrightarrow>
     (\<forall>i r. jobs i = Some r \<longrightarrow>
        (\<exists>r'. jobs' i = Some r' \<and> same_record r r'
           \<and> phase_move (job_phase (jr_job r)) (job_phase (jr_job r'))))"

lemma evolves_refl [simp]: "evolves jobs jobs"
  by (auto simp: evolves_def)

lemma evolves_upd:
  "jobs i = Some r \<Longrightarrow> phase_move (job_phase (jr_job r)) p \<Longrightarrow>
     evolves jobs (jobs(i \<mapsto> r\<lparr>jr_job := set_phase p (jr_job r)\<rparr>))"
  by (auto simp: evolves_def)

lemma evolves_new: "jobs i = None \<Longrightarrow> evolves jobs (jobs(i \<mapsto> r))"
  by (auto simp: evolves_def)

lemma evolves_schedule: "schedule_commit job ids c jobs = (e, job', jobs') \<Longrightarrow> evolves jobs jobs'"
  by (cases e) (auto dest: schedule_commit_Some schedule_commit_None intro: evolves_new)

lemma move_cancel: "p = PhaseRunning \<or> IsTerminal p \<Longrightarrow> phase_move p PhaseTerminating"
  by (intro phase_step_move [of _ EventCancelled] phase_stepI Transition_Cancelled_total)

lemma evolves_cancel:
  assumes "cancel_commit i jobs = (c, e, jobs')"
  shows "evolves jobs jobs'"
  using assms by (rule cancel_commit_cases) (auto intro: evolves_upd move_cancel)

lemma move_watch: "phase_move PhaseRunning (if f > (0::nat) then PhaseFailed else PhaseSucceeded)"
proof -
  have "phase_move PhaseRunning PhaseFailed"
    by (rule phase_step_move [of _ EventAgentFailed]) (simp add: phase_stepI)
  moreover have "phase_move PhaseRunning PhaseSucceeded"
    by (rule phase_step_move [of _ EventAllComplete]) (simp add: phase_stepI)
  ultimately show ?thesis by simp
qed

lemma evolves_watch:
  assumes "inv_jobs jobs"
  shows "evolves jobs (watch_commit i f jobs)"
proof (rule watch_commit_cases [of i f jobs])
  fix rec
  assume r: "jobs i = Some rec" "job_phase (jr_job rec) \<noteq> PhaseTerminating"
    "\<not> IsTerminal (job_phase (jr_job rec))"
    and eq: "watch_commit i f jobs = jobs(i \<mapsto> rec\<lparr>jr_job :=
         set_phase (if f > 0 then PhaseFailed else PhaseSucceeded) (jr_job rec)\<rparr>)"
  then have "job_phase (jr_job rec) = PhaseRunning"
    using assms by (auto simp: inv_jobs_def live_phase_def)
  then have "phase_move (job_phase (jr_job rec)) (if f > 0 then PhaseFailed else PhaseSucceeded)"
    using move_watch by simp
  then show ?thesis unfolding eq using r(1) by (intro evolves_upd)
qed simp

lemma cstep_evolves: "cstep s t \<Longrightarrow> inv_jobs (cs_jobs s) \<Longrightarrow> evolves (cs_jobs s) (cs_jobs t)"
  by (induction rule: cstep.induct)
     (auto intro: evolves_schedule evolves_cancel evolves_watch)

subsection \<open>One successful Schedule for each identifier\<close>

lemma dom_cancel: "cancel_commit i jobs = (c, e, jobs') \<Longrightarrow> dom jobs' = dom jobs"
  by (erule cancel_commit_cases) auto

lemma dom_watch: "dom (watch_commit i f jobs) = dom jobs"
  by (rule watch_commit_cases [of i f jobs]) auto

lemma inv_sched_dom:
  "dom (cs_jobs t) = dom (cs_jobs s) \<Longrightarrow> cs_scheduled t = cs_scheduled s \<Longrightarrow>
     inv_sched s \<Longrightarrow> inv_sched t"
  unfolding inv_sched_def by (simp add: set_eq_iff domIff)

lemma cstep_inv_sched: "cstep s t \<Longrightarrow> inv_sched s \<Longrightarrow> inv_sched t"
proof (induction rule: cstep.induct)
  case (schedule_ok s g job ids c chans job' jobs')
  then show ?case
    using schedule_commit_None [OF schedule_ok.hyps(2)] by (auto simp: inv_sched_def)
next
  case (schedule_rejected s g job ids c chans e job' jobs')
  then show ?case
    using schedule_commit_Some [OF schedule_rejected.hyps(2)] by (auto simp: inv_sched_def)
next
  case (cancel_section s g i c cancel e jobs')
  then show ?case
    using inv_sched_dom [OF _ _ cancel_section.prems] dom_cancel [OF cancel_section.hyps(2)] by simp
next
  case (watch_section s g i x chans live c f)
  then show ?case using inv_sched_dom [OF _ _ watch_section.prems] by (simp add: dom_watch)
qed (auto simp: inv_sched_def)

subsection \<open>Contexts\<close>

lemma ctx_cancel: "cancel_commit i jobs = (c, e, jobs') \<Longrightarrow> ctx_of jobs' = ctx_of jobs"
  by (erule cancel_commit_cases) (auto simp: ctx_of_def)

lemma ctx_watch: "ctx_of (watch_commit i f jobs) = ctx_of jobs"
  by (rule watch_commit_cases [of i f jobs]) (auto simp: ctx_of_def)

lemma thread_ctx_upd [simp]:
  "cs_threads t = (cs_threads s)(g := x) \<Longrightarrow>
     thread_ctx t h = (if h = g then Option.bind x sched_ctx else thread_ctx s h)"
  by (simp add: thread_ctx_def)

lemma ctx_schedule:
  "schedule_commit job ids c jobs = (None, job', jobs') \<Longrightarrow>
     ctx_of jobs' = (ctx_of jobs)(job_ID job := Some c) \<and> ctx_of jobs (job_ID job) = None"
  using schedule_commit_None [of job ids c jobs job' jobs'] by (auto simp: ctx_of_def)

text \<open>Steps that leave the contexts of records alone and end or change one goroutine\<close>

lemma inv_owner_frame:
  assumes "inv_owner s" and "ctx_of (cs_jobs t) = ctx_of (cs_jobs s)"
    and "\<And>h c. thread_ctx t h = Some c \<Longrightarrow> thread_ctx s h = Some c \<and> c \<notin> cs_done t"
    and "cs_next t = cs_next s" and "\<And>c. c \<in> cs_done t \<Longrightarrow> c < cs_next s"
  shows "inv_owner t"
  using assms(1) unfolding inv_owner_def assms(2,4)
  by (intro conjI allI impI ballI) (blast dest: assms(3,5))+

text \<open>A call takes a context nobody has; a commit passes it to the record; a failure gives it up.\<close>

lemma inv_owner_call:
  assumes "inv_owner s"
  shows "inv_owner ((set_thread g (Some (ThOpen job ids (cs_next s) todo opened)) s)\<lparr>cs_next := Suc (cs_next s)\<rparr>)"
    (is "inv_owner ?t")
proof -
  have th: "thread_ctx ?t h = (if h = g then Some (cs_next s) else thread_ctx s h)" for h
    by (simp add: thread_ctx_def)
  have old: "d < cs_next s \<Longrightarrow> d < Suc (cs_next s) \<and> d \<noteq> cs_next s" for d by simp
  have "thread_ctx s h \<noteq> Some (cs_next s)" "ctx_of (cs_jobs s) i \<noteq> Some (cs_next s)" "cs_next s \<notin> cs_done s" for h i
    using assms old [of "cs_next s"] unfolding inv_owner_def by blast+
  then show ?thesis using assms old unfolding inv_owner_def th by (auto simp: less_Suc_eq)
qed

lemma inv_owner_commit:
  assumes "inv_owner s" and "thread_ctx s g = Some c"
    and "schedule_commit job ids c (cs_jobs s) = (None, job', jobs')"
  shows "inv_owner ((set_thread g (Some (ThWatch i x chans live a b)) s)\<lparr>cs_jobs := jobs', cs_scheduled := m\<rparr>)"
    (is "inv_owner ?t")
proof -
  have th: "thread_ctx ?t h = (if h = g then None else thread_ctx s h)" for h
    by (simp add: thread_ctx_def)
  show ?thesis
    using assms(1,2) ctx_schedule [OF assms(3)]
    unfolding inv_owner_def th by (auto split: if_splits) (metis option.inject)?
qed

lemma inv_owner_give_up:
  assumes "inv_owner s" and c: "thread_ctx s g = Some c" and x: "Option.bind x sched_ctx = None"
    and t: "cs_jobs t = cs_jobs s" "cs_threads t = (cs_threads s)(g := x)"
      "cs_done t = insert c (cs_done s)" "cs_next t = cs_next s"
  shows "inv_owner t"
proof (rule inv_owner_frame [OF assms(1)])
  fix h d
  assume "thread_ctx t h = Some d"
  then have "h \<noteq> g" and d: "thread_ctx s h = Some d" using x by (auto simp: thread_ctx_def t split: if_splits)
  with c assms(1) have "d \<noteq> c" and "d \<notin> cs_done s" unfolding inv_owner_def by metis+
  with d show "thread_ctx s h = Some d \<and> d \<notin> cs_done t" by (simp add: t)
qed (use assms in \<open>auto simp: inv_owner_def\<close>)

lemma inv_owner_thread:
  assumes "inv_owner s" and "Option.bind x sched_ctx = None \<or> Option.bind x sched_ctx = thread_ctx s g"
  shows "inv_owner (set_thread g x s)"
  by (rule inv_owner_frame [OF assms(1)])
     (use assms in \<open>auto simp: inv_owner_def thread_ctx_def split: if_splits\<close>)

lemma cstep_inv_owner: "cstep s t \<Longrightarrow> inv_cancel s \<Longrightarrow> inv_owner s \<Longrightarrow> inv_owner t"
proof (induction rule: cstep.induct)
  case (watch_context s g job ids)
  then show ?case by (intro inv_owner_call)
next
  case (schedule_ok s g job ids c chans job' jobs')
  then show ?case by (intro inv_owner_commit) (auto simp: thread_ctx_def)
next
  case (schedule_rejected s g job ids c chans e job' jobs')
  then show ?case using schedule_commit_Some [OF schedule_rejected.hyps(2)]
    by (intro inv_owner_give_up [OF schedule_rejected.prems(2), where x = "Some (ThTerminate ids)"])
       (simp_all add: thread_ctx_def)
next
  case (watch_failed s g job ids c i todo opened)
  then show ?case
    by (intro inv_owner_give_up [OF watch_failed.prems(2), where x = None]) (simp_all add: thread_ctx_def)
next
  case (cancel_section s g i c cancel e jobs')
  then have own: "ctx_of (cs_jobs s) i = Some c" by (auto simp: inv_cancel_def)
  from cancel_section own show ?case
    by (intro inv_owner_frame [OF cancel_section.prems(2)])
       (auto simp: ctx_cancel inv_owner_def thread_ctx_def split: if_splits)
next
  case (watch_section s g i x chans live c f)
  then show ?case by (intro inv_owner_frame [OF watch_section.prems(2)])
    (auto simp: ctx_watch inv_owner_def thread_ctx_def split: if_splits)
qed (auto intro!: inv_owner_thread simp: thread_ctx_def)

lemma ctx_evolves:
  "evolves jobs jobs' \<Longrightarrow> ctx_of jobs i = Some c \<Longrightarrow> ctx_of jobs' i = Some c"
  unfolding evolves_def same_record_def ctx_of_def by fastforce

lemma inv_cancel_frame:
  assumes "inv_cancel s" and "evolves (cs_jobs s) (cs_jobs t)"
    and "\<And>g i c ks. cs_threads t g = Some (ThCancel i c ks) \<Longrightarrow>
      (\<exists>ks. cs_threads s g = Some (ThCancel i c ks)) \<or> ctx_of (cs_jobs s) i = Some c"
  shows "inv_cancel t"
  using assms(1) unfolding inv_cancel_def by (blast dest: assms(3) ctx_evolves [OF assms(2)])

lemma cstep_inv_cancel:
  assumes "cstep s t" and "inv_jobs (cs_jobs s)" and "inv_cancel s"
  shows "inv_cancel t"
  by (rule inv_cancel_frame [OF assms(3) cstep_evolves [OF assms(1,2)]])
     (use assms(1) in \<open>cases rule: cstep.cases; auto simp: ctx_of_def split: if_splits\<close>)

lemma inv_watch_frame:
  assumes "inv_watch s" and "evolves (cs_jobs s) (cs_jobs t)"
    and "\<And>g i. watches t g i \<Longrightarrow> watches s g i"
  shows "inv_watch t"
proof -
  have "cs_jobs t i \<noteq> None" if "cs_jobs s i \<noteq> None" for i
    using assms(2) that unfolding evolves_def by fastforce
  then show ?thesis
    using assms(1) unfolding inv_watch_def by (blast dest: assms(3))
qed

lemma cstep_inv_watch:
  assumes step: "cstep s t" and inv: "inv_jobs (cs_jobs s)" and w: "inv_watch s"
  shows "inv_watch t"
  using step
proof (cases rule: cstep.cases)
  case (schedule_ok g job ids c chans job' jobs')
  have new: "watches t h i \<longleftrightarrow> (if h = g then i = job_ID job else watches s h i)" for h i
    by (auto simp: schedule_ok watches_def)
  have "\<not> watches s h (job_ID job)" for h
    using schedule_commit_None(1) [OF schedule_ok(3)] w [unfolded inv_watch_def] by blast
  then show ?thesis
    using w schedule_commit_None(3) [OF schedule_ok(3)] unfolding inv_watch_def new
    by (auto simp: schedule_ok(1))
qed (rule inv_watch_frame [OF w cstep_evolves [OF step inv]];
     auto simp: watches_def split: if_splits)+

subsection \<open>Torn down exactly when the watchers have been stopped\<close>

definition ctx_phase :: "jobs \<Rightarrow> string \<Rightarrow> (nat \<times> bool) option" where
  "ctx_phase jobs i =
     map_option (\<lambda>r. (jr_cancelWatch r, job_phase (jr_job r) = PhaseTerminating)) (jobs i)"

lemma inv_done_alt:
  "inv_done s \<longleftrightarrow> (\<forall>i c b. ctx_phase (cs_jobs s) i = Some (c, b) \<longrightarrow> (c \<in> cs_done s) = b)"
  unfolding inv_done_def ctx_phase_def by auto

lemma ctx_phase_ctx: "ctx_phase jobs i = Some (c, b) \<Longrightarrow> ctx_of jobs i = Some c"
  by (auto simp: ctx_phase_def ctx_of_def)

lemma ctx_phase_schedule:
  "schedule_commit job ids c jobs = (None, job', jobs') \<Longrightarrow>
     ctx_phase jobs' = (ctx_phase jobs)(job_ID job := Some (c, False))"
  using schedule_commit_None [of job ids c jobs job' jobs'] by (auto simp: ctx_phase_def)

lemma ctx_phase_watch: "ctx_phase (watch_commit i f jobs) = ctx_phase jobs"
  by (rule watch_commit_cases [of i f jobs]) (auto simp: ctx_phase_def)

lemma ctx_phase_cancel:
  assumes "cancel_commit i jobs = (cancel, e, jobs')" and "inv_jobs jobs" and "ctx_of jobs i = Some c"
  shows "cancel \<and> ctx_phase jobs' = (ctx_phase jobs)(i := Some (c, True))"
  using assms(1)
proof (rule cancel_commit_cases)
  assume "jobs i = None"
  then show ?thesis using assms(3) by (simp add: ctx_of_def)
next
  fix rec x
  assume "jobs i = Some rec" and "Transition (job_phase (jr_job rec)) EventCancelled = Inl x"
    and "cancel" and "jobs' = jobs"
  moreover have "live_phase (job_phase (jr_job rec))"
    using assms(2) \<open>jobs i = Some rec\<close> by (auto simp: inv_jobs_def)
  ultimately show ?thesis using live_cancel assms(3) by (auto simp: ctx_phase_def ctx_of_def)
next
  fix rec
  assume "jobs i = Some rec" and "cancel"
    and "jobs' = jobs(i \<mapsto> rec\<lparr>jr_job := set_phase PhaseTerminating (jr_job rec)\<rparr>)"
  then show ?thesis using assms(3) by (auto simp: ctx_phase_def ctx_of_def)
qed

lemma cstep_inv_done:
  "cstep s t \<Longrightarrow> inv_jobs (cs_jobs s) \<Longrightarrow> inv_owner s \<Longrightarrow> inv_cancel s \<Longrightarrow> inv_done s \<Longrightarrow> inv_done t"
proof (induction rule: cstep.induct)
  case (schedule_ok s g job ids c chans job' jobs')
  then have "thread_ctx s g = Some c" by (simp add: thread_ctx_def)
  then have "c \<notin> cs_done s" using schedule_ok.prems(2) unfolding inv_owner_def by blast
  then show ?case
    using schedule_ok.prems(4)
    by (auto simp: inv_done_alt ctx_phase_schedule [OF schedule_ok.hyps(2)])
next
  case (schedule_rejected s g job ids c chans e job' jobs')
  then have "thread_ctx s g = Some c" by (simp add: thread_ctx_def)
  then have "\<forall>i. ctx_of (cs_jobs s) i \<noteq> Some c"
    using schedule_rejected.prems(2) unfolding inv_owner_def by blast
  then show ?case
    using schedule_rejected.prems(4) schedule_commit_Some [OF schedule_rejected.hyps(2)]
    by (auto simp: inv_done_alt dest: ctx_phase_ctx)
next
  case (watch_failed s g job ids c i todo opened)
  then have "thread_ctx s g = Some c" by (simp add: thread_ctx_def)
  then have "\<forall>i. ctx_of (cs_jobs s) i \<noteq> Some c"
    using watch_failed.prems(2) unfolding inv_owner_def by blast
  then show ?case
    using watch_failed.prems(4) by (auto simp: inv_done_alt dest: ctx_phase_ctx)
next
  case (cancel_section s g i c cancel e jobs')
  then have own: "ctx_of (cs_jobs s) i = Some c" unfolding inv_cancel_def by blast
  have "cancel" and ph: "ctx_phase jobs' = (ctx_phase (cs_jobs s))(i := Some (c, True))"
    using ctx_phase_cancel [OF cancel_section.hyps(2) cancel_section.prems(1) own] by auto
  moreover have "\<forall>j d b. ctx_phase (cs_jobs s) j = Some (d, b) \<longrightarrow> j \<noteq> i \<longrightarrow> d \<noteq> c"
    using cancel_section.prems(2) own unfolding inv_owner_def by (metis ctx_phase_ctx)
  ultimately show ?case
    using cancel_section.prems(4) unfolding inv_done_alt by auto
next
  case (watch_section s g i x chans live c f)
  then show ?case by (simp add: inv_done_alt ctx_phase_watch)
qed (simp_all add: inv_done_def)

section \<open>Every reachable state\<close>

definition cinv :: "csys \<Rightarrow> bool" where
  "cinv s \<longleftrightarrow> inv_jobs (cs_jobs s) \<and> inv_sched s \<and> inv_owner s \<and> inv_cancel s
     \<and> inv_watch s \<and> inv_done s"

lemma cinv_init: "cinv cs_init"
  by (simp add: cinv_def cs_init_def inv_jobs_def inv_sched_def inv_owner_def inv_cancel_def
      inv_watch_def inv_done_def ctx_of_def thread_ctx_def watches_def)

lemma cstep_cinv: "cinv s \<Longrightarrow> cstep s t \<Longrightarrow> cinv t"
  unfolding cinv_def
  by (blast intro: cstep_inv_jobs cstep_inv_sched cstep_inv_owner cstep_inv_cancel
      cstep_inv_watch cstep_inv_done)

lemma creach_cinv: "creach s \<Longrightarrow> cinv s"
  by (induction rule: creach.induct) (auto intro: cinv_init cstep_cinv)

lemma creach_steps: "cstep\<^sup>*\<^sup>* s t \<Longrightarrow> creach s \<Longrightarrow> creach t"
  by (induction rule: rtranclp_induct) (auto intro: creach_step)

lemma steps_record:
  "cstep\<^sup>*\<^sup>* s t \<Longrightarrow> creach s \<Longrightarrow> cs_jobs s i = Some r \<Longrightarrow>
     \<exists>r'. cs_jobs t i = Some r' \<and> same_record r r'
       \<and> phase_rank (job_phase (jr_job r)) \<le> phase_rank (job_phase (jr_job r'))"
proof (induction rule: rtranclp_induct)
  case base
  then show ?case by simp
next
  case (step t u)
  then obtain r1 where r1: "cs_jobs t i = Some r1" "same_record r r1"
    "phase_rank (job_phase (jr_job r)) \<le> phase_rank (job_phase (jr_job r1))" by blast
  have "creach t" using step creach_steps by blast
  then have "evolves (cs_jobs t) (cs_jobs u)"
    using step.hyps(2) creach_cinv cstep_evolves by (auto simp: cinv_def)
  then obtain r2 where r2: "cs_jobs u i = Some r2" "same_record r1 r2"
    "phase_move (job_phase (jr_job r1)) (job_phase (jr_job r2))"
    using r1(1) unfolding evolves_def by blast
  have "phase_rank (job_phase (jr_job r1)) \<le> phase_rank (job_phase (jr_job r2))"
    using r2(3) by (auto simp: phase_move_def dest: phase_step_rank)
  with r1 r2 show ?case by (auto simp: same_record_def)
qed

section \<open>A call of Schedule up to the lock\<close>

text \<open>When every spawn and every watch succeeds\<close>

lemma spawn_steps:
  "cs_threads s g = Some (ThSpawn job roles ids) \<Longrightarrow> length new = length roles \<Longrightarrow>
     cstep\<^sup>*\<^sup>* s (set_thread g (Some (ThSpawn job [] (ids @ new))) s)"
proof (induction roles arbitrary: s ids new)
  case Nil
  then have "set_thread g (Some (ThSpawn job [] (ids @ new))) s = s" by (simp add: set_thread_def fun_upd_idem)
  then show ?case by simp
next
  case (Cons role roles)
  then obtain i rest where new: "new = i # rest" "length rest = length roles" by (cases new) auto
  let ?s1 = "set_thread g (Some (ThSpawn job roles (ids @ [i]))) s"
  have "cstep s ?s1" using Cons.prems(1) by (rule spawn_ok)
  moreover have "cstep\<^sup>*\<^sup>* ?s1 (set_thread g (Some (ThSpawn job [] ((ids @ [i]) @ rest))) ?s1)"
    by (rule Cons.IH) (simp_all add: new)
  ultimately show ?case by (simp add: new set_thread_def converse_rtranclp_into_rtranclp)
qed

lemma watch_steps:
  "cs_threads s g = Some (ThOpen job ids c todo opened) \<Longrightarrow>
     cstep\<^sup>*\<^sup>* s (set_thread g (Some (ThOpen job ids c [] (opened @ todo))) s)"
proof (induction todo arbitrary: s opened)
  case Nil
  then have "set_thread g (Some (ThOpen job ids c [] (opened @ []))) s = s" by (simp add: set_thread_def fun_upd_idem)
  then show ?case by simp
next
  case (Cons i todo)
  let ?s1 = "set_thread g (Some (ThOpen job ids c todo (opened @ [i]))) s"
  have "cstep s ?s1" using Cons.prems by (rule watch_ok)
  moreover have "cstep\<^sup>*\<^sup>* ?s1 (set_thread g (Some (ThOpen job ids c [] ((opened @ [i]) @ todo))) ?s1)"
    by (rule Cons.IH) simp
  ultimately show ?case by (simp add: set_thread_def converse_rtranclp_into_rtranclp)
qed

lemma schedule_to_lock:
  assumes "cs_threads s g = None" and "length ids = length (sp_Agents (job_Spec job))"
  shows "cstep\<^sup>*\<^sup>* s ((set_thread g (Some (ThOpen job ids (cs_next s) [] ids)) s)\<lparr>cs_next := Suc (cs_next s)\<rparr>)"
proof -
  let ?s1 = "set_thread g (Some (ThSpawn job (sp_Agents (job_Spec job)) [])) s"
  let ?s2 = "set_thread g (Some (ThSpawn job [] ids)) ?s1"
  let ?s3 = "(set_thread g (Some (ThOpen job ids (cs_next s) ids [])) ?s2)\<lparr>cs_next := Suc (cs_next s)\<rparr>"
  have "cstep s ?s1" using assms(1) by (rule schedule_call)
  moreover have "cstep\<^sup>*\<^sup>* ?s1 ?s2" using spawn_steps [of ?s1 g job _ "[]" ids] assms(2) by simp
  moreover have "cstep ?s2 ?s3" using watch_context [of ?s2 g job ids] by simp
  moreover have "cstep\<^sup>*\<^sup>* ?s3 (set_thread g (Some (ThOpen job ids (cs_next s) [] ids)) ?s3)"
    using watch_steps [of ?s3 g job ids "cs_next s" ids "[]"] by simp
  ultimately have "cstep\<^sup>*\<^sup>* s (set_thread g (Some (ThOpen job ids (cs_next s) [] ids)) ?s3)"
    by (meson converse_rtranclp_into_rtranclp rtranclp_trans)
  then show ?thesis by (cases s) (simp add: set_thread_def)
qed

section \<open>Properties\<close>

text \<open>
  C1. Whatever the interleaving of concurrent calls, at most one \<open>Schedule\<close> succeeds for a job
  identifier; it has succeeded exactly when the job is recorded, and every other attempt with
  the identifier is refused. At most one goroutine watches a job.
\<close>

theorem schedule_at_most_once:
  assumes "creach s"
  shows "count (cs_scheduled s) i = (if cs_jobs s i = None then 0 else 1)
    \<and> (\<forall>g h. watches s g i \<and> watches s h i \<longrightarrow> g = h)"
  using creach_cinv [OF assms] unfolding cinv_def inv_sched_def inv_watch_def by blast

text \<open>A run in which two calls, each with its two agents, race for one identifier\<close>

definition race_role :: AgentRole where
  "race_role = \<lparr>ar_Role = ''worker'', ar_Image = ''img'', ar_Command = [], ar_MaxReplicas = 2\<rparr>"

definition race_job :: Job where
  "race_job = \<lparr>job_ID = ''job-race'', job_TenantID = ''acme'',
     job_Spec = zero_Spec\<lparr>sp_Agents := [race_role, race_role]\<rparr>, job_Status = zero_Status\<rparr>"

definition race_rec :: "Phase \<Rightarrow> jobRecord" where
  "race_rec p = \<lparr>jr_job = set_phase p race_job, jr_agentIDs = [''a-1'', ''a-2''], jr_cancelWatch = 0\<rparr>"

definition race_waiting :: csys where
  "race_waiting = cs_init\<lparr>cs_threads := [0 \<mapsto> ThOpen race_job [''a-1'', ''a-2''] 0 [] [''a-1'', ''a-2''],
       1 \<mapsto> ThOpen race_job [''b-1'', ''b-2''] 1 [] [''b-1'', ''b-2'']], cs_next := 2\<rparr>"

definition race_won :: csys where
  "race_won = race_waiting\<lparr>cs_jobs := [''job-race'' \<mapsto> race_rec PhaseRunning],
     cs_threads := (cs_threads race_waiting)(0 \<mapsto> ThWatch ''job-race'' 0 [''a-1'', ''a-2''] [''a-1'', ''a-2''] 0 0),
     cs_scheduled := {#''job-race''#}\<rparr>"

lemma race_waiting_reach: "creach race_waiting"
proof -
  let ?s1 = "(set_thread 0 (Some (ThOpen race_job [''a-1'', ''a-2''] (cs_next cs_init) [] [''a-1'', ''a-2''])) cs_init)
      \<lparr>cs_next := Suc (cs_next cs_init)\<rparr>"
  have "cstep\<^sup>*\<^sup>* cs_init ?s1"
    by (rule schedule_to_lock) (simp_all add: cs_init_def race_job_def)
  moreover have "cstep\<^sup>*\<^sup>* ?s1 ((set_thread 1 (Some (ThOpen race_job [''b-1'', ''b-2''] (cs_next ?s1) [] [''b-1'', ''b-2''])) ?s1)
      \<lparr>cs_next := Suc (cs_next ?s1)\<rparr>)"
    by (rule schedule_to_lock) (simp_all add: cs_init_def race_job_def)
  ultimately have "cstep\<^sup>*\<^sup>* cs_init race_waiting"
    by (simp add: race_waiting_def cs_init_def set_thread_def numeral_2_eq_2)
  then show ?thesis using creach_init by (rule creach_steps)
qed

lemma race_step: "cstep race_waiting race_won"
proof -
  have com: "schedule_commit race_job [''a-1'', ''a-2''] 0 (cs_jobs race_waiting)
      = (None, set_phase PhaseRunning race_job, [''job-race'' \<mapsto> race_rec PhaseRunning])"
    by (simp add: schedule_commit_def race_waiting_def cs_init_def race_job_def zero_Status_def race_rec_def
        set_phase_def Let_def)
  have th: "cs_threads race_waiting 0 = Some (ThOpen race_job [''a-1'', ''a-2''] 0 [] [''a-1'', ''a-2''])"
    by (simp add: race_waiting_def)
  show ?thesis
    using schedule_ok [OF th com] by (simp add: race_won_def race_waiting_def cs_init_def race_job_def set_thread_def)
qed

lemma race_won_reach: "creach race_won"
  using race_waiting_reach race_step by (rule creach_step)

theorem schedule_at_most_once_witness:
  "count (cs_scheduled race_won) ''job-race'' = 1"
  using schedule_at_most_once [OF race_won_reach, of "''job-race''"] by (simp add: race_won_def race_waiting_def)

text \<open>
  C3. Every step of every goroutine moves a recorded job along the transition table or leaves
  its phase alone, and never loses a record or changes its agents, tenant or specification:
  the direct assignments of \<open>watchJob\<close>, which bypass \<open>Transition\<close>, are transitions too.
\<close>

theorem concurrent_state_machine:
  assumes "creach s" and "cstep s t" and "cs_jobs s i = Some r"
  shows "\<exists>r'. cs_jobs t i = Some r' \<and> jr_agentIDs r' = jr_agentIDs r
    \<and> job_TenantID (jr_job r') = job_TenantID (jr_job r) \<and> job_Spec (jr_job r') = job_Spec (jr_job r)
    \<and> (job_phase (jr_job r') = job_phase (jr_job r)
       \<or> (\<exists>e. Transition (job_phase (jr_job r)) e = Inr (job_phase (jr_job r'))))"
proof -
  have "evolves (cs_jobs s) (cs_jobs t)"
    using assms(1,2) creach_cinv cstep_evolves by (auto simp: cinv_def)
  then obtain r' where "cs_jobs t i = Some r'" "same_record r r'"
    "phase_move (job_phase (jr_job r)) (job_phase (jr_job r'))"
    using assms(3) unfolding evolves_def by blast
  then show ?thesis
    by (auto simp: same_record_def phase_move_def phase_step_iff)
qed

lemma race_cancel_step:
  "cstep race_won (set_thread 2 (Some (ThCancel ''job-race'' 0 [''a-1'', ''a-2''])) race_won)"
  using cancel_call [of race_won "''job-race''" "race_rec PhaseRunning" 2]
  by (simp add: race_won_def race_waiting_def race_rec_def)

definition race_cancelled :: csys where
  "race_cancelled = set_thread 2 (Some (ThCancel ''job-race'' 0 [])) race_won"

definition race_torn :: csys where
  "race_torn = race_won\<lparr>cs_jobs := [''job-race'' \<mapsto> race_rec PhaseTerminating], cs_done := {0}\<rparr>"

lemma race_cancelled_reach: "creach race_cancelled"
proof -
  let ?s1 = "set_thread 2 (Some (ThCancel ''job-race'' 0 [''a-1'', ''a-2''])) race_won"
  have "cstep ?s1 (set_thread 2 (Some (ThCancel ''job-race'' 0 [''a-2''])) ?s1)" (is "cstep _ ?s2")
    by (rule cancel_terminated) simp
  moreover have "cstep ?s2 (set_thread 2 (Some (ThCancel ''job-race'' 0 [])) ?s2)"
    by (rule cancel_terminated) simp
  ultimately have "creach (set_thread 2 (Some (ThCancel ''job-race'' 0 [])) ?s2)"
    using race_won_reach race_cancel_step by (meson creach_step)
  then show ?thesis by (simp add: race_cancelled_def set_thread_def)
qed

lemma race_torn_step: "cstep race_cancelled race_torn"
proof -
  have th: "cs_threads race_cancelled 2 = Some (ThCancel ''job-race'' 0 [])"
    by (simp add: race_cancelled_def)
  have "cancel_commit ''job-race'' (cs_jobs race_cancelled) = (True, None, [''job-race'' \<mapsto> race_rec PhaseTerminating])"
    by (simp add: cancel_commit_def race_cancelled_def race_won_def race_rec_def set_phase_def)
  with cancel_section [OF th] show ?thesis
    by (simp add: race_cancelled_def race_torn_def race_won_def race_waiting_def set_thread_def cs_init_def fun_upd_idem)
qed

theorem concurrent_state_machine_witness:
  "\<exists>r'. [''job-race'' \<mapsto> race_rec PhaseTerminating] ''job-race'' = Some r'
     \<and> (\<exists>e. Transition PhaseRunning e = Inr (job_phase (jr_job r')))"
  using concurrent_state_machine [OF race_cancelled_reach race_torn_step, of "''job-race''" "race_rec PhaseRunning"]
  by (auto simp: race_cancelled_def race_won_def race_torn_def race_rec_def)

text \<open>
  C7. In every reachable state a job is Terminating exactly when its watch context has been
  cancelled, so cancelling one job never stops the watchers of another; and a Terminating
  job stays Terminating, with its record, through every later step.
\<close>

theorem terminating_iff_watch_cancelled:
  assumes "creach s" and "cs_jobs s i = Some r"
  shows "(jr_cancelWatch r \<in> cs_done s \<longleftrightarrow> job_phase (jr_job r) = PhaseTerminating)
    \<and> (job_phase (jr_job r) = PhaseTerminating \<longrightarrow>
        (\<forall>t. cstep\<^sup>*\<^sup>* s t \<longrightarrow>
          (\<exists>r'. cs_jobs t i = Some r' \<and> job_phase (jr_job r') = PhaseTerminating)))"
proof
  show "jr_cancelWatch r \<in> cs_done s \<longleftrightarrow> job_phase (jr_job r) = PhaseTerminating"
    using creach_cinv [OF assms(1)] assms(2) unfolding cinv_def inv_done_def by blast
next
  have "\<exists>r'. cs_jobs t i = Some r' \<and> job_phase (jr_job r') = PhaseTerminating"
    if ph: "job_phase (jr_job r) = PhaseTerminating" and st: "cstep\<^sup>*\<^sup>* s t" for t
  proof -
    obtain r' where r': "cs_jobs t i = Some r'" "phase_rank (job_phase (jr_job r')) = 3"
      using steps_record [OF st assms] ph phase_rank_le by (metis le_antisym phase_rank_simps(5))
    then have "job_phase (jr_job r') = PhaseTerminating"
      by (auto simp: phase_rank_def split: if_splits)
    with r'(1) show ?thesis by blast
  qed
  then show "job_phase (jr_job r) = PhaseTerminating \<longrightarrow>
        (\<forall>t. cstep\<^sup>*\<^sup>* s t \<longrightarrow>
          (\<exists>r'. cs_jobs t i = Some r' \<and> job_phase (jr_job r') = PhaseTerminating))" by blast
qed

theorem terminating_iff_watch_cancelled_witness:
  "0 \<notin> cs_done race_won \<and> job_phase (jr_job (race_rec PhaseRunning)) \<noteq> PhaseTerminating"
  using terminating_iff_watch_cancelled [OF race_won_reach, of "''job-race''" "race_rec PhaseRunning"]
  by (auto simp: race_won_def race_waiting_def race_rec_def)

end
