(* ===== verification/Scheduler_Types.thy ===== *)
theory Scheduler_Types
  imports Scheduler_Concurrent
begin

text \<open>
  The shape of what the scheduler stores, in every interleaving of its goroutines: a record is
  filed under its job's identifier, in a phase the scheduler writes, with one agent for each
  role and a watch context of its own; the goroutine that watches the job was given the
  channels of exactly the job's agents, under the job's own watch context.
\<close>

definition well_typed :: "string \<Rightarrow> jobRecord \<Rightarrow> bool" where
  "well_typed i r \<longleftrightarrow>
     job_ID (jr_job r) = i
   \<and> job_phase (jr_job r) \<in> {PhaseRunning, PhaseSucceeded, PhaseFailed, PhaseTerminating}
   \<and> length (jr_agentIDs r) = length (sp_Agents (job_Spec (jr_job r)))"

text \<open>The invariant that carries the agents: of records, of calls under way, of watchers\<close>

fun ids_ok :: "jobs \<Rightarrow> thread \<Rightarrow> bool" where
  "ids_ok jobs (ThSpawn job roles ids) \<longleftrightarrow> length ids + length roles = length (sp_Agents (job_Spec job))"
| "ids_ok jobs (ThOpen job ids c todo opened) \<longleftrightarrow>
     length ids = length (sp_Agents (job_Spec job)) \<and> opened @ todo = ids"
| "ids_ok jobs (ThTerminate ids) \<longleftrightarrow> True"
| "ids_ok jobs (ThCancel i c ks) \<longleftrightarrow> (\<exists>r. jobs i = Some r \<and> suffix ks (jr_agentIDs r))"
| "ids_ok jobs (ThWatch i c chans live d f) \<longleftrightarrow>
     (\<exists>r. jobs i = Some r \<and> chans = jr_agentIDs r \<and> c = jr_cancelWatch r)
     \<and> mset live \<subseteq># mset chans \<and> d + f \<le> length chans"

definition ids_kept :: "jobs \<Rightarrow> bool" where
  "ids_kept jobs \<longleftrightarrow>
     (\<forall>i r. jobs i = Some r \<longrightarrow> length (jr_agentIDs r) = length (sp_Agents (job_Spec (jr_job r))))"

definition inv_ids :: "csys \<Rightarrow> bool" where
  "inv_ids s \<longleftrightarrow> ids_kept (cs_jobs s) \<and> (\<forall>g th. cs_threads s g = Some th \<longrightarrow> ids_ok (cs_jobs s) th)"

text \<open>What \<open>ids_ok\<close> reads of a record never changes, so it survives the other goroutines' steps.\<close>

lemma ids_ok_evolves: "evolves jobs jobs' \<Longrightarrow> ids_ok jobs th \<Longrightarrow> ids_ok jobs' th"
  unfolding evolves_def same_record_def by (cases th) fastforce+

lemma count_event_bound: "count_event ev (c, f) = (c', f') \<Longrightarrow> c' + f' \<le> Suc (c + f)"
  by (auto simp: count_event_def split: if_splits)

lemma mset_remove1_subset: "mset live \<subseteq># M \<Longrightarrow> mset live - {#k#} \<subseteq># M"
  by (rule subset_mset.order_trans [OF diff_subset_eq_self])

lemma ids_kept_commit:
  "ids_kept jobs \<Longrightarrow> length ids = length (sp_Agents (job_Spec job)) \<Longrightarrow>
     schedule_commit job ids c jobs = (None, job', jobs') \<Longrightarrow> ids_kept jobs'"
  using schedule_commit_None [of job ids c jobs job' jobs'] by (auto simp: ids_kept_def)

lemma ids_kept_cancel: "cancel_commit i jobs = (c, e, jobs') \<Longrightarrow> ids_kept jobs \<Longrightarrow> ids_kept jobs'"
  by (erule cancel_commit_cases) (auto simp: ids_kept_def)

lemma ids_kept_watch: "ids_kept jobs \<Longrightarrow> ids_kept (watch_commit i f jobs)"
  by (rule watch_commit_cases [of i f jobs]) (auto simp: ids_kept_def)

lemma inv_ids_step:
  assumes "inv_ids s" and "evolves (cs_jobs s) (cs_jobs t)" and "ids_kept (cs_jobs t)"
    and "cs_threads t = (cs_threads s)(g := x)" and "\<And>th. x = Some th \<Longrightarrow> ids_ok (cs_jobs t) th"
  shows "inv_ids t"
  using assms ids_ok_evolves [OF assms(2)] unfolding inv_ids_def by (auto split: if_splits)

lemma cstep_inv_ids:
  assumes "cstep s t" and "inv_jobs (cs_jobs s)" and "inv_ids s"
  shows "inv_ids t"
proof -
  note ev = cstep_evolves [OF assms(1,2)]
  note step = inv_ids_step [OF assms(3) ev]
  have kept: "ids_kept (cs_jobs s)" and ok: "cs_threads s g = Some th \<Longrightarrow> ids_ok (cs_jobs s) th" for g th
    using assms(3) by (auto simp: inv_ids_def)
  from assms(1) show ?thesis
  proof (cases rule: cstep.cases)
    case (schedule_ok g job ids c chans job' jobs')
    from ok [OF schedule_ok(2)] have ids: "length ids = length (sp_Agents (job_Spec job))" "chans = ids" by simp_all
    show ?thesis
    proof (rule step)
      show "ids_kept (cs_jobs t)" using ids_kept_commit [OF kept ids(1) schedule_ok(3)] by (simp add: schedule_ok(1))
      show "cs_threads t = (cs_threads s)(g := Some (ThWatch (job_ID job) c chans chans 0 0))"
        by (simp add: schedule_ok(1))
      show "ids_ok (cs_jobs t) th" if "Some (ThWatch (job_ID job) c chans chans 0 0) = Some th" for th
        using that schedule_commit_None(3) [OF schedule_ok(3)] ids(2) by (auto simp: schedule_ok(1))
    qed
  next
    case (schedule_rejected g job ids c chans e job' jobs')
    then show ?thesis using schedule_commit_Some [OF schedule_rejected(3)] kept
      by (intro step [where x = "Some (ThTerminate ids)"]) auto
  next
    case (cancel_section g i c cancel e jobs')
    then show ?thesis using ids_kept_cancel [OF cancel_section(3) kept] by (intro step [where x = None]) auto
  next
    case (watch_section g i x chans live c f)
    then show ?thesis using ids_kept_watch [OF kept] by (intro step [where x = None]) auto
  next
    case (watch_event g i x chans live c f k ev c' f' live')
    from ok [OF watch_event(2)] watch_event(3,5,6) count_event_bound [OF watch_event(5)]
    have "ids_ok (cs_jobs s) (ThWatch i x chans live' c' f')" by (auto intro: mset_remove1_subset)
    then show ?thesis
      by (intro step [where x = "Some (ThWatch i x chans live' c' f')"]) (auto simp: watch_event(1) kept)
  next
    case (channel_closed g i x chans live c f k)
    from ok [OF channel_closed(2)] have "ids_ok (cs_jobs s) (ThWatch i x chans (remove1 k live) c f)"
      by (auto intro: mset_remove1_subset)
    then show ?thesis
      by (intro step [where x = "Some (ThWatch i x chans (remove1 k live) c f)"]) (auto simp: channel_closed(1) kept)
  next
    case (cancel_terminated g i c k ks)
    from ok [OF cancel_terminated(2)] have "ids_ok (cs_jobs s) (ThCancel i c ks)" by (auto dest: suffix_ConsD)
    then show ?thesis by (intro step [where x = "Some (ThCancel i c ks)"]) (auto simp: cancel_terminated(1) kept)
  next
    case (spawn_ok g job role roles ids i)
    from ok [OF spawn_ok(2)] show ?thesis
      by (intro step [where x = "Some (ThSpawn job roles (ids @ [i]))"]) (auto simp: spawn_ok(1) kept)
  next
    case (watch_context g job ids)
    from ok [OF watch_context(2)] show ?thesis
      by (intro step [where x = "Some (ThOpen job ids (cs_next s) ids [])"]) (auto simp: watch_context(1) kept)
  next
    case (watch_ok g job ids c i todo opened)
    from ok [OF watch_ok(2)] show ?thesis
      by (intro step [where x = "Some (ThOpen job ids c todo (opened @ [i]))"]) (auto simp: watch_ok(1) kept)
  qed (use assms(3) in \<open>auto simp: inv_ids_def split: if_splits\<close>)
qed

lemma creach_inv_ids: "creach s \<Longrightarrow> inv_ids s"
proof (induction rule: creach.induct)
  case creach_init
  show ?case by (simp add: cs_init_def inv_ids_def ids_kept_def)
next
  case (creach_step s t)
  then show ?case using creach_cinv by (auto simp: cinv_def intro: cstep_inv_ids)
qed



end
