(* ===== verification/Scheduler_Progress.thy ===== *)
theory Scheduler_Progress
  imports Scheduler_Types
begin

text \<open>
  The concurrent scheduler comes to rest: once no call is started any more its goroutines take
  a bounded number of steps, and they run until the only ones left are watchers of running
  jobs that wait for agents which have not reported.
\<close>

section \<open>Steps of goroutines already started\<close>

text \<open>
  No goroutine is started and the state changes: what is left out are new calls, and events
  that are no outcome of an agent, which \<open>watchJob\<close> ignores.
\<close>

definition busy :: "csys \<Rightarrow> csys \<Rightarrow> bool" where
  "busy s t \<longleftrightarrow> cstep s t \<and> dom (cs_threads t) \<subseteq> dom (cs_threads s) \<and> t \<noteq> s"

text \<open>The steps a goroutine has left at most, its watcher's included\<close>

fun work_of :: "thread \<Rightarrow> nat" where
  "work_of (ThSpawn job roles ids) = 5 * length roles + 4 * length ids + 3"
| "work_of (ThOpen job ids c todo opened) = 3 * length todo + 2 * length opened + length ids + 2"
| "work_of (ThTerminate ids) = length ids + 1"
| "work_of (ThCancel i c ks) = length ks + 1"
| "work_of (ThWatch i x chans live c f) = (length chans - (c + f)) + length live + 1"

definition work :: "csys \<Rightarrow> nat" where
  "work s = (\<Sum>g\<in>dom (cs_threads s). work_of (the (cs_threads s g)))"

definition finite_threads :: "csys \<Rightarrow> bool" where
  "finite_threads s \<longleftrightarrow> finite (dom (cs_threads s))"

lemma work_upd:
  assumes "finite_threads s" and "cs_threads s g = Some th" and "cs_threads t = (cs_threads s)(g \<mapsto> th')"
    and "work_of th' < work_of th"
  shows "work t < work s"
proof -
  have g: "g \<in> dom (cs_threads s)" and dom: "dom (cs_threads t) = dom (cs_threads s)"
    using assms(2,3) by auto
  have "work s = work_of th + (\<Sum>h\<in>dom (cs_threads s) - {g}. work_of (the (cs_threads s h)))"
    unfolding work_def using assms(1,2) by (simp add: finite_threads_def sum.remove [OF _ g])
  moreover have "work t = work_of th' + (\<Sum>h\<in>dom (cs_threads s) - {g}. work_of (the (cs_threads s h)))"
    unfolding work_def dom using assms(1,3)
    by (simp add: finite_threads_def sum.remove [OF _ g])
  ultimately show ?thesis using assms(4) by simp
qed

lemma work_del:
  assumes "finite_threads s" and "cs_threads s g = Some th" and "cs_threads t = (cs_threads s)(g := None)"
  shows "work t < work s"
proof -
  have g: "g \<in> dom (cs_threads s)" using assms(2) by auto
  have dom: "dom (cs_threads t) = dom (cs_threads s) - {g}" using assms(3) by auto
  have "work s = work_of th + (\<Sum>h\<in>dom (cs_threads s) - {g}. work_of (the (cs_threads s h)))"
    unfolding work_def using assms(1,2) by (simp add: finite_threads_def sum.remove [OF _ g])
  moreover have "work t = (\<Sum>h\<in>dom (cs_threads s) - {g}. work_of (the (cs_threads s h)))"
    unfolding work_def dom by (rule sum.cong) (simp_all add: assms(3))
  moreover have "0 < work_of th" by (cases th) simp_all
  ultimately show ?thesis by simp
qed

lemma cstep_finite: "cstep s t \<Longrightarrow> finite_threads s \<Longrightarrow> finite_threads t"
  by (induction rule: cstep.induct) (simp_all add: finite_threads_def)

lemma creach_finite: "creach s \<Longrightarrow> finite_threads s"
  by (induction rule: creach.induct) (auto simp: finite_threads_def cs_init_def dest: cstep_finite)

lemma remove1_shorter: "k \<in> set xs \<Longrightarrow> length (remove1 k xs) < length xs"
  using length_pos_if_in_set [of k xs] by (simp add: length_remove1)

lemma busy_work:
  assumes "busy s t" and "finite_threads s"
  shows "work t < work s"
proof -
  have step: "cstep s t" and old: "dom (cs_threads t) \<subseteq> dom (cs_threads s)" and new: "t \<noteq> s"
    using assms(1) by (simp_all add: busy_def)
  note upd = work_upd [OF assms(2)] and del = work_del [OF assms(2)]
  from step show ?thesis
  proof (cases rule: cstep.cases)
    case (schedule_call g job)
    with old show ?thesis by auto
  next
    case (cancel_call i rec g)
    with old show ?thesis by auto
  next
    case (watch_event g i x chans live c f k ev c' f' live')
    have "(c', f') \<noteq> (c, f) \<or> live' \<noteq> live"
    proof (rule ccontr)
      assume "\<not> ?thesis"
      with watch_event have "t = s" by (simp add: set_thread_def fun_upd_idem)
      with new show False ..
    qed
    moreover have "length (remove1 k live) < length live" using watch_event(4) by (rule remove1_shorter)
    moreover have "c' + f' = Suc (c + f) \<or> (c', f') = (c, f)"
      using watch_event(5) by (auto simp: count_event_def split: if_splits)
    ultimately have "work_of (ThWatch i x chans live' c' f') < work_of (ThWatch i x chans live c f)"
      using watch_event(3,6) by auto
    then show ?thesis by (rule upd [rotated 2]) (simp_all add: watch_event)
  next
    case (channel_closed g i x chans live c f k)
    have "length (remove1 k live) < length live" using channel_closed(4) by (rule remove1_shorter)
    then have "work_of (ThWatch i x chans (remove1 k live) c f) < work_of (ThWatch i x chans live c f)" by simp
    then show ?thesis by (rule upd [rotated 2]) (simp_all add: channel_closed)
  next
    case (spawn_ok g job role roles ids i)
    show ?thesis by (rule upd [OF spawn_ok(2), of _ "ThSpawn job roles (ids @ [i])"]) (simp_all add: spawn_ok(1))
  next
    case (watch_context g job ids)
    show ?thesis by (rule upd [OF watch_context(2), of _ "ThOpen job ids (cs_next s) ids []"]) (simp_all add: watch_context(1))
  next
    case (watch_ok g job ids c i todo opened)
    show ?thesis by (rule upd [OF watch_ok(2), of _ "ThOpen job ids c todo (opened @ [i])"]) (simp_all add: watch_ok(1))
  next
    case (schedule_ok g job ids c chans job' jobs')
    show ?thesis by (rule upd [OF schedule_ok(2), of _ "ThWatch (job_ID job) c chans chans 0 0"]) (simp_all add: schedule_ok(1))
  next
    case (schedule_rejected g job ids c chans e job' jobs')
    show ?thesis by (rule upd [OF schedule_rejected(2), of _ "ThTerminate ids"]) (simp_all add: schedule_rejected(1))
  next
    case (terminate_next g i ids)
    show ?thesis by (rule upd [OF terminate_next(2), of _ "ThTerminate ids"]) (simp_all add: terminate_next(1))
  next
    case (cancel_terminated g i c k ks)
    show ?thesis by (rule upd [OF cancel_terminated(2), of _ "ThCancel i c ks"]) (simp_all add: cancel_terminated(1))
  qed (auto intro: del)
qed

lemma steps_finite: "(busy ^^ n) s t \<Longrightarrow> finite_threads s \<Longrightarrow> finite_threads t"
proof (induction n arbitrary: t)
  case (Suc n)
  then obtain u where "(busy ^^ n) s u" "busy u t" by auto
  with Suc show ?case by (auto simp: busy_def intro: cstep_finite)
qed simp

lemma busy_bounded: "(busy ^^ n) s t \<Longrightarrow> finite_threads s \<Longrightarrow> n + work t \<le> work s"
proof (induction n arbitrary: t)
  case (Suc n)
  then obtain u where u: "(busy ^^ n) s u" "busy u t" by auto
  have "finite_threads u"
    by (rule steps_finite [OF u(1) Suc.prems(2)])
  from busy_work [OF u(2) this] Suc.IH [OF u(1) Suc.prems(2)] show ?case by simp
qed simp

section \<open>Agents that report once\<close>

text \<open>
  What both adapters of the repository keep: a channel delivers one outcome and is then closed,
  and is closed without one only when the watch context has been cancelled. So as long as the
  context of a watcher stands, its outcomes and its open channels are together as many.
\<close>

definition one_outcome :: "csys \<Rightarrow> csys \<Rightarrow> bool" where
  "one_outcome s t \<longleftrightarrow>
     (\<forall>g i x chans live c f live' c' f'.
        cs_threads s g = Some (ThWatch i x chans live c f)
        \<and> cs_threads t g = Some (ThWatch i x chans live' c' f') \<and> x \<notin> cs_done s \<longrightarrow>
          c' + f' + length live' = c + f + length live)"

definition full_step :: "csys \<Rightarrow> csys \<Rightarrow> bool" where
  "full_step s t \<longleftrightarrow> cstep s t \<and> one_outcome s t"

definition freach :: "csys \<Rightarrow> bool" where
  "freach s \<longleftrightarrow> full_step\<^sup>*\<^sup>* cs_init s"

lemma freach_creach: "freach s \<Longrightarrow> creach s"
  unfolding freach_def
  by (induction rule: rtranclp_induct) (auto intro: creach_init creach_step simp: full_step_def)

lemma freach_step: "freach s \<Longrightarrow> full_step s t \<Longrightarrow> freach t"
  unfolding freach_def by (rule rtranclp.rtrancl_into_rtrancl)

text \<open>Watchers that have not been told to stop, and the phases of watched jobs\<close>

definition balanced :: "csys \<Rightarrow> bool" where
  "balanced s \<longleftrightarrow>
     (\<forall>g i x chans live c f. cs_threads s g = Some (ThWatch i x chans live c f) \<and> x \<notin> cs_done s \<longrightarrow>
        c + f + length live = length chans)"

lemma cstep_done: "cstep s t \<Longrightarrow> cs_done s \<subseteq> cs_done t"
  by (induction rule: cstep.induct) auto

lemma cstep_watcher:
  assumes "cstep s t" and "cs_threads t g = Some (ThWatch i x chans live c f)"
  shows "(live = chans \<and> c = 0 \<and> f = 0)
    \<or> (\<exists>live' c' f'. cs_threads s g = Some (ThWatch i x chans live' c' f'))"
  using assms by (cases rule: cstep.cases) (auto split: if_splits)

lemma full_step_balanced:
  assumes "full_step s t" and "balanced s"
  shows "balanced t"
  unfolding balanced_def
proof (intro allI impI)
  fix g i x chans live c f
  assume w: "cs_threads t g = Some (ThWatch i x chans live c f) \<and> x \<notin> cs_done t"
  have step: "cstep s t" and one: "one_outcome s t" using assms(1) by (simp_all add: full_step_def)
  have x: "x \<notin> cs_done s" using w cstep_done [OF step] by blast
  from cstep_watcher [OF step w [THEN conjunct1]] show "c + f + length live = length chans"
  proof
    assume "\<exists>live' c' f'. cs_threads s g = Some (ThWatch i x chans live' c' f')"
    then obtain live' c' f' where old: "cs_threads s g = Some (ThWatch i x chans live' c' f')" by blast
    then have "c' + f' + length live' = length chans" using assms(2) x unfolding balanced_def by blast
    then show ?thesis using one old w x unfolding one_outcome_def by metis
  qed simp
qed

definition running :: "jobs \<Rightarrow> string \<Rightarrow> bool" where
  "running jobs i \<longleftrightarrow> (\<exists>rec. jobs i = Some rec \<and> job_phase (jr_job rec) = PhaseRunning)"

text \<open>A running job has its watcher; a watched job is Running or Terminating.\<close>

definition attended :: "csys \<Rightarrow> bool" where
  "attended s \<longleftrightarrow> (\<forall>i. running (cs_jobs s) i \<longrightarrow> (\<exists>g. watches s g i))"

definition watched_live :: "csys \<Rightarrow> bool" where
  "watched_live s \<longleftrightarrow>
     (\<forall>g i rec. watches s g i \<and> cs_jobs s i = Some rec \<longrightarrow>
        job_phase (jr_job rec) \<in> {PhaseRunning, PhaseTerminating})"

lemma running_schedule:
  "schedule_commit job ids c jobs = (None, job', jobs') \<Longrightarrow> running jobs' i \<Longrightarrow> i = job_ID job \<or> running jobs i"
  using schedule_commit_None [of job ids c jobs job' jobs'] by (auto simp: running_def split: if_splits)

lemma running_cancel: "cancel_commit i jobs = (c, e, jobs') \<Longrightarrow> running jobs' j \<Longrightarrow> running jobs j"
  by (erule cancel_commit_cases) (auto simp: running_def split: if_splits)

lemma running_watch: "running (watch_commit i f jobs) j \<Longrightarrow> running jobs j \<and> j \<noteq> i"
  by (auto simp: watch_commit_def running_def split: option.splits if_splits)

lemma attended_frame:
  assumes "attended s" and "\<And>i. running (cs_jobs t) i \<Longrightarrow> running (cs_jobs s) i"
    and "\<And>g i. watches s g i \<Longrightarrow> running (cs_jobs t) i \<Longrightarrow> watches t g i"
  shows "attended t"
  using assms unfolding attended_def by blast

text \<open>A watcher that finds every channel closed too early has been told to stop.\<close>

lemma closed_early:
  assumes "creach s" and "balanced s" and "cs_threads s g = Some (ThWatch i x chans [] c f)"
    and "c + f < length chans"
  shows "\<not> running (cs_jobs s) i"
proof
  assume "running (cs_jobs s) i"
  then obtain rec where rec: "cs_jobs s i = Some rec" "job_phase (jr_job rec) = PhaseRunning"
    by (auto simp: running_def)
  have "x = jr_cancelWatch rec"
    using creach_inv_ids [OF assms(1)] assms(3) rec(1) by (fastforce simp: inv_ids_def)
  moreover have "x \<in> cs_done s" using assms(2-4) unfolding balanced_def by fastforce
  ultimately have "job_phase (jr_job rec) = PhaseTerminating"
    using creach_cinv [OF assms(1)] rec(1) by (auto simp: cinv_def inv_done_def)
  with rec(2) show False by simp
qed

lemma full_step_attended:
  assumes r: "creach s" "balanced s" and "full_step s t" and ok: "attended s"
  shows "attended t"
proof -
  have step: "cstep s t" using assms(3) by (simp add: full_step_def)
  from step show ?thesis
  proof (cases rule: cstep.cases)
    case (schedule_ok g job ids c chans job' jobs')
    have "watches t h i" if "watches s h i" for h i
      using that schedule_ok(1,2) by (auto simp: watches_def)
    moreover have "watches t g (job_ID job)" by (auto simp: schedule_ok(1) watches_def)
    moreover have "running (cs_jobs t) i \<Longrightarrow> i = job_ID job \<or> running (cs_jobs s) i" for i
      using running_schedule [OF schedule_ok(3)] by (simp add: schedule_ok(1))
    ultimately show ?thesis using ok unfolding attended_def by blast
  next
    case (schedule_rejected g job ids c chans e job' jobs')
    then show ?thesis using schedule_commit_Some [OF schedule_rejected(3)]
      by (intro attended_frame [OF ok]) (auto simp: watches_def)
  next
    case (cancel_section g i c cancel e jobs')
    then show ?thesis by (intro attended_frame [OF ok]) (auto simp: watches_def dest: running_cancel)
  next
    case (watch_closed g i x chans c f)
    have "\<not> running (cs_jobs s) i" by (rule closed_early [OF r watch_closed(2,3)])
    then have "watches t h j" if "watches s h j" "running (cs_jobs t) j" for h j
      using that watch_closed(1,2) by (auto simp: watches_def)
    then show ?thesis by (intro attended_frame [OF ok]) (auto simp: watch_closed(1))
  next
    case (watch_section g i x chans live c f)
    have "watches t h j" if "watches s h j" "running (cs_jobs t) j" for h j
      using that watch_section(1,2) by (auto simp: watches_def dest: running_watch)
    then show ?thesis
      by (intro attended_frame [OF ok]) (auto simp: watch_section(1) dest: running_watch)
  qed (intro attended_frame [OF ok]; auto simp: watches_def)+
qed

lemma watched_live_frame:
  assumes "watched_live s" and "\<And>g i. watches t g i \<Longrightarrow> watches s g i \<and> cs_jobs t i = cs_jobs s i"
  shows "watched_live t"
  using assms unfolding watched_live_def by metis

lemma cstep_watched_live:
  assumes "creach s" and step: "cstep s t" and ok: "watched_live s"
  shows "watched_live t"
  using step
proof (cases rule: cstep.cases)
  case (schedule_ok g job ids c chans job' jobs')
  have "watches t h i \<longleftrightarrow> (if h = g then i = job_ID job else watches s h i)" for h i
    by (auto simp: schedule_ok watches_def)
  then show ?thesis
    using ok schedule_commit_None [OF schedule_ok(3)] unfolding watched_live_def
    by (auto simp: schedule_ok(1) split: if_splits)
next
  case (schedule_rejected g job ids c chans e job' jobs')
  then show ?thesis using schedule_commit_Some [OF schedule_rejected(3)]
    by (intro watched_live_frame [OF ok]) (auto simp: watches_def split: if_splits)
next
  case (cancel_section g i c cancel e jobs')
  have old: "watches s h j" if "watches t h j" for h j
    using that cancel_section(1) by (auto simp: watches_def split: if_splits)
  have "job_phase (jr_job r) = PhaseTerminating \<or> cs_jobs s j = Some r" if "cs_jobs t j = Some r" for j r
    using cancel_section(3)
    by (rule cancel_commit_cases) (use that in \<open>auto simp: cancel_section(1) split: if_splits\<close>)
  with ok old show ?thesis unfolding watched_live_def by blast
next
  case (watch_section g i x chans live c f)
  have here: "watches s g i" using watch_section(2) by (auto simp: watches_def)
  have "h \<noteq> g \<and> watches s h j" if "watches t h j" for h j
    using that watch_section(1) by (auto simp: watches_def split: if_splits)
  moreover have "j \<noteq> i" if "h \<noteq> g" "watches s h j" for h j
    using that here creach_cinv [OF assms(1)] by (auto simp: cinv_def inv_watch_def)
  moreover have "cs_jobs t j = cs_jobs s j" if "j \<noteq> i" for j
    using that watch_section(1) by (auto simp: watch_commit_def split: option.splits)
  ultimately show ?thesis by (intro watched_live_frame [OF ok]) blast
qed (rule watched_live_frame [OF ok]; auto simp: watches_def split: if_splits)+

definition finv :: "csys \<Rightarrow> bool" where
  "finv s \<longleftrightarrow> creach s \<and> balanced s \<and> attended s \<and> watched_live s"

lemma finv_step: "finv s \<Longrightarrow> full_step s t \<Longrightarrow> finv t"
  unfolding finv_def
  using full_step_balanced full_step_attended cstep_watched_live creach_step full_step_def by blast

lemma freach_finv: "freach s \<Longrightarrow> finv s"
  unfolding freach_def
proof (induction rule: rtranclp_induct)
  case base
  show ?case
    by (simp add: finv_def creach_init) (simp add: cs_init_def balanced_def attended_def watched_live_def running_def watches_def)
qed (rule finv_step)

section \<open>What goroutines do by themselves\<close>

text \<open>
  A step of the adapters' contract that starts no call; and one in which moreover no agent
  reports: the adapter's calls return, channels of cancelled jobs close, goroutines return.
\<close>

definition served :: "csys \<Rightarrow> csys \<Rightarrow> bool" where
  "served s t \<longleftrightarrow> busy s t \<and> one_outcome s t"

definition reports :: "csys \<Rightarrow> csys \<Rightarrow> bool" where
  "reports s t \<longleftrightarrow>
     (\<exists>g i x chans live c f live' c' f'.
        cs_threads s g = Some (ThWatch i x chans live c f)
        \<and> cs_threads t g = Some (ThWatch i x chans live' c' f') \<and> (c', f') \<noteq> (c, f))"

definition own_step :: "csys \<Rightarrow> csys \<Rightarrow> bool" where
  "own_step s t \<longleftrightarrow> served s t \<and> \<not> reports s t"

definition settled :: "csys \<Rightarrow> bool" where
  "settled s \<longleftrightarrow> \<not> (\<exists>t. own_step s t)"

definition at_rest :: "csys \<Rightarrow> bool" where
  "at_rest s \<longleftrightarrow> \<not> (\<exists>t. served s t)"

text \<open>A watcher of a running job, waiting for agents that have not reported\<close>

fun waiting :: "jobs \<Rightarrow> thread \<Rightarrow> bool" where
  "waiting jobs (ThWatch i x chans live c f) \<longleftrightarrow>
     live \<noteq> [] \<and> mset live \<subseteq># mset chans \<and> c + f + length live = length chans
     \<and> (\<exists>r. jobs i = Some r \<and> job_phase (jr_job r) = PhaseRunning
          \<and> chans = jr_agentIDs r \<and> x = jr_cancelWatch r)"
| "waiting jobs _ \<longleftrightarrow> False"

lemma own_stepI:
  assumes "cstep s t" and "cs_threads s g = Some th" and "cs_threads t = (cs_threads s)(g := y)" and "y \<noteq> Some th"
    and "\<And>i x chans live c f live' c' f'. th = ThWatch i x chans live c f \<Longrightarrow>
      y = Some (ThWatch i x chans live' c' f') \<Longrightarrow> x \<in> cs_done s \<and> (c', f') = (c, f)"
  shows "\<exists>t. own_step s t"
proof
  have "cs_threads t g \<noteq> cs_threads s g" using assms(2-4) by simp
  then have "t \<noteq> s" by blast
  moreover have "dom (cs_threads t) \<subseteq> dom (cs_threads s)" using assms(2,3) by (auto split: if_splits)
  moreover have same: "x \<in> cs_done s \<or> live' = live" "(c', f') = (c, f)"
    if "cs_threads s h = Some (ThWatch i x chans live c f)"
      "cs_threads t h = Some (ThWatch i x chans live' c' f')" for h i x chans live c f live' c' f'
  proof -
    have "(x \<in> cs_done s \<or> live' = live) \<and> (c', f') = (c, f)"
    proof (cases "h = g")
      case True
      then have "th = ThWatch i x chans live c f" "y = Some (ThWatch i x chans live' c' f')"
        using that assms(2,3) by simp_all
      from assms(5) [OF this] show ?thesis by blast
    next
      case False
      then show ?thesis using that assms(3) by simp
    qed
    then show "x \<in> cs_done s \<or> live' = live" "(c', f') = (c, f)" by blast+
  qed
  moreover have "one_outcome s t"
    unfolding one_outcome_def using same by (metis prod.inject)
  moreover have "\<not> reports s t"
    unfolding reports_def using same(2) by blast
  ultimately show "own_step s t" using assms(1) by (simp add: own_step_def served_def busy_def)
qed

lemma watcher_moves:
  assumes "finv s" and g: "cs_threads s g = Some (ThWatch i x chans live c f)"
  shows "(\<exists>t. own_step s t) \<or> waiting (cs_jobs s) (ThWatch i x chans live c f)"
proof (cases "c + f < length chans")
  case False
  have "\<exists>t. own_step s t"
    by (rule own_stepI [OF watch_section [OF g], where y = None]) (use False in \<open>simp_all add: g\<close>)
  then show ?thesis ..
next
  case short: True
  show ?thesis
  proof (cases live)
    case Nil
    have "\<exists>t. own_step s t"
      by (rule own_stepI [OF watch_closed [OF g [unfolded Nil] short], where y = None]) (simp_all add: g)
    then show ?thesis ..
  next
    case (Cons k rest)
    show ?thesis
    proof (cases "x \<in> cs_done s")
      case True
      have k: "k \<in> set live" by (simp add: Cons)
      then have "remove1 k live \<noteq> live" using remove1_shorter by (metis less_irrefl)
      then have "\<exists>t. own_step s t"
        by (intro own_stepI [OF channel_closed [OF g short k] g,
              where y = "Some (ThWatch i x chans (remove1 k live) c f)"]) (auto simp: True)
      then show ?thesis ..
    next
      case stands: False
      have inv: "creach s" "balanced s" "watched_live s" using assms(1) by (simp_all add: finv_def)
      from creach_inv_ids [OF inv(1)] g have "ids_ok (cs_jobs s) (ThWatch i x chans live c f)"
        unfolding inv_ids_def by blast
      then obtain r where r: "cs_jobs s i = Some r" "chans = jr_agentIDs r" "x = jr_cancelWatch r"
        and sub: "mset live \<subseteq># mset chans" by auto
      have "job_phase (jr_job r) \<noteq> PhaseTerminating"
        using creach_cinv [OF inv(1)] r(1,3) stands by (auto simp: cinv_def inv_done_def)
      moreover have "watches s g i" using g by (auto simp: watches_def)
      then have "job_phase (jr_job r) \<in> {PhaseRunning, PhaseTerminating}"
        using inv(3) r(1) unfolding watched_live_def by blast
      moreover have "c + f + length live = length chans" using inv(2) g stands unfolding balanced_def by blast
      ultimately have "waiting (cs_jobs s) (ThWatch i x chans live c f)"
        using r sub Cons by auto
      then show ?thesis ..
    qed
  qed
qed

lemma goroutine_moves:
  assumes "finv s" and g: "cs_threads s g = Some th"
  shows "(\<exists>t. own_step s t) \<or> waiting (cs_jobs s) th"
proof (cases th)
  case (ThWatch i x chans live c f)
  then show ?thesis using watcher_moves [OF assms(1)] g by blast
next
  case (ThSpawn job roles ids)
  show ?thesis
  proof (cases roles)
    case Nil
    show ?thesis
      by (rule disjI1, rule own_stepI [OF watch_context [of s g job ids] g,
            where y = "Some (ThOpen job ids (cs_next s) ids [])"]) (use g ThSpawn Nil in simp_all)
  next
    case (Cons role rest)
    show ?thesis
      by (rule disjI1, rule own_stepI [OF spawn_failed [of s g job role rest ids] g, where y = None])
         (use g ThSpawn Cons in simp_all)
  qed
next
  case (ThOpen job ids c todo opened)
  show ?thesis
  proof (cases todo)
    case (Cons i rest)
    show ?thesis
      by (rule disjI1, rule own_stepI [OF watch_failed [of s g job ids c i rest opened] g, where y = None])
         (use g ThOpen Cons in simp_all)
  next
    case Nil
    with g ThOpen have here: "cs_threads s g = Some (ThOpen job ids c [] opened)" by simp
    obtain e job' jobs' where com: "schedule_commit job ids c (cs_jobs s) = (e, job', jobs')" by (metis prod_cases3)
    show ?thesis
    proof (cases e)
      case None
      show ?thesis
        by (rule disjI1, rule own_stepI [OF schedule_ok [OF here com [unfolded None]] g,
              where y = "Some (ThWatch (job_ID job) c opened opened 0 0)"]) (simp_all add: ThOpen)
    next
      case (Some err)
      show ?thesis
        by (rule disjI1, rule own_stepI [OF schedule_rejected [OF here com [unfolded Some]] g,
              where y = "Some (ThTerminate ids)"]) (simp_all add: ThOpen)
    qed
  qed
next
  case (ThTerminate ids)
  show ?thesis
  proof (cases ids)
    case Nil
    show ?thesis
      by (rule disjI1, rule own_stepI [OF terminated [of s g] g, where y = None]) (use g ThTerminate Nil in simp_all)
  next
    case (Cons i rest)
    show ?thesis
      by (rule disjI1, rule own_stepI [OF terminate_next [of s g i rest] g, where y = "Some (ThTerminate rest)"])
         (use g ThTerminate Cons in simp_all)
  qed
next
  case (ThCancel i c ks)
  show ?thesis
  proof (cases ks)
    case Nil
    obtain cancel e jobs' where com: "cancel_commit i (cs_jobs s) = (cancel, e, jobs')" by (metis prod_cases3)
    show ?thesis
      by (rule disjI1, rule own_stepI [OF cancel_section [OF _ com, of g c] g, where y = None])
         (use g ThCancel Nil in simp_all)
  next
    case (Cons k rest)
    show ?thesis
      by (rule disjI1, rule own_stepI [OF cancel_terminated [of s g i c k rest] g, where y = "Some (ThCancel i c rest)"])
         (use g ThCancel Cons in simp_all)
  qed
qed

lemma settled_waiting: "finv s \<Longrightarrow> settled s \<Longrightarrow> cs_threads s g = Some th \<Longrightarrow> waiting (cs_jobs s) th"
  using goroutine_moves unfolding settled_def by blast

text \<open>A waiting watcher can still hear from an agent, so at rest no goroutine is left.\<close>

lemma waiting_serves:
  assumes g: "cs_threads s g = Some th" and w: "waiting (cs_jobs s) th"
  shows "\<exists>t. served s t"
proof -
  from w obtain i x chans live c f where th: "th = ThWatch i x chans live c f" and "live \<noteq> []"
    and n: "c + f + length live = length chans" by (cases th) auto
  then obtain k rest where k: "live = k # rest" by (cases live) auto
  let ?ev = "\<lparr>ev_AgentID = k, ev_Type = EventCompleted, ev_Message = []\<rparr>"
  let ?t = "set_thread g (Some (ThWatch i x chans rest (Suc c) f)) s"
  have "cstep s ?t"
    using g th n k by (intro watch_event [where ev = ?ev and k = k and live = live]) (auto simp: count_event_def)
  moreover have "?t \<noteq> s"
  proof
    assume "?t = s"
    then have "cs_threads ?t g = cs_threads s g" by simp
    with g th show False by simp
  qed
  moreover have "one_outcome s ?t"
    using g th k by (auto simp: one_outcome_def)
  ultimately have "served s ?t" using g by (auto simp: served_def busy_def)
  then show ?thesis ..
qed

lemma at_rest_threads: "finv s \<Longrightarrow> at_rest s \<Longrightarrow> cs_threads s = Map.empty"
  using goroutine_moves [of s] waiting_serves [of s] unfolding at_rest_def own_step_def
  by (metis not_Some_eq)

lemma comes_to_rest: "finite_threads s \<Longrightarrow> \<exists>t. own_step\<^sup>*\<^sup>* s t \<and> settled t"
proof (induction "work s" arbitrary: s rule: less_induct)
  case less
  show ?case
  proof (cases "settled s")
    case False
    then obtain u where u: "own_step s u" by (auto simp: settled_def)
    then have "work u < work s" "finite_threads u"
      using busy_work less.prems cstep_finite by (auto simp: own_step_def served_def busy_def)
    with less.hyps obtain t where "own_step\<^sup>*\<^sup>* u t" "settled t" by blast
    with u show ?thesis by (meson converse_rtranclp_into_rtranclp)
  qed auto
qed

lemma served_finv: "served\<^sup>*\<^sup>* s t \<Longrightarrow> finv s \<Longrightarrow> finv t"
  by (induction rule: rtranclp_induct) (auto intro: finv_step simp: full_step_def served_def busy_def)

lemma own_served: "own_step\<^sup>*\<^sup>* s t \<Longrightarrow> served\<^sup>*\<^sup>* s t"
  by (rule rtranclp_mono [THEN predicate2D, rotated]) (auto simp: own_step_def)

definition job_over :: "Phase \<Rightarrow> bool" where
  "job_over p \<longleftrightarrow> IsTerminal p \<or> p = PhaseTerminating"

lemma over_or_watched:
  assumes "finv s" and "cs_jobs s i = Some r"
  shows "job_over (job_phase (jr_job r)) \<or> (job_phase (jr_job r) = PhaseRunning \<and> (\<exists>g. watches s g i))"
proof -
  have "live_phase (job_phase (jr_job r))" and "attended s"
    using creach_cinv [of s] assms by (auto simp: cinv_def inv_jobs_def finv_def)
  then show ?thesis using assms(2)
    by (auto simp: job_over_def live_phase_def attended_def running_def)
qed

text \<open>
  C27. In a run of the scheduler in which the agents' channels keep the adapters' contract (one
  outcome each, and none closed without it unless the watch context has been cancelled; calls
  of \<open>Cancel\<close> and failing adapter calls included), whatever state the goroutines are in: once no new call is
  started they take at most as many steps as there is work left, so they settle; without any
  agent reporting they run until the only goroutines left are watchers of running jobs that
  wait for agents of theirs which have not reported, and every other job has succeeded,
  failed or been cancelled; and when the agents do report, every goroutine returns and every
  job has ended.
\<close>

theorem scheduler_settles:
  assumes "freach s"
  shows "(\<forall>n t. (busy ^^ n) s t \<longrightarrow> n \<le> work s)
    \<and> (\<exists>t. own_step\<^sup>*\<^sup>* s t \<and> settled t)
    \<and> (\<forall>t. own_step\<^sup>*\<^sup>* s t \<and> settled t \<longrightarrow>
         (\<forall>g th. cs_threads t g = Some th \<longrightarrow> waiting (cs_jobs t) th)
         \<and> (\<forall>i r. cs_jobs t i = Some r \<longrightarrow>
              job_over (job_phase (jr_job r))
              \<or> (job_phase (jr_job r) = PhaseRunning \<and> (\<exists>g. watches t g i))))
    \<and> (\<forall>t. served\<^sup>*\<^sup>* s t \<and> at_rest t \<longrightarrow>
         cs_threads t = Map.empty
         \<and> (\<forall>i r. cs_jobs t i = Some r \<longrightarrow> job_over (job_phase (jr_job r))))"
proof (intro conjI allI impI)
  note fin = creach_finite [OF freach_creach [OF assms]] and inv = freach_finv [OF assms]
  show "n \<le> work s" if "(busy ^^ n) s t" for n t
    using busy_bounded [OF that fin] by simp
  show "\<exists>t. own_step\<^sup>*\<^sup>* s t \<and> settled t" by (rule comes_to_rest [OF fin])
  show "waiting (cs_jobs t) th" if "own_step\<^sup>*\<^sup>* s t \<and> settled t" "cs_threads t g = Some th" for t g th
    using settled_waiting served_finv own_served inv that by blast
  show "job_over (job_phase (jr_job r)) \<or> (job_phase (jr_job r) = PhaseRunning \<and> (\<exists>g. watches t g i))"
    if "own_step\<^sup>*\<^sup>* s t \<and> settled t" "cs_jobs t i = Some r" for t i r
    using over_or_watched served_finv own_served inv that by blast
  show rest: "cs_threads t = Map.empty" if "served\<^sup>*\<^sup>* s t \<and> at_rest t" for t
    using at_rest_threads served_finv inv that by blast
  show "job_over (job_phase (jr_job r))" if t: "served\<^sup>*\<^sup>* s t \<and> at_rest t" and r: "cs_jobs t i = Some r" for t i r
    using over_or_watched [OF served_finv [OF t [THEN conjunct1] inv] r] rest [OF t] by (simp add: watches_def)
qed

text \<open>
  One call has won the race for an identifier and its two agents are running; the other waits
  for the lock. Thirteen steps at most are left.
\<close>

lemma no_jobs_freach: "creach s \<Longrightarrow> cs_jobs s = Map.empty \<Longrightarrow> freach s"
proof (induction rule: creach.induct)
  case (creach_step s t)
  have inv: "inv_jobs (cs_jobs s)" "inv_watch s"
    using creach_cinv [OF creach_step.hyps(1)] by (simp_all add: cinv_def)
  have "cs_jobs s i = None" for i
    using cstep_evolves [OF creach_step.hyps(2) inv(1)] creach_step.prems by (cases "cs_jobs s i") (auto simp: evolves_def)
  then have "cs_jobs s = Map.empty" by (simp add: fun_eq_iff)
  moreover from this have "one_outcome s t"
    using inv(2) by (auto simp: one_outcome_def inv_watch_def watches_def)
  ultimately show ?case using creach_step by (auto intro: freach_step simp: full_step_def)
qed (simp add: freach_def)

lemma race_won_freach: "freach race_won"
proof (rule freach_step)
  show "freach race_waiting"
    by (rule no_jobs_freach [OF race_waiting_reach]) (simp add: race_waiting_def cs_init_def)
  show "full_step race_waiting race_won"
    using race_step by (simp add: full_step_def one_outcome_def race_waiting_def)
qed

theorem scheduler_settles_witness:
  "\<not> (\<exists>t. (busy ^^ 14) race_won t) \<and> (\<exists>t. own_step\<^sup>*\<^sup>* race_won t \<and> settled t)"
proof -
  have "dom (cs_threads race_won) = {0, 1}" by (auto simp: race_won_def race_waiting_def)
  then have "work race_won = 13" by (simp add: work_def) (simp add: race_won_def race_waiting_def)
  with scheduler_settles [OF race_won_freach] show ?thesis by fastforce
qed

end
