(* ===== verification/K8s_Types.thy ===== *)
theory K8s_Types
  imports Agent_Types
begin

text \<open>
  The custom resources of \<open>platform/k8s/types/v1alpha1\<close> (\<open>agentjob_types.go\<close>,
  \<open>agentfleet_types.go\<close>, \<open>tenant_types.go\<close>) and, of the Kubernetes API objects, the fields
  the operator reads or writes. Pointers to scalars are options. The type metadata
  (\<open>TypeMeta\<close>), which no code of the repository reads, is left out.
\<close>

section \<open>Object metadata\<close>

record OwnerReference =
  own_Kind :: string
  own_Name :: string
  own_UID :: string
  own_Controller :: bool

record ObjectMeta =
  om_Name :: string
  om_Namespace :: string
  om_UID :: string
  om_ResourceVersion :: string
  om_Labels :: "string \<rightharpoonup> string"
  om_OwnerReferences :: "OwnerReference list"
  om_Finalizers :: "string list"
  om_DeletionTimestamp :: "instant option"

definition zero_ObjectMeta :: ObjectMeta where
  "zero_ObjectMeta =
     \<lparr>om_Name = [], om_Namespace = [], om_UID = [], om_ResourceVersion = [], om_Labels = Map.empty,
      om_OwnerReferences = [], om_Finalizers = [], om_DeletionTimestamp = None\<rparr>"

text \<open>\<open>DeletionTimestamp.IsZero()\<close>: true of a nil pointer and of the zero time\<close>

definition IsZero :: "instant option \<Rightarrow> bool" where
  "IsZero t = (case t of None \<Rightarrow> True | Some x \<Rightarrow> x = zero_time)"

section \<open>AgentJob\<close>

record TriggerSpec =
  ts_Type :: string
  ts_Source :: string

record AgentRoleSpec =
  rs_Role :: string
  rs_Image :: string
  rs_Command :: string
  rs_MaxReplicas :: int32

record JobBusSpec =
  jb_Topic :: string

record AgentJobSpec =
  js_TenantRef :: string
  js_Trigger :: TriggerSpec
  js_Agents :: "AgentRoleSpec list"
  js_MessageBus :: JobBusSpec
  js_TTLAfterCompletion :: int32

record AgentJobStatus =
  jst_Phase :: string
  jst_ActiveAgents :: int32
  jst_StartedAt :: "instant option"
  jst_CompletedAt :: "instant option"

record AgentJob =
  aj_Meta :: ObjectMeta
  aj_Spec :: AgentJobSpec
  aj_Status :: AgentJobStatus

section \<open>AgentFleet\<close>

record AgentFleetSpec =
  fs_TenantRef :: string
  fs_JobRefs :: "string list"

record AgentFleetStatus =
  fst_TotalJobs :: int32
  fst_RunningJobs :: int32
  fst_CompletedJobs :: int32

record AgentFleet =
  af_Meta :: ObjectMeta
  af_Spec :: AgentFleetSpec
  af_Status :: AgentFleetStatus

section \<open>Tenant\<close>

record TenantBusSpec =
  tb_Type :: string
  tb_Dedicated :: bool

record TenantSpec =
  tsp_Namespace :: string
  tsp_IsolationTier :: string
  tsp_MessageBus :: TenantBusSpec

record TenantStatus =
  tst_Ready :: bool

record KTenant =
  kt_Meta :: ObjectMeta
  kt_Spec :: TenantSpec
  kt_Status :: TenantStatus

section \<open>Kubernetes API objects\<close>

record SecretKeySelector =
  sks_Name :: string
  sks_Key :: string

record EnvVar =
  env_Name :: string
  env_Value :: string
  env_ValueFrom :: "SecretKeySelector option"

record Container =
  ct_Name :: string
  ct_Image :: string
  ct_Command :: "string list"
  ct_Env :: "EnvVar list"
  ct_Ports :: "int32 list"

record PodSpec =
  ps_Containers :: "Container list"
  ps_RestartPolicy :: string

record Pod =
  pod_Meta :: ObjectMeta
  pod_Spec :: PodSpec
  pod_Phase :: string

record Secret =
  sec_Meta :: ObjectMeta
  sec_Data :: "string \<rightharpoonup> string"

record Deployment =
  dep_Meta :: ObjectMeta
  dep_Replicas :: "int32 option"
  dep_Selector :: "string \<rightharpoonup> string"
  dep_TemplateLabels :: "string \<rightharpoonup> string"
  dep_TemplateSpec :: PodSpec

record Service =
  svc_Meta :: ObjectMeta
  svc_Selector :: "string \<rightharpoonup> string"
  svc_Ports :: "(int32 \<times> int32) list"

record Namespace =
  ns_Meta :: ObjectMeta

text \<open>Values of \<open>corev1\<close> constants\<close>

definition PodSucceeded :: string where "PodSucceeded = ''Succeeded''"
definition PodFailed :: string where "PodFailed = ''Failed''"
definition RestartPolicyNever :: string where "RestartPolicyNever = ''Never''"

definition zero_Container :: Container where
  "zero_Container = \<lparr>ct_Name = [], ct_Image = [], ct_Command = [], ct_Env = [], ct_Ports = []\<rparr>"

definition zero_Pod :: Pod where
  "zero_Pod = \<lparr>pod_Meta = zero_ObjectMeta,
               pod_Spec = \<lparr>ps_Containers = [], ps_RestartPolicy = []\<rparr>, pod_Phase = []\<rparr>"

definition env_var :: "string \<Rightarrow> string \<Rightarrow> EnvVar" where
  "env_var n v = \<lparr>env_Name = n, env_Value = v, env_ValueFrom = None\<rparr>"

lemma pod_phases_distinct [simp]: "PodSucceeded \<noteq> PodFailed" "PodFailed \<noteq> PodSucceeded"
  by (simp_all add: PodSucceeded_def PodFailed_def)

lemma zero_Pod_sels [simp]: "pod_Meta zero_Pod = zero_ObjectMeta"
  by (simp add: zero_Pod_def)

end
