(* ===== verification/Metrics.thy ===== *)
theory Metrics
  imports Telemetry
begin

text \<open>
  Metrics: the Prometheus instruments of \<open>platform/k8s/metrics/metrics.go\<close> and the OTLP
  instruments of \<open>core/metrics/metrics.go\<close>. Recording is a list of metric operations on
  the trace; the OTLP ones happen only after \<open>Init\<close> has stored its instruments
  (\<open>active\<close>, here \<open>otlp_active\<close>). Observed values are kept as the \<open>time.Duration\<close>
  whose \<open>Seconds()\<close> the code passes on.
\<close>

section \<open>Instruments\<close>

fun prom_name :: "instrument \<Rightarrow> string" where
  "prom_name ReconciliationsTotal = ''muto_reconciliations_total''"
| "prom_name ReconciliationDuration = ''muto_reconciliation_duration_seconds''"
| "prom_name JobsTotal = ''muto_jobs_total''"
| "prom_name JobDuration = ''muto_job_duration_seconds''"
| "prom_name AgentsRunning = ''muto_agents_running''"
| "prom_name JobQueueDepth = ''muto_job_queue_depth''"

fun prom_labels :: "instrument \<Rightarrow> string list" where
  "prom_labels ReconciliationsTotal = [''reconciler'', ''result'']"
| "prom_labels ReconciliationDuration = [''reconciler'']"
| "prom_labels JobsTotal = [''tenant'', ''status'']"
| "prom_labels JobDuration = [''tenant'', ''status'']"
| "prom_labels AgentsRunning = [''tenant'']"
| "prom_labels JobQueueDepth = [''tenant'']"

text \<open>Bucket boundaries, in milliseconds\<close>

fun prom_buckets :: "instrument \<Rightarrow> nat list" where
  "prom_buckets ReconciliationDuration = [1, 5, 10, 50, 100, 500, 1000, 5000, 10000]"
| "prom_buckets JobDuration = [1000, 5000, 15000, 30000, 60000, 300000, 900000, 3600000]"
| "prom_buckets _ = []"

fun otlp_name :: "instrument \<Rightarrow> string" where
  "otlp_name ReconciliationsTotal = ''muto.reconciliations.total''"
| "otlp_name ReconciliationDuration = ''muto.reconciliation.duration''"
| "otlp_name JobsTotal = ''muto.jobs.total''"
| "otlp_name JobDuration = ''muto.job.duration''"
| "otlp_name AgentsRunning = ''muto.agents.running''"
| "otlp_name JobQueueDepth = ''muto.job.queue_depth''"

fun otlp_buckets :: "instrument \<Rightarrow> nat list" where
  "otlp_buckets ReconciliationDuration = [1, 5, 10, 50, 100, 500, 1000, 5000, 10000]"
| "otlp_buckets JobDuration = [1000, 5000, 15000, 30000, 60000, 300000, 900000, 3600000]"
| "otlp_buckets _ = []"

section \<open>core/metrics\<close>

definition RecordReconcile ::
    "string \<Rightarrow> string \<Rightarrow> int64 \<Rightarrow> ('w, 'c) io_state \<Rightarrow> ('w, 'c) io_state" where
  "RecordReconcile reconciler status duration s =
     (if \<not> otlp_active s then s
      else emit (Otlp (CounterInc ReconciliationsTotal [reconciler, status]))
             (emit (Otlp (Observe ReconciliationDuration [reconciler] duration)) s))"

definition RecordJobStarted ::
    "string \<Rightarrow> int32 \<Rightarrow> ('w, 'c) io_state \<Rightarrow> ('w, 'c) io_state" where
  "RecordJobStarted tenant agentCount s =
     (if \<not> otlp_active s then s
      else emit (Otlp (GaugeAdd JobQueueDepth [tenant] 1))
             (emit (Otlp (GaugeAdd AgentsRunning [tenant] (sint (scast agentCount :: int64)))) s))"

definition RecordJobFinished ::
    "string \<Rightarrow> string \<Rightarrow> int64 \<Rightarrow> bool \<Rightarrow> int32 \<Rightarrow> ('w, 'c) io_state \<Rightarrow> ('w, 'c) io_state" where
  "RecordJobFinished tenant status duration hasDuration activeAgents s =
     (if \<not> otlp_active s then s
      else
        let s1 = emit (Otlp (CounterInc JobsTotal [tenant, status])) s;
            s2 = (if hasDuration
                  then emit (Otlp (Observe JobDuration [tenant, status] duration)) s1 else s1);
            s3 = emit (Otlp (GaugeAdd AgentsRunning [tenant]
                              (sint (- (scast activeAgents :: int64))))) s2
        in emit (Otlp (GaugeAdd JobQueueDepth [tenant] (- 1))) s3)"

section \<open>platform/k8s/metrics\<close>

definition ObserveReconcile ::
    "'w os \<Rightarrow> string \<Rightarrow> (('w, 'c) io_state \<Rightarrow> 'a res \<times> ('w, 'c) io_state)
     \<Rightarrow> ('w, 'c) io_state \<Rightarrow> 'a res \<times> ('w, 'c) io_state" where
  "ObserveReconcile os reconciler fn s =
     (let (start, s1) = now os s;
          (result, s2) = fn s1;
          (end, s3) = now os s2;
          duration = time_sub end start;
          s4 = emit (Prom (Observe ReconciliationDuration [reconciler] duration)) s3;
          status = (case result of Inr _ \<Rightarrow> ''success'' | Inl _ \<Rightarrow> ''error'');
          s5 = emit (Prom (CounterInc ReconciliationsTotal [reconciler, status])) s4
      in (result, RecordReconcile reconciler status duration s5))"

definition JobStarted :: "string \<Rightarrow> int32 \<Rightarrow> ('w, 'c) io_state \<Rightarrow> ('w, 'c) io_state" where
  "JobStarted tenant agentCount s =
     (let s1 = emit (Prom (GaugeAdd AgentsRunning [tenant] (sint agentCount))) s;
          s2 = emit (Prom (GaugeAdd JobQueueDepth [tenant] 1)) s1
      in RecordJobStarted tenant agentCount s2)"

definition JobFinished ::
    "'w os \<Rightarrow> string \<Rightarrow> string \<Rightarrow> instant \<Rightarrow> int32 \<Rightarrow> ('w, 'c) io_state \<Rightarrow> ('w, 'c) io_state" where
  "JobFinished os tenant status startedAt activeAgents s =
     (let s1 = emit (Prom (CounterInc JobsTotal [tenant, status])) s;
          hasDuration = (startedAt \<noteq> zero_time);
          (duration, s2) =
            (if hasDuration then
               (let (t, s') = now os s1; d = time_sub t startedAt
                in (d, emit (Prom (Observe JobDuration [tenant, status] d)) s'))
             else (0, s1));
          s3 = emit (Prom (GaugeAdd AgentsRunning [tenant] (- sint activeAgents))) s2;
          s4 = emit (Prom (GaugeAdd JobQueueDepth [tenant] (- 1))) s3
      in RecordJobFinished tenant status duration hasDuration activeAgents s4)"

section \<open>What the operations record\<close>

fun prom_ops :: "'c effect list \<Rightarrow> metric_op list" where
  "prom_ops [] = []"
| "prom_ops (Prom m # es) = m # prom_ops es"
| "prom_ops (_ # es) = prom_ops es"

fun otlp_ops :: "'c effect list \<Rightarrow> metric_op list" where
  "otlp_ops [] = []"
| "otlp_ops (Otlp m # es) = m # otlp_ops es"
| "otlp_ops (_ # es) = otlp_ops es"

text \<open>The value of a gauge: the sum of the changes made to it\<close>

fun gauge :: "instrument \<Rightarrow> string list \<Rightarrow> metric_op list \<Rightarrow> int" where
  "gauge i ls [] = 0"
| "gauge i ls (m # ms) =
     (case m of GaugeAdd j ks d \<Rightarrow> (if j = i \<and> ks = ls then d else 0) | _ \<Rightarrow> 0) + gauge i ls ms"

lemma prom_ops_append [simp]: "prom_ops (xs @ ys) = prom_ops xs @ prom_ops ys"
  by (induction xs rule: prom_ops.induct) auto

lemma otlp_ops_append [simp]: "otlp_ops (xs @ ys) = otlp_ops xs @ otlp_ops ys"
  by (induction xs rule: otlp_ops.induct) auto

lemma gauge_append [simp]: "gauge i ls (xs @ ys) = gauge i ls xs + gauge i ls ys"
  by (induction xs) auto

lemma sint_scast_int32: "sint (scast (a :: int32) :: int64) = sint a"
proof -
  have "- 2147483648 \<le> sint a" "sint a < 2147483648" using sint32_bounds [of a] by simp_all
  then show ?thesis unfolding scast_eq by (intro sint_word_of_int64) simp_all
qed

lemma sint_minus_scast_int32: "sint (- (scast (a :: int32)) :: int64) = - sint a"
proof -
  have *: "- (scast a) = (word_of_int (- sint a) :: int64)" unfolding scast_eq of_int_minus ..
  have "- 2147483648 \<le> sint a" "sint a < 2147483648" using sint32_bounds [of a] by simp_all
  then show ?thesis unfolding * by (intro sint_word_of_int64) simp_all
qed

text \<open>
  \<open>mirrored\<close>: every operation on a Prometheus instrument has its OTLP twin, in the same
  order and with the same labels and value.
\<close>

definition mirrored :: "('w, 'c) io_state \<Rightarrow> bool" where
  "mirrored s \<longleftrightarrow> otlp_active s \<and> otlp_ops (trace s) = prom_ops (trace s)"

lemma mirrored_emit [simp]:
  "\<forall>m. e \<noteq> Prom m \<and> e \<noteq> Otlp m \<Longrightarrow> mirrored (emit e s) = mirrored s"
  by (cases e) (auto simp: mirrored_def)

lemma mirrored_api: "api c f s = (r, s') \<Longrightarrow> mirrored s' = mirrored s"
  by (simp add: mirrored_def api_trace api_active)

lemma mirrored_api_err: "api_err c f s = (r, s') \<Longrightarrow> mirrored s' = mirrored s"
  by (simp add: mirrored_def api_err_trace api_err_active)

lemma mirrored_now: "now os s = (t, s') \<Longrightarrow> mirrored s' = mirrored s"
  by (simp add: mirrored_def now_trace now_active)

lemma mirrored_JobStarted: "mirrored s \<Longrightarrow> mirrored (JobStarted tenant n s)"
  by (simp add: mirrored_def JobStarted_def RecordJobStarted_def sint_scast_int32)

lemma mirrored_JobFinished:
  "mirrored s \<Longrightarrow> mirrored (JobFinished os tenant status startedAt n s)"
  by (auto simp: mirrored_def JobFinished_def RecordJobFinished_def sint_minus_scast_int32
      Let_def now_def split: prod.splits)

lemma mirrored_ObserveReconcile:
  assumes "\<And>s r s'. mirrored s \<Longrightarrow> fn s = (r, s') \<Longrightarrow> mirrored s'"
    and "mirrored s" and "ObserveReconcile os name fn s = (r, s')"
  shows "mirrored s'"
proof -
  obtain t1 s1 where 1: "now os s = (t1, s1)" by fastforce
  obtain x s2 where 2: "fn s1 = (x, s2)" by fastforce
  obtain t2 s3 where 3: "now os s2 = (t2, s3)" by fastforce
  from 1 assms(2) have "mirrored s1" by (simp add: mirrored_now)
  with 2 have "mirrored s2" by (rule assms(1) [rotated])
  with 3 have "mirrored s3" by (simp add: mirrored_now)
  then show ?thesis
    using assms(3)
    by (auto simp: ObserveReconcile_def Let_def 1 2 3 mirrored_def RecordReconcile_def)
qed

text \<open>Without instruments, nothing is recorded on the OTLP side.\<close>

lemma inactive_records_nothing:
  assumes "\<not> otlp_active s"
  shows "RecordReconcile a b d s = s" "RecordJobStarted a n s = s"
    "RecordJobFinished a b d h n s = s"
  using assms by (simp_all add: RecordReconcile_def RecordJobStarted_def RecordJobFinished_def)

lemma prom_ops_JobStarted:
  "prom_ops (trace (JobStarted t n s)) =
     prom_ops (trace s) @ [GaugeAdd AgentsRunning [t] (sint n), GaugeAdd JobQueueDepth [t] 1]"
  by (simp add: JobStarted_def RecordJobStarted_def Let_def)

lemma prom_ops_JobFinished:
  "\<exists>obs. (\<forall>m\<in>set obs. \<exists>d. m = Observe JobDuration [t, status] d) \<and>
     prom_ops (trace (JobFinished os t status st n s)) = prom_ops (trace s)
       @ [CounterInc JobsTotal [t, status]] @ obs
       @ [GaugeAdd AgentsRunning [t] (- sint n), GaugeAdd JobQueueDepth [t] (- 1)]"
  by (cases "st = zero_time"; cases "os_now os (world s)")
     (auto simp: JobFinished_def RecordJobFinished_def now_def Let_def emit_def)

lemma gauge_no_gauge_ops:
  "\<forall>m\<in>set ms. \<exists>d. m = Observe JobDuration ls d \<Longrightarrow> gauge i ks ms = 0"
  by (induction ms) auto

text \<open>\<open>ObserveReconcile\<close> returns what it runs returns, and counts the call once.\<close>

lemma ObserveReconcileE:
  assumes "ObserveReconcile os name fn s = (r, s')"
  obtains t1 s1 s2 t2 s3 where "now os s = (t1, s1)" and "fn s1 = (r, s2)" and "now os s2 = (t2, s3)"
    and "prom_ops (trace s') = prom_ops (trace s3)
      @ [Observe ReconciliationDuration [name] (time_sub t2 t1),
         CounterInc ReconciliationsTotal [name, case r of Inl _ \<Rightarrow> ''error'' | Inr _ \<Rightarrow> ''success'']]"
proof -
  obtain t1 s1 where 1: "now os s = (t1, s1)" by fastforce
  obtain x s2 where 2: "fn s1 = (x, s2)" by fastforce
  obtain t2 s3 where 3: "now os s2 = (t2, s3)" by fastforce
  show ?thesis
    using assms that [OF 1 _ 3]
    by (auto simp: ObserveReconcile_def Let_def 1 2 3 RecordReconcile_def split: sum.splits)
qed

text \<open>The result labels under which the reconciliations of a controller were counted, in order\<close>

fun reconcile_results :: "string \<Rightarrow> metric_op list \<Rightarrow> string list" where
  "reconcile_results name [] = []"
| "reconcile_results name (m # ms) =
     (case m of CounterInc ReconciliationsTotal [n, result] \<Rightarrow> (if n = name then [result] else [])
      | _ \<Rightarrow> []) @ reconcile_results name ms"

lemma reconcile_results_append [simp]:
  "reconcile_results n (xs @ ys) = reconcile_results n xs @ reconcile_results n ys"
  by (induction xs) auto

text \<open>Recording is seen in the trace only.\<close>

lemma world_metrics [simp]:
  "world (JobStarted t n s) = world s" "world (RecordJobFinished t st d h n s) = world s"
  "world (RecordReconcile a b d s) = world s"
  by (simp_all add: JobStarted_def RecordJobStarted_def RecordJobFinished_def RecordReconcile_def Let_def)

end
