(* ===== verification/Kube_Client.thy ===== *)
theory Kube_Client
  imports K8s_Types Platform_Adapter Metrics
begin

text \<open>
  The Kubernetes client (\<open>client.Client\<close> of controller-runtime) as a parameter: one function
  for each request the operator makes, over an abstract world. A request that writes an
  object back returns the server's version of it, which is what the pointer then holds.
  \<open>kube_call\<close> is what the trace records of a request. \<open>ctrl_lib\<close> holds the library's pure
  functions on object metadata, parameters as well.
\<close>

type_synonym key = "string \<times> string"

datatype kobj =
    OJob AgentJob | OFleet AgentFleet | OTenant KTenant | OPod Pod
  | OSecret Secret | ODeployment Deployment | OService Service | ONamespace Namespace

datatype kkind = JobK | FleetK | TenantK | PodK | SecretK | DeploymentK | ServiceK | NamespaceK

text \<open>Keys are a namespace and a name; cluster-scoped objects have the namespace \<open>''''\<close>.\<close>

definition meta_key :: "ObjectMeta \<Rightarrow> key" where
  "meta_key m = (om_Namespace m, om_Name m)"

fun obj_key :: "kobj \<Rightarrow> kkind \<times> key" where
  "obj_key (OJob j) = (JobK, meta_key (aj_Meta j))"
| "obj_key (OFleet f) = (FleetK, meta_key (af_Meta f))"
| "obj_key (OTenant t) = (TenantK, meta_key (kt_Meta t))"
| "obj_key (OPod p) = (PodK, meta_key (pod_Meta p))"
| "obj_key (OSecret s) = (SecretK, meta_key (sec_Meta s))"
| "obj_key (ODeployment d) = (DeploymentK, meta_key (dep_Meta d))"
| "obj_key (OService s) = (ServiceK, meta_key (svc_Meta s))"
| "obj_key (ONamespace n) = (NamespaceK, meta_key (ns_Meta n))"

datatype kube_call =
    KGet kkind key
  | KListPods string "string \<times> string"
  | KCreate kobj
  | KDelete kobj
  | KUpdate kobj
  | KStatusUpdate kobj

record 'w kclient =
  kc_GetJob :: "key \<Rightarrow> 'w \<Rightarrow> AgentJob res \<times> 'w"
  kc_GetFleet :: "key \<Rightarrow> 'w \<Rightarrow> AgentFleet res \<times> 'w"
  kc_GetTenant :: "key \<Rightarrow> 'w \<Rightarrow> KTenant res \<times> 'w"
  kc_GetSecret :: "key \<Rightarrow> 'w \<Rightarrow> Secret res \<times> 'w"
  kc_GetDeployment :: "key \<Rightarrow> 'w \<Rightarrow> Deployment res \<times> 'w"
  kc_GetService :: "key \<Rightarrow> 'w \<Rightarrow> Service res \<times> 'w"
  kc_GetNamespace :: "key \<Rightarrow> 'w \<Rightarrow> Namespace res \<times> 'w"
  kc_GetPod :: "key \<Rightarrow> 'w \<Rightarrow> Pod res \<times> 'w"
  kc_ListPods :: "string \<Rightarrow> string \<times> string \<Rightarrow> 'w \<Rightarrow> Pod list res \<times> 'w"
  kc_Create :: "kobj \<Rightarrow> 'w \<Rightarrow> goerror option \<times> 'w"
  kc_Delete :: "kobj \<Rightarrow> 'w \<Rightarrow> goerror option \<times> 'w"
  kc_UpdateTenant :: "KTenant \<Rightarrow> 'w \<Rightarrow> KTenant res \<times> 'w"
  kc_StatusUpdateJob :: "AgentJob \<Rightarrow> 'w \<Rightarrow> AgentJob res \<times> 'w"
  kc_StatusUpdateFleet :: "AgentFleet \<Rightarrow> 'w \<Rightarrow> AgentFleet res \<times> 'w"
  kc_StatusUpdateTenant :: "KTenant \<Rightarrow> 'w \<Rightarrow> KTenant res \<times> 'w"

record ctrl_lib =
  cl_NewControllerRef :: "ObjectMeta \<Rightarrow> string \<Rightarrow> OwnerReference"
  cl_ContainsFinalizer :: "ObjectMeta \<Rightarrow> string \<Rightarrow> bool"
  cl_AddFinalizer :: "ObjectMeta \<Rightarrow> string \<Rightarrow> ObjectMeta"
  cl_RemoveFinalizer :: "ObjectMeta \<Rightarrow> string \<Rightarrow> ObjectMeta"

type_synonym 'w kstate = "('w, kube_call) io_state"

text \<open>The requests, each with its trace entry\<close>

abbreviation k_GetJob :: "'w kclient \<Rightarrow> key \<Rightarrow> 'w kstate \<Rightarrow> AgentJob res \<times> 'w kstate" where
  "k_GetJob kc k \<equiv> api (KGet JobK k) (kc_GetJob kc k)"
abbreviation k_GetFleet :: "'w kclient \<Rightarrow> key \<Rightarrow> 'w kstate \<Rightarrow> AgentFleet res \<times> 'w kstate" where
  "k_GetFleet kc k \<equiv> api (KGet FleetK k) (kc_GetFleet kc k)"
abbreviation k_GetTenant :: "'w kclient \<Rightarrow> key \<Rightarrow> 'w kstate \<Rightarrow> KTenant res \<times> 'w kstate" where
  "k_GetTenant kc k \<equiv> api (KGet TenantK k) (kc_GetTenant kc k)"
abbreviation k_GetSecret :: "'w kclient \<Rightarrow> key \<Rightarrow> 'w kstate \<Rightarrow> Secret res \<times> 'w kstate" where
  "k_GetSecret kc k \<equiv> api (KGet SecretK k) (kc_GetSecret kc k)"
abbreviation k_GetDeployment :: "'w kclient \<Rightarrow> key \<Rightarrow> 'w kstate \<Rightarrow> Deployment res \<times> 'w kstate" where
  "k_GetDeployment kc k \<equiv> api (KGet DeploymentK k) (kc_GetDeployment kc k)"
abbreviation k_GetService :: "'w kclient \<Rightarrow> key \<Rightarrow> 'w kstate \<Rightarrow> Service res \<times> 'w kstate" where
  "k_GetService kc k \<equiv> api (KGet ServiceK k) (kc_GetService kc k)"
abbreviation k_GetNamespace :: "'w kclient \<Rightarrow> key \<Rightarrow> 'w kstate \<Rightarrow> Namespace res \<times> 'w kstate" where
  "k_GetNamespace kc k \<equiv> api (KGet NamespaceK k) (kc_GetNamespace kc k)"
abbreviation k_GetPod :: "'w kclient \<Rightarrow> key \<Rightarrow> 'w kstate \<Rightarrow> Pod res \<times> 'w kstate" where
  "k_GetPod kc k \<equiv> api (KGet PodK k) (kc_GetPod kc k)"
abbreviation k_ListPods ::
    "'w kclient \<Rightarrow> string \<Rightarrow> string \<times> string \<Rightarrow> 'w kstate \<Rightarrow> Pod list res \<times> 'w kstate" where
  "k_ListPods kc ns lb \<equiv> api (KListPods ns lb) (kc_ListPods kc ns lb)"
abbreviation k_Create :: "'w kclient \<Rightarrow> kobj \<Rightarrow> 'w kstate \<Rightarrow> goerror option \<times> 'w kstate" where
  "k_Create kc ob \<equiv> api_err (KCreate ob) (kc_Create kc ob)"
abbreviation k_Delete :: "'w kclient \<Rightarrow> kobj \<Rightarrow> 'w kstate \<Rightarrow> goerror option \<times> 'w kstate" where
  "k_Delete kc ob \<equiv> api_err (KDelete ob) (kc_Delete kc ob)"
abbreviation k_UpdateTenant :: "'w kclient \<Rightarrow> KTenant \<Rightarrow> 'w kstate \<Rightarrow> KTenant res \<times> 'w kstate" where
  "k_UpdateTenant kc t \<equiv> api (KUpdate (OTenant t)) (kc_UpdateTenant kc t)"
abbreviation k_StatusUpdateJob :: "'w kclient \<Rightarrow> AgentJob \<Rightarrow> 'w kstate \<Rightarrow> AgentJob res \<times> 'w kstate" where
  "k_StatusUpdateJob kc j \<equiv> api (KStatusUpdate (OJob j)) (kc_StatusUpdateJob kc j)"
abbreviation k_StatusUpdateFleet ::
    "'w kclient \<Rightarrow> AgentFleet \<Rightarrow> 'w kstate \<Rightarrow> AgentFleet res \<times> 'w kstate" where
  "k_StatusUpdateFleet kc f \<equiv> api (KStatusUpdate (OFleet f)) (kc_StatusUpdateFleet kc f)"
abbreviation k_StatusUpdateTenant ::
    "'w kclient \<Rightarrow> KTenant \<Rightarrow> 'w kstate \<Rightarrow> KTenant res \<times> 'w kstate" where
  "k_StatusUpdateTenant kc t \<equiv> api (KStatusUpdate (OTenant t)) (kc_StatusUpdateTenant kc t)"

text \<open>A server that has no object and accepts no write, the base of concrete instances\<close>

definition no_object :: goerror where
  "no_object = Leaf KNotFound ''not found''"

definition bare_client :: "'w kclient" where
  "bare_client =
     \<lparr>kc_GetJob = (\<lambda>k w. (Inl no_object, w)), kc_GetFleet = (\<lambda>k w. (Inl no_object, w)),
      kc_GetTenant = (\<lambda>k w. (Inl no_object, w)), kc_GetSecret = (\<lambda>k w. (Inl no_object, w)),
      kc_GetDeployment = (\<lambda>k w. (Inl no_object, w)), kc_GetService = (\<lambda>k w. (Inl no_object, w)),
      kc_GetNamespace = (\<lambda>k w. (Inl no_object, w)), kc_GetPod = (\<lambda>k w. (Inl no_object, w)),
      kc_ListPods = (\<lambda>ns l w. (Inr [], w)),
      kc_Create = (\<lambda>ob w. (Some (Errorf ''read only''), w)),
      kc_Delete = (\<lambda>ob w. (Some no_object, w)),
      kc_UpdateTenant = (\<lambda>t w. (Inl no_object, w)),
      kc_StatusUpdateJob = (\<lambda>j w. (Inl no_object, w)),
      kc_StatusUpdateFleet = (\<lambda>f w. (Inl no_object, w)),
      kc_StatusUpdateTenant = (\<lambda>t w. (Inl no_object, w))\<rparr>"

section \<open>Results of a reconciliation\<close>

text \<open>\<open>ctrl.Result\<close>: the requeue delay, zero when there is none\<close>

type_synonym Result = int64

section \<open>Reading the trace\<close>

text \<open>The status updates of jobs a trace holds\<close>

fun job_updates :: "kube_call effect list \<Rightarrow> AgentJob list" where
  "job_updates [] = []"
| "job_updates (Call (KStatusUpdate (OJob j)) e # es) = j # job_updates es"
| "job_updates (_ # es) = job_updates es"

lemma job_updates_append [simp]: "job_updates (xs @ ys) = job_updates xs @ job_updates ys"
  by (induction xs rule: job_updates.induct) auto

text \<open>Recording metrics makes no request.\<close>

lemma calls_metrics [simp]:
  "calls (trace (JobStarted t n s)) = calls (trace s)"
  "calls (trace (JobFinished os t st at n s)) = calls (trace s)"
  "calls (trace (RecordReconcile a b d s)) = calls (trace s)"
  by (auto simp: JobStarted_def RecordJobStarted_def JobFinished_def RecordJobFinished_def
      RecordReconcile_def Let_def now_def split: prod.splits)

lemma job_updates_metrics [simp]:
  "job_updates (trace (JobStarted t n s)) = job_updates (trace s)"
  "job_updates (trace (JobFinished os t st at n s)) = job_updates (trace s)"
  "job_updates (trace (RecordReconcile a b d s)) = job_updates (trace s)"
  by (auto simp: JobStarted_def RecordJobStarted_def JobFinished_def RecordJobFinished_def
      RecordReconcile_def Let_def now_def split: prod.splits)

end
