(* ===== verification/K8s_Adapter.thy ===== *)
theory K8s_Adapter
  imports Kube_Client Scheduler
begin

text \<open>
  \<open>platform/k8s/adapter.go\<close>: agents as pods. \<open>WatchAgent\<close>'s goroutine is a function of the turns of its
  loop: in each it gets the pod of its agent from the cluster as it is by then. The adapter keeps
  the promises of \<open>platform_adapter\<close> for any client and namespace.
\<close>

section \<open>Spawning and terminating\<close>

definition k8s_pod_name :: "string \<Rightarrow> string \<Rightarrow> string" where
  "k8s_pod_name tenantRef role = ''muto-'' @ tenantRef @ ''-'' @ role"

definition k8s_pod :: "string \<Rightarrow> string \<Rightarrow> AgentRole \<Rightarrow> Pod" where
  "k8s_pod namespace tenantRef role =
     \<lparr>pod_Meta = zero_ObjectMeta
        \<lparr>om_Name := k8s_pod_name tenantRef (ar_Role role),
         om_Namespace := namespace,
         om_Labels := [''muto.io/tenant'' \<mapsto> tenantRef, ''muto.io/role'' \<mapsto> ar_Role role]\<rparr>,
      pod_Spec = \<lparr>ps_Containers =
          [zero_Container\<lparr>ct_Name := ar_Role role, ct_Image := ar_Image role,
             ct_Env := [env_var ''MUTO_TENANT'' tenantRef, env_var ''MUTO_ROLE'' (ar_Role role)]\<rparr>],
        ps_RestartPolicy = RestartPolicyNever\<rparr>,
      pod_Phase = []\<rparr>"

definition K8s_SpawnAgent ::
    "'w kclient \<Rightarrow> string \<Rightarrow> Spec \<Rightarrow> 'w kstate \<Rightarrow> string res \<times> 'w kstate" where
  "K8s_SpawnAgent kc namespace spec s =
     (case sp_Agents spec of
        [] \<Rightarrow> (Inl (Errorf ''no agents in spec''), s)
      | role # _ \<Rightarrow>
          (let pod = k8s_pod namespace (sp_TenantRef spec) role in
           case k_Create kc (OPod pod) s of
             (Some err, s1) \<Rightarrow> (Inl (Wrapped ''create pod: '' err), s1)
           | (None, s1) \<Rightarrow> (Inr (k8s_pod_name (sp_TenantRef spec) (ar_Role role)), s1)))"

definition K8s_TerminateAgent ::
    "'w kclient \<Rightarrow> string \<Rightarrow> string \<Rightarrow> 'w kstate \<Rightarrow> goerror option \<times> 'w kstate" where
  "K8s_TerminateAgent kc namespace agentID s =
     k_Delete kc (OPod (zero_Pod\<lparr>pod_Meta :=
       zero_ObjectMeta\<lparr>om_Name := agentID, om_Namespace := namespace\<rparr>\<rparr>)) s"

section \<open>Watching\<close>

type_synonym 'w k8s_turn = "('w, kube_call) turn"

definition agent_event :: "string \<Rightarrow> EventType \<Rightarrow> Event" where
  "agent_event agentID t = \<lparr>ev_AgentID = agentID, ev_Type = t, ev_Message = []\<rparr>"

definition send_unless :: "bool \<Rightarrow> Event \<Rightarrow> Event list" where
  "send_unless done ev = (if done then [] else [ev])"

text \<open>The loop: \<open>a.client.Get(ctx, client.ObjectKey{Name: agentID, Namespace: a.namespace}, pod)\<close> first\<close>

fun k8s_watch :: "'w kclient \<Rightarrow> string \<Rightarrow> string \<Rightarrow> 'w k8s_turn watchproc" where
  "k8s_watch kc namespace agentID [] = ([], False)"
| "k8s_watch kc namespace agentID (p # ps) =
     (case fst (k_GetPod kc (namespace, agentID) (turn_state p)) of
        Inl err \<Rightarrow>
          (if IsNotFound err then (send_unless (turn_done p) (agent_event agentID EventFailed), True)
           else if \<not> turn_cancelled p then
             (if turn_done p then ([], True) else k8s_watch kc namespace agentID ps)
           else ([], True))
      | Inr pod \<Rightarrow>
          (if pod_Phase pod = PodSucceeded
           then (send_unless (turn_done p) (agent_event agentID EventCompleted), True)
           else if pod_Phase pod = PodFailed
           then (send_unless (turn_done p) (agent_event agentID EventFailed), True)
           else if turn_done p then ([], True)
           else k8s_watch kc namespace agentID ps))"

definition K8s_WatchAgent ::
    "'w kclient \<Rightarrow> string \<Rightarrow> nat \<Rightarrow> string \<Rightarrow> 'w kstate \<Rightarrow> 'w k8s_turn watchproc res \<times> 'w kstate" where
  "K8s_WatchAgent kc namespace ctx agentID s = (Inr (k8s_watch kc namespace agentID), s)"

definition NewK8sAdapter :: "'w kclient \<Rightarrow> string \<Rightarrow> ('w, kube_call, 'w k8s_turn) adapter" where
  "NewK8sAdapter kc namespace =
     \<lparr>pa_SpawnAgent = K8s_SpawnAgent kc namespace,
      pa_TerminateAgent = K8s_TerminateAgent kc namespace,
      pa_WatchAgent = K8s_WatchAgent kc namespace\<rparr>"

lemma NewK8sAdapter_sels [simp]:
  "pa_SpawnAgent (NewK8sAdapter kc ns) = K8s_SpawnAgent kc ns"
  "pa_TerminateAgent (NewK8sAdapter kc ns) = K8s_TerminateAgent kc ns"
  "pa_WatchAgent (NewK8sAdapter kc ns) = K8s_WatchAgent kc ns"
  by (simp_all add: NewK8sAdapter_def)

section \<open>The adapter keeps the interface's promises\<close>

lemma agent_event_sels [simp]:
  "ev_AgentID (agent_event a t) = a" "ev_Type (agent_event a t) = t"
  by (simp_all add: agent_event_def)

lemma k8s_watch_events:
  "fst (k8s_watch kc ns a ps) = [] \<or>
     snd (k8s_watch kc ns a ps) \<and> (fst (k8s_watch kc ns a ps) = [agent_event a EventCompleted]
       \<or> fst (k8s_watch kc ns a ps) = [agent_event a EventFailed])"
  by (induction kc ns a ps rule: k8s_watch.induct) (auto simp: send_unless_def split: sum.splits)

lemma k8s_watch_closed: "snd (k8s_watch kc ns a ps) \<Longrightarrow> k8s_watch kc ns a (ps @ qs) = k8s_watch kc ns a ps"
  by (induction kc ns a ps rule: k8s_watch.induct) (auto split: sum.splits)

lemma k8s_watch_one_shot: "one_shot a (k8s_watch kc ns a)"
  unfolding one_shot_def
proof
  fix ps
  show "length (fst (k8s_watch kc ns a ps)) \<le> 1
      \<and> (\<forall>e\<in>set (fst (k8s_watch kc ns a ps)). ev_AgentID e = a \<and> terminal_event e)
      \<and> (fst (k8s_watch kc ns a ps) \<noteq> [] \<longrightarrow> snd (k8s_watch kc ns a ps))
      \<and> (\<forall>qs. snd (k8s_watch kc ns a ps) \<longrightarrow> k8s_watch kc ns a (ps @ qs) = k8s_watch kc ns a ps)"
    using k8s_watch_events [of kc ns a ps] k8s_watch_closed by (auto simp: terminal_event_def)
qed

lemma K8s_SpawnAgent_appending: "appending (K8s_SpawnAgent kc ns spec)"
proof (cases "sp_Agents spec")
  case Nil
  then show ?thesis by (simp add: K8s_SpawnAgent_def [abs_def])
next
  case (Cons role roles)
  have eq: "K8s_SpawnAgent kc ns spec =
    (\<lambda>s. case k_Create kc (OPod (k8s_pod ns (sp_TenantRef spec) role)) s of (e, s1) \<Rightarrow>
      (case e of Some err \<Rightarrow> Inl (Wrapped ''create pod: '' err)
       | None \<Rightarrow> Inr (k8s_pod_name (sp_TenantRef spec) (ar_Role role)), s1))"
    by (rule ext) (simp add: K8s_SpawnAgent_def Cons Let_def split: option.splits prod.splits)
  show ?thesis unfolding eq by (intro appending_post appending_api_err)
qed

lemma K8s_SpawnAgent_keeps_ctx: "keeps_ctx (K8s_SpawnAgent kc ns spec)"
  by (rule keeps_ctxI)
     (auto simp: K8s_SpawnAgent_def Let_def api_err_def split: list.splits option.splits prod.splits)

interpretation k8s: traced_platform_adapter "NewK8sAdapter kc ns" for kc ns
proof
  fix spec :: Spec and s
  assume "sp_Agents spec = []"
  then show "\<exists>e s'. pa_SpawnAgent (NewK8sAdapter kc ns) spec s = (Inl e, s') \<and> world s' = world s"
    by (simp add: K8s_SpawnAgent_def)
next
  fix c agent s h s'
  assume "pa_WatchAgent (NewK8sAdapter kc ns) c agent s = (Inr h, s')"
  then show "one_shot agent h" by (auto simp: K8s_WatchAgent_def k8s_watch_one_shot)
qed (simp_all add: K8s_WatchAgent_def [abs_def] K8s_TerminateAgent_def [abs_def]
    K8s_SpawnAgent_appending K8s_SpawnAgent_keeps_ctx)

text \<open>The adapter of a client and a namespace, traced or not\<close>

definition k8s_adapter :: "'w kclient \<Rightarrow> string \<Rightarrow> ('w, kube_call, 'w k8s_turn) adapter \<Rightarrow> bool" where
  "k8s_adapter kc ns A \<longleftrightarrow> A = NewK8sAdapter kc ns \<or> A = WrapPlatformAdapter (NewK8sAdapter kc ns)"

lemma k8s_adapterI [simp]:
  "k8s_adapter kc ns (NewK8sAdapter kc ns)" "k8s_adapter kc ns (WrapPlatformAdapter (NewK8sAdapter kc ns))"
  by (simp_all add: k8s_adapter_def)

text \<open>Spawning an agent makes one request, to create its pod.\<close>

lemma k8s_spawn:
  assumes "k8s_adapter kc ns A" and "sp_Agents spec = role # rest" and "pa_SpawnAgent A spec s = (x, s')"
  obtains e where "kc_Create kc (OPod (k8s_pod ns (sp_TenantRef spec) role)) (world s) = (e, world s')"
    and "calls (trace s') = calls (trace s) @ [(KCreate (OPod (k8s_pod ns (sp_TenantRef spec) role)), e)]"
    and "x = (case e of Some err \<Rightarrow> Inl (Wrapped ''create pod: '' err)
              | None \<Rightarrow> Inr (k8s_pod_name (sp_TenantRef spec) (ar_Role role)))"
proof -
  let ?ob = "OPod (k8s_pod ns (sp_TenantRef spec) role)"
  obtain e w where 1: "kc_Create kc ?ob (world s) = (e, w)" by fastforce
  with assms have "world s' = w \<and> calls (trace s') = calls (trace s) @ [(KCreate ?ob, e)]
      \<and> x = (case e of Some err \<Rightarrow> Inl (Wrapped ''create pod: '' err)
              | None \<Rightarrow> Inr (k8s_pod_name (sp_TenantRef spec) (ar_Role role)))"
    by (auto simp: k8s_adapter_def K8s_SpawnAgent_def Let_def api_err_def WrapWith_def split: option.splits)
  with 1 that show thesis by blast
qed

lemma k8s_spawn_all:
  assumes "k8s_adapter kc ns A"
  shows "spawn_all A t roles s = (Inr ids, s') \<Longrightarrow> ids = map (\<lambda>r. k8s_pod_name t (ar_Role r)) roles
    \<and> calls (trace s') = calls (trace s) @ map (\<lambda>r. (KCreate (OPod (k8s_pod ns t r)), None)) roles"
proof (induction roles arbitrary: s ids s')
  case (Cons role roles)
  obtain x s1 where 1: "pa_SpawnAgent A (role_spec t role) s = (x, s1)" by fastforce
  have spec: "sp_Agents (role_spec t role) = [role]" "sp_TenantRef (role_spec t role) = t" by (simp_all add: role_spec_def)
  obtain e where
    e: "calls (trace s1) = calls (trace s) @ [(KCreate (OPod (k8s_pod ns t role)), e)]"
    "x = (case e of Some err \<Rightarrow> Inl (Wrapped ''create pod: '' err) | None \<Rightarrow> Inr (k8s_pod_name t (ar_Role role)))"
    using k8s_spawn [OF assms spec(1) 1] spec(2) by metis
  obtain y s2 where 2: "spawn_all A t roles s1 = (y, s2)" by fastforce
  from Cons.prems 1 2 e Cons.IH [of s1] show ?case by (auto split: option.splits sum.splits)
qed simp

text \<open>Watching opens one goroutine for each agent and asks the cluster for nothing yet.\<close>

lemma k8s_watch_all:
  assumes "k8s_adapter kc ns A"
  shows "watch_all A c ids s = (x, s') \<Longrightarrow>
    x = Inr (map (k8s_watch kc ns) ids) \<and> world s' = world s \<and> calls (trace s') = calls (trace s)"
proof (induction ids arbitrary: s x s')
  case (Cons i ids)
  obtain s1 where 1: "pa_WatchAgent A c i s = (Inr (k8s_watch kc ns i), s1)"
    "world s1 = world s" "calls (trace s1) = calls (trace s)"
    using assms by (auto simp: k8s_adapter_def K8s_WatchAgent_def WrapWith_def)
  obtain y s2 where 2: "watch_all A c ids s1 = (y, s2)" by fastforce
  from Cons.prems 1 2 Cons.IH [OF 2] show ?case by auto
qed simp

section \<open>What the watch goroutine reports\<close>

text \<open>What a turn decides on its own: a verdict on the pod with the given key, or nothing\<close>

definition pod_verdict :: "'w kclient \<Rightarrow> key \<Rightarrow> 'w k8s_turn \<Rightarrow> EventType option" where
  "pod_verdict kc k p =
     (case fst (kc_GetPod kc k (world (turn_state p))) of
        Inl err \<Rightarrow> (if IsNotFound err then Some EventFailed else None)
      | Inr pod \<Rightarrow> (if pod_Phase pod = PodSucceeded then Some EventCompleted
                    else if pod_Phase pod = PodFailed then Some EventFailed else None))"

text \<open>
  The watch of an agent that is not cancelled reports the first verdict its turns reach:
  Completed when the pod has succeeded, Failed when it has failed or is gone, whatever
  number of transient errors and unfinished turns comes before; then it closes the channel.
  Without a verdict it sends nothing and keeps polling.
\<close>

lemma k8s_watch_reports:
  assumes "\<forall>p\<in>set ps. \<not> turn_cancelled p \<and> \<not> turn_done p"
  shows "k8s_watch kc ns a ps =
    (case List.find (\<lambda>p. pod_verdict kc (ns, a) p \<noteq> None) ps of
       None \<Rightarrow> ([], False)
     | Some p \<Rightarrow> ([\<lparr>ev_AgentID = a, ev_Type = the (pod_verdict kc (ns, a) p), ev_Message = []\<rparr>], True))"
  using assms
  by (induction ps) (auto simp: pod_verdict_def fst_api send_unless_def agent_event_def split: sum.splits)

section \<open>A server of pods\<close>

text \<open>An API server that keeps the phases of the pods by their keys: names are taken in a namespace.\<close>

definition pod_server :: "(key \<rightharpoonup> string) kclient" where
  "pod_server = bare_client
     \<lparr>kc_GetPod := \<lambda>k w. (case w k of Some ph \<Rightarrow> Inr (zero_Pod\<lparr>pod_Phase := ph\<rparr>) | None \<Rightarrow> Inl no_object, w),
      kc_Create := \<lambda>ob w. (case ob of
          OPod p \<Rightarrow> if w (meta_key (pod_Meta p)) \<noteq> None then (Some (Leaf KAlreadyExists ''exists''), w)
                    else (None, w(meta_key (pod_Meta p) \<mapsto> ''Pending''))
        | _ \<Rightarrow> (None, w)),
      kc_Delete := \<lambda>ob w. (case ob of
          OPod p \<Rightarrow> if w (meta_key (pod_Meta p)) = None then (Some no_object, w)
                    else (None, w(meta_key (pod_Meta p) := None))
        | _ \<Rightarrow> (Some no_object, w))\<rparr>"

definition one_role :: "string \<Rightarrow> AgentRole" where
  "one_role r = \<lparr>ar_Role = r, ar_Image = ''img'', ar_Command = [], ar_MaxReplicas = 1\<rparr>"

lemma k8s_watch_reports_example:
  "k8s_watch pod_server ''muto'' ''a''
     [turn_on [(''muto'', ''a'') \<mapsto> ''Running''], turn_on [(''muto'', ''a'') \<mapsto> ''Succeeded'']]
   = ([\<lparr>ev_AgentID = ''a'', ev_Type = EventCompleted, ev_Message = []\<rparr>], True)"
  by (subst k8s_watch_reports) (simp_all add: pod_verdict_def pod_server_def zero_Pod_def PodSucceeded_def PodFailed_def)

section \<open>Names of pods\<close>

text \<open>On a server that refuses a key already taken, creating pods fails at the first key that is.\<close>

definition refuses_taken :: "'w kclient \<Rightarrow> ('w \<Rightarrow> key set) \<Rightarrow> bool" where
  "refuses_taken kc taken \<longleftrightarrow>
     (\<forall>pod w. meta_key (pod_Meta pod) \<in> taken w \<longrightarrow> (\<exists>e. kc_Create kc (OPod pod) w = (Some e, w) \<and> IsAlreadyExists e))
   \<and> (\<forall>pod w e w'. kc_Create kc (OPod pod) w = (e, w') \<longrightarrow>
        taken w \<subseteq> taken w' \<and> (e = None \<longrightarrow> meta_key (pod_Meta pod) \<in> taken w'))"

lemmas taken_refused = refuses_taken_def [THEN iffD1, THEN conjunct1, rule_format]
  and taken_created = refuses_taken_def [THEN iffD1, THEN conjunct2, rule_format]

lemma pod_key [simp]: "meta_key (pod_Meta (k8s_pod ns t role)) = (ns, k8s_pod_name t (ar_Role role))"
  by (simp add: k8s_pod_def meta_key_def)

lemma spawned_taken:
  assumes "k8s_adapter kc ns A" and server: "refuses_taken kc taken"
  shows "spawn_all A t roles s = (x, s') \<Longrightarrow> taken (world s) \<subseteq> taken (world s')
    \<and> (\<forall>ids r. x = Inr ids \<and> r \<in> set roles \<longrightarrow> (ns, k8s_pod_name t (ar_Role r)) \<in> taken (world s'))
    \<and> (\<forall>r\<in>set roles. (ns, k8s_pod_name t (ar_Role r)) \<in> taken (world s) \<longrightarrow> (\<exists>e. x = Inl e))"
proof (induction roles arbitrary: s x s')
  case (Cons role roles)
  obtain y s1 where 1: "pa_SpawnAgent A (role_spec t role) s = (y, s1)" by fastforce
  have spec: "sp_Agents (role_spec t role) = [role]" "sp_TenantRef (role_spec t role) = t" by (simp_all add: role_spec_def)
  obtain e where e: "kc_Create kc (OPod (k8s_pod ns t role)) (world s) = (e, world s1)"
    "y = (case e of Some err \<Rightarrow> Inl (Wrapped ''create pod: '' err) | None \<Rightarrow> Inr (k8s_pod_name t (ar_Role role)))"
    using k8s_spawn [OF assms(1) spec(1) 1] spec(2) by metis
  have created: "taken (world s) \<subseteq> taken (world s1)"
    "e = None \<longrightarrow> (ns, k8s_pod_name t (ar_Role role)) \<in> taken (world s1)"
    using taken_created [OF server e(1)] by simp_all
  show ?case
  proof (cases e)
    case (Some err)
    with Cons.prems 1 e created show ?thesis by auto
  next
    case None
    obtain z s2 where 2: "spawn_all A t roles s1 = (z, s2)" by fastforce
    have free: "(ns, k8s_pod_name t (ar_Role role)) \<notin> taken (world s)"
      using taken_refused [OF server, of "k8s_pod ns t role" "world s"] e(1) None by auto
    have run: "s' = s2 \<and> (case z of Inl err \<Rightarrow> x = Inl err | Inr is \<Rightarrow> x = Inr (k8s_pod_name t (ar_Role role) # is))"
      using Cons.prems 1 2 e None by (auto split: sum.splits)
    from Cons.IH [OF 2] run created None free show ?thesis by (auto split: sum.splits)
  qed
qed simp

text \<open>
  C25. The pod of an agent is named after its tenant and role only. On a cluster that refuses a key already
  taken, as the API server does in each namespace, two jobs with a role of the same name cannot run at once,
  whatever their identifiers: once a job of a tenant has been scheduled, and as long as the pod of
  its agent is there, scheduling a second job with that role fails and records nothing, whatever else has
  happened in between; and the names of different tenants can coincide.
\<close>

theorem k8s_pod_name_clash:
  assumes "k8s_adapter kc ns A" and "refuses_taken kc taken"
    and "Schedule A job1 (ds, s) = ((None, j1), ds1, s1)"
    and "role1 \<in> set (sp_Agents (job_Spec job1))" and "role2 \<in> set (sp_Agents (job_Spec job2))"
    and "sp_TenantRef (job_Spec job1) @ ''-'' @ ar_Role role1 = sp_TenantRef (job_Spec job2) @ ''-'' @ ar_Role role2"
    and kept: "(ns, k8s_pod_name (sp_TenantRef (job_Spec job1)) (ar_Role role1)) \<in> taken (world s1) \<Longrightarrow>
      (ns, k8s_pod_name (sp_TenantRef (job_Spec job1)) (ar_Role role1)) \<in> taken (world s2)"
  shows "\<exists>e s3. Schedule A job2 (ds2, s2) = ((Some e, job2), ds2, s3)"
proof -
  let ?t1 = "sp_TenantRef (job_Spec job1)" and ?t2 = "sp_TenantRef (job_Spec job2)"
  obtain x u where 1: "spawn_all A ?t1 (sp_Agents (job_Spec job1)) s = (x, u)" by fastforce
  then obtain ids where x: "x = Inr ids" using assms(3) by (cases x) (auto simp: Schedule_def)
  have "world s1 = world u"
    using assms(1,3) by (auto simp: Schedule_def 1 x Let_def with_cancel_def dest!: k8s_watch_all
        split: sum.splits option.splits prod.splits)
  then have "(ns, k8s_pod_name ?t1 (ar_Role role1)) \<in> taken (world s2)"
    using spawned_taken [OF assms(1,2) 1] x assms(4) kept by auto
  then have "(ns, k8s_pod_name ?t2 (ar_Role role2)) \<in> taken (world s2)"
    using assms(6) by (simp add: k8s_pod_name_def)
  moreover obtain y v where 2: "spawn_all A ?t2 (sp_Agents (job_Spec job2)) s2 = (y, v)" by fastforce
  ultimately obtain e where "y = Inl e" using spawned_taken [OF assms(1,2) 2] assms(5) by blast
  with 2 show ?thesis by (simp add: Schedule_def)
qed

lemma pod_server_taken: "refuses_taken pod_server dom"
  unfolding refuses_taken_def by (auto simp: pod_server_def split: if_splits)

definition one_job :: "string \<Rightarrow> string \<Rightarrow> string \<Rightarrow> Job" where
  "one_job i t r = \<lparr>job_ID = i, job_TenantID = t,
     job_Spec = zero_Spec\<lparr>sp_TenantRef := t, sp_Agents := [one_role r]\<rparr>, job_Status = zero_Status\<rparr>"

definition no_pods :: "(key \<rightharpoonup> string, kube_call) io_state" where
  "no_pods = \<lparr>world = Map.empty, trace = [], ctx_next = 0, ctx_done = [], otlp_active = False\<rparr>"

theorem k8s_pod_name_clash_witness:
  "\<exists>j1 ds1 s1 e s3. Schedule (NewK8sAdapter pod_server ''muto'') (one_job ''j'' ''acme'' ''b-worker'')
       (NewDefaultScheduler, no_pods) = ((None, j1), ds1, s1)
     \<and> Schedule (NewK8sAdapter pod_server ''muto'') (one_job ''k'' ''acme-b'' ''worker'') (ds1, s1)
         = ((Some e, one_job ''k'' ''acme-b'' ''worker''), ds1, s3)"
proof -
  let ?A = "NewK8sAdapter pod_server ''muto''" and ?j = "one_job ''j'' ''acme'' ''b-worker''"
    and ?k = "one_job ''k'' ''acme-b'' ''worker''"
  obtain j1 ds1 s1 where run: "Schedule ?A ?j (NewDefaultScheduler, no_pods) = ((None, j1), ds1, s1)"
    by (simp add: Schedule_def one_job_def K8s_SpawnAgent_def K8s_WatchAgent_def role_spec_def pod_server_def no_pods_def
        api_err_def schedule_commit_def NewDefaultScheduler_def with_cancel_def zero_Status_def set_phase_def Let_def)
  have "\<exists>e s3. Schedule ?A ?k (ds1, s1) = ((Some e, ?k), ds1, s3)"
    by (rule k8s_pod_name_clash [where ns = "''muto''" and ?role1.0 = "one_role ''b-worker''" and ?role2.0 = "one_role ''worker''", OF _ pod_server_taken run])
       (simp_all add: one_job_def one_role_def)
  with run show ?thesis by blast
qed

end
