(* ===== verification/Scheduler_Agents.thy ===== *)
theory Scheduler_Agents
  imports K8s_Adapter
begin

text \<open>
  Which agents run because of the scheduler: a ledger of the agents of a platform, kept through the
  adapter's calls. A scheduled job accounts for exactly the agents it started and its
  cancellation ends exactly those; a call of \<open>Schedule\<close> that is refused ends what it had started;
  one that fails on the way leaves it running, with no record that could cancel it.
\<close>

section \<open>The ledger of a platform\<close>

text \<open>\<open>live\<close> reads the agents that run off the world.\<close>

definition started :: "('w \<Rightarrow> string set) \<Rightarrow> ('w, 'c) io_state \<Rightarrow> ('w, 'c) io_state \<Rightarrow> string list \<Rightarrow> bool" where
  "started live s s' ids \<longleftrightarrow>
     distinct ids \<and> set ids \<inter> live (world s) = {} \<and> live (world s') = live (world s) \<union> set ids"

lemma started_none: "live (world s') = live (world s) \<Longrightarrow> started live s s' []"
  by (simp add: started_def)

lemma started_Cons:
  "i \<notin> live (world s) \<Longrightarrow> live (world s1) = insert i (live (world s)) \<Longrightarrow> started live s1 s' ids \<Longrightarrow>
     started live s s' (i # ids)"
  by (auto simp: started_def)

lemma started_same: "started live s s1 ids \<Longrightarrow> live (world s') = live (world s1) \<Longrightarrow> started live s s' ids"
  by (simp add: started_def)

locale agent_ledger =
  fixes A :: "('w, 'c, 'p) adapter" and live :: "'w \<Rightarrow> string set"
  assumes spawn_live: "pa_SpawnAgent A spec s = (Inr i, s') \<Longrightarrow>
        i \<notin> live (world s) \<and> live (world s') = insert i (live (world s))"
    and spawn_error_live: "pa_SpawnAgent A spec s = (Inl err, s') \<Longrightarrow> live (world s') = live (world s)"
    and terminate_live: "pa_TerminateAgent A i s = (e, s') \<Longrightarrow>
        live (world s') = (if e = None then live (world s) - {i} else live (world s))"
    and watch_live: "pa_WatchAgent A c i s = (h, s') \<Longrightarrow> live (world s') = live (world s)"
begin

lemma spawn_all_started:
  "spawn_all A t roles s = (r, s') \<Longrightarrow>
    \<exists>ids. started live s s' ids
      \<and> (case r of Inr js \<Rightarrow> js = ids \<and> length ids = length roles | Inl _ \<Rightarrow> length ids < length roles)"
proof (induction roles arbitrary: s r s')
  case Nil
  then show ?case by (auto intro: started_none)
next
  case (Cons role roles)
  obtain x s1 where run: "pa_SpawnAgent A (role_spec t role) s = (x, s1)" by fastforce
  show ?case
  proof (cases x)
    case (Inl e)
    with Cons.prems run have "s' = s1" and "\<exists>e. r = Inl e" by auto
    moreover have "live (world s1) = live (world s)" using spawn_error_live run Inl by blast
    ultimately show ?thesis by (intro exI [of _ "[]"]) (auto intro: started_none)
  next
    case (Inr i)
    obtain y s2 where rest: "spawn_all A t roles s1 = (y, s2)" by fastforce
    from Cons.IH [OF rest] obtain ids where ids: "started live s1 s2 ids"
      "case y of Inr js \<Rightarrow> js = ids \<and> length ids = length roles | Inl _ \<Rightarrow> length ids < length roles" by blast
    have "s' = s2" and r: "r = (case y of Inl e \<Rightarrow> Inl e | Inr js \<Rightarrow> Inr (i # js))"
      using Cons.prems run Inr rest by (auto split: sum.splits)
    moreover have "i \<notin> live (world s) \<and> live (world s1) = insert i (live (world s))"
      using spawn_live run Inr by blast
    ultimately have "started live s s' (i # ids)" using ids(1) by (auto intro: started_Cons)
    then show ?thesis
      by (rule exI [of _ "i # ids", OF conjI]) (use ids(2) r in \<open>auto split: sum.splits\<close>)
  qed
qed

lemma watch_all_live: "watch_all A c ids s = (r, s') \<Longrightarrow> live (world s') = live (world s)"
proof (induction ids arbitrary: s r)
  case (Cons i ids)
  obtain x s1 where run: "pa_WatchAgent A c i s = (x, s1)" by fastforce
  obtain y s2 where rest: "watch_all A c ids s1 = (y, s2)" by fastforce
  have same: "live (world s1) = live (world s)" using watch_live run by blast
  show ?case
  proof (cases x)
    case (Inl e)
    then show ?thesis using Cons.prems run same by simp
  next
    case (Inr h)
    then have "s' = s2" using Cons.prems run rest by (auto split: sum.splits)
    then show ?thesis using Cons.IH [of s1 y] rest same by simp
  qed
qed simp

lemma terminate_all_live:
  "terminate_all A ids s = (None, s') \<Longrightarrow> live (world s') = live (world s) - set ids"
proof (induction ids arbitrary: s)
  case (Cons i ids)
  obtain e s1 where run: "pa_TerminateAgent A i s = (e, s1)" by fastforce
  with Cons.prems have e: "e = None" and rest: "terminate_all A ids s1 = (None, s')"
    by (auto split: option.splits)
  have "live (world s1) = live (world s) - {i}" using terminate_live [OF run] e by simp
  with Cons.IH [OF rest] show ?case by auto
qed simp

lemma terminate_each_live:
  assumes "\<forall>i s. fst (pa_TerminateAgent A i s) = None"
  shows "live (world (terminate_each A ids s)) = live (world s) - set ids"
proof (induction ids arbitrary: s)
  case (Cons i ids)
  obtain e s1 where run: "pa_TerminateAgent A i s = (e, s1)" by fastforce
  have "e = None" using assms [rule_format, of i s] run by simp
  with run have "live (world s1) = live (world s) - {i}" using terminate_live [OF run] by simp
  then show ?case using Cons.IH [of s1] run by auto
qed simp

end

text \<open>Tracing keeps the ledger.\<close>

lemma WrapErr_result:
  "WrapErr name f s = (r, s') \<Longrightarrow> \<exists>s2. f (emit (SpanStart name) s) = (r, s2) \<and> world s' = world s2"
  by (auto simp: WrapErrWith_def WrapWith_def Let_def res_of_def err_of_def
      split: prod.splits sum.splits option.splits)

locale traced_agent_ledger = agent_ledger A live for A :: "('w, 'c, 'p) adapter" and live

sublocale traced_agent_ledger \<subseteq> traced: agent_ledger "WrapPlatformAdapter A" live
proof
  fix spec s i s'
  assume "pa_SpawnAgent (WrapPlatformAdapter A) spec s = (Inr i, s')"
  then show "i \<notin> live (world s) \<and> live (world s') = insert i (live (world s))"
    by (auto dest!: Wrap_result dest: spawn_live)
next
  fix spec s err s'
  assume "pa_SpawnAgent (WrapPlatformAdapter A) spec s = (Inl err, s')"
  then show "live (world s') = live (world s)" by (auto dest!: Wrap_result dest: spawn_error_live)
next
  fix i s e s'
  assume "pa_TerminateAgent (WrapPlatformAdapter A) i s = (e, s')"
  then obtain s2 where "pa_TerminateAgent A i (emit (SpanStart ''PlatformAdapter.TerminateAgent'') s) = (e, s2)"
    and "world s' = world s2" by (auto dest!: WrapErr_result)
  then show "live (world s') = (if e = None then live (world s) - {i} else live (world s))"
    using terminate_live by fastforce
next
  fix c i s h s'
  assume "pa_WatchAgent (WrapPlatformAdapter A) c i s = (h, s')"
  then show "live (world s') = live (world s)" by (auto dest!: Wrap_result dest: watch_live)
qed

section \<open>The ledger on Kubernetes\<close>

text \<open>
  An API server that stores the pods of a namespace by name: a pod is created when its name is
  free and deleted when a deletion succeeds. A failed request changes nothing.
\<close>

definition stores_pods :: "'w kclient \<Rightarrow> string \<Rightarrow> ('w \<Rightarrow> string set) \<Rightarrow> bool" where
  "stores_pods kc ns pods \<longleftrightarrow>
     (\<forall>p w e w'. om_Namespace (pod_Meta p) = ns \<longrightarrow> kc_Create kc (OPod p) w = (e, w') \<longrightarrow>
        (if e = None then om_Name (pod_Meta p) \<notin> pods w \<and> pods w' = insert (om_Name (pod_Meta p)) (pods w)
         else pods w' = pods w))
   \<and> (\<forall>p w e w'. om_Namespace (pod_Meta p) = ns \<longrightarrow> kc_Delete kc (OPod p) w = (e, w') \<longrightarrow>
        pods w' = (if e = None then pods w - {om_Name (pod_Meta p)} else pods w))"

lemmas stores_pods_create = stores_pods_def [THEN iffD1, THEN conjunct1, rule_format]
  and stores_pods_delete = stores_pods_def [THEN iffD1, THEN conjunct2, rule_format]

lemma k8s_agent_ledger:
  assumes pods: "stores_pods kc ns pods"
  shows "agent_ledger (NewK8sAdapter kc ns) pods"
proof
  fix spec s i s'
  assume "pa_SpawnAgent (NewK8sAdapter kc ns) spec s = (Inr i, s')"
  then obtain role w' where
    "kc_Create kc (OPod (k8s_pod ns (sp_TenantRef spec) role)) (world s) = (None, w')"
    and "i = k8s_pod_name (sp_TenantRef spec) (ar_Role role)" and "world s' = w'"
    by (auto simp: K8s_SpawnAgent_def Let_def api_err_def split: list.splits prod.splits option.splits)
  with stores_pods_create [OF pods _ this(1)]
  show "i \<notin> pods (world s) \<and> pods (world s') = insert i (pods (world s))"
    by (simp add: k8s_pod_def)
next
  fix spec s err s'
  assume run: "pa_SpawnAgent (NewK8sAdapter kc ns) spec s = (Inl err, s')"
  show "pods (world s') = pods (world s)"
  proof (cases "sp_Agents spec")
    case Nil
    then show ?thesis using run by (simp add: K8s_SpawnAgent_def)
  next
    case (Cons role roles)
    then obtain e w' where
      "kc_Create kc (OPod (k8s_pod ns (sp_TenantRef spec) role)) (world s) = (Some e, w')"
      and "world s' = w'"
      using run by (auto simp: K8s_SpawnAgent_def Let_def api_err_def split: prod.splits option.splits)
    with stores_pods_create [OF pods _ this(1)] show ?thesis by (simp add: k8s_pod_def)
  qed
next
  fix i s e s'
  assume "pa_TerminateAgent (NewK8sAdapter kc ns) i s = (e, s')"
  then obtain w' where
    "kc_Delete kc (OPod (zero_Pod\<lparr>pod_Meta := zero_ObjectMeta\<lparr>om_Name := i, om_Namespace := ns\<rparr>\<rparr>)) (world s)
      = (e, w')" and "world s' = w'"
    by (auto simp: K8s_TerminateAgent_def api_err_def split: prod.splits)
  with stores_pods_delete [OF pods _ this(1)]
  show "pods (world s') = (if e = None then pods (world s) - {i} else pods (world s))" by simp
qed (simp add: K8s_WatchAgent_def)

text \<open>The pods of one namespace on the server of pods\<close>

definition pods_in :: "string \<Rightarrow> (key \<rightharpoonup> string) \<Rightarrow> string set" where
  "pods_in ns w = {n. w (ns, n) \<noteq> None}"

lemma pod_server_stores: "stores_pods pod_server ns (pods_in ns)"
  unfolding stores_pods_def pod_server_def pods_in_def meta_key_def by (auto split: if_splits)

interpretation k8s_ledger: traced_agent_ledger "NewK8sAdapter pod_server ns" "pods_in ns" for ns
  by (intro traced_agent_ledger.intro k8s_agent_ledger pod_server_stores)

section \<open>What a call of the scheduler does to the ledger\<close>

definition accepted :: "Job \<Rightarrow> jobs \<Rightarrow> bool" where
  "accepted job jobs \<longleftrightarrow> jobs (job_ID job) = None \<and> job_phase job \<in> {[], PhasePending}"

lemma schedule_commit_accepted: "schedule_commit job ids c jobs = (e, job', jobs') \<Longrightarrow> e = None \<longleftrightarrow> accepted job jobs"
  by (cases e) (auto simp: accepted_def dest: schedule_commit_None schedule_commit_Some)

text \<open>A platform the scheduler drives whose agents are accounted for\<close>

locale accounted_platform = platform_adapter A + agent_ledger A live
  for A :: "('w, 'c, 'p) adapter" and live

context accounted_platform
begin

lemma watch_all_succeeds: "\<exists>hs s'. watch_all A c ids s = (Inr hs, s')"
proof (induction ids arbitrary: s)
  case (Cons i ids)
  obtain h s1 where "pa_WatchAgent A c i s = (Inr h, s1)" using watch_succeeds by blast
  with Cons.IH [of s1] show ?case by auto
qed simp

text \<open>Once every role has its agent, the call is decided in the critical section.\<close>

lemma Schedule_spawned:
  assumes spawn: "spawn_all A (sp_TenantRef (job_Spec job)) (sp_Agents (job_Spec job)) s = (Inr ids, s1)"
  obtains c s3 hs where "live (world s3) = live (world s1)"
    and "Schedule A job (ds, s) =
      (case schedule_commit job ids c (ds_jobs ds) of
         (Some err, job', jobs') \<Rightarrow>
           ((Some err, job'), ds\<lparr>ds_jobs := jobs'\<rparr>, terminate_each A ids (cancel_ctx c s3))
       | (None, job', jobs') \<Rightarrow>
           ((None, job'),
            ds\<lparr>ds_jobs := jobs', ds_watchers := ds_watchers ds @ [(job_ID job, hs)]\<rparr>, s3))"
proof -
  obtain c s2 where wc: "with_cancel s1 = (c, s2)" by fastforce
  obtain hs s3 where watch: "watch_all A c ids s2 = (Inr hs, s3)" using watch_all_succeeds by blast
  have "world s2 = world s1" using ctx_sels(8) [of s1] unfolding wc by simp
  with watch_all_live [OF watch] have "live (world s3) = live (world s1)" by simp
  then show ?thesis by (rule that) (simp add: Schedule_def spawn wc watch)
qed

lemma Schedule_accepted:
  assumes spawn: "spawn_all A (sp_TenantRef (job_Spec job)) (sp_Agents (job_Spec job)) s = (Inr ids, s1)"
    and acc: "accepted job (ds_jobs ds)" and run: "Schedule A job (ds, s) = ((r, job'), ds', s')"
  shows "r = None" and "started live s s' ids"
    and "\<exists>c. ds_jobs ds' = (ds_jobs ds)(job_ID job \<mapsto> \<lparr>jr_job = job', jr_agentIDs = ids, jr_cancelWatch = c\<rparr>)"
proof -
  obtain c s3 hs where same: "live (world s3) = live (world s1)" and eq: "Schedule A job (ds, s) =
      (case schedule_commit job ids c (ds_jobs ds) of
         (Some err, job', jobs') \<Rightarrow>
           ((Some err, job'), ds\<lparr>ds_jobs := jobs'\<rparr>, terminate_each A ids (cancel_ctx c s3))
       | (None, job', jobs') \<Rightarrow>
           ((None, job'),
            ds\<lparr>ds_jobs := jobs', ds_watchers := ds_watchers ds @ [(job_ID job, hs)]\<rparr>, s3))"
    by (rule Schedule_spawned [OF spawn])
  obtain e j jobs where commit: "schedule_commit job ids c (ds_jobs ds) = (e, j, jobs)"
    by (metis prod_cases3)
  have e: "e = None" using schedule_commit_accepted [OF commit] acc by simp
  have out: "r = None" "job' = j" "s' = s3" "ds_jobs ds' = jobs" using run by (auto simp: eq commit e)
  then show "r = None" by simp
  from spawn_all_started [OF spawn] have "started live s s1 ids" by simp
  then show "started live s s' ids" using same out by (simp add: started_same)
  show "\<exists>c. ds_jobs ds' = (ds_jobs ds)(job_ID job \<mapsto> \<lparr>jr_job = job', jr_agentIDs = ids, jr_cancelWatch = c\<rparr>)"
    using schedule_commit_None(3) [OF commit [unfolded e]] out by blast
qed

lemma Schedule_refused:
  assumes spawn: "spawn_all A (sp_TenantRef (job_Spec job)) (sp_Agents (job_Spec job)) s = (Inr ids, s1)"
    and ref: "\<not> accepted job (ds_jobs ds)" and run: "Schedule A job (ds, s) = ((r, job'), ds', s')"
  shows "r \<noteq> None" and "ds' = ds"
    and "\<forall>i s. fst (pa_TerminateAgent A i s) = None \<Longrightarrow> live (world s') = live (world s)"
proof -
  obtain c s3 hs where same: "live (world s3) = live (world s1)" and eq: "Schedule A job (ds, s) =
      (case schedule_commit job ids c (ds_jobs ds) of
         (Some err, job', jobs') \<Rightarrow>
           ((Some err, job'), ds\<lparr>ds_jobs := jobs'\<rparr>, terminate_each A ids (cancel_ctx c s3))
       | (None, job', jobs') \<Rightarrow>
           ((None, job'),
            ds\<lparr>ds_jobs := jobs', ds_watchers := ds_watchers ds @ [(job_ID job, hs)]\<rparr>, s3))"
    by (rule Schedule_spawned [OF spawn])
  obtain e j jobs where commit: "schedule_commit job ids c (ds_jobs ds) = (e, j, jobs)"
    by (metis prod_cases3)
  obtain err where e: "e = Some err" using schedule_commit_accepted [OF commit] ref by (cases e) auto
  have jobs: "jobs = ds_jobs ds" using schedule_commit_Some [OF commit [unfolded e]] by simp
  have out: "r = Some err" "ds' = ds" "s' = terminate_each A ids (cancel_ctx c s3)"
    using run by (auto simp: eq commit e jobs)
  then show "r \<noteq> None" and "ds' = ds" by simp_all
  assume "\<forall>i s. fst (pa_TerminateAgent A i s) = None"
  then have "live (world s') = live (world s1) - set ids" using terminate_each_live out same by simp
  with spawn_all_started [OF spawn] show "live (world s') = live (world s)" by (auto simp: started_def)
qed

lemma Cancel_ends:
  assumes "Cancel A i (ds, s) = (None, ds', s')" and "ds_jobs ds i = Some rec"
  shows "live (world s') = live (world s) - set (jr_agentIDs rec)"
proof -
  obtain e s1 where run: "terminate_all A (jr_agentIDs rec) s = (e, s1)" by fastforce
  obtain k e' jobs where commit: "cancel_commit i (ds_jobs ds) = (k, e', jobs)" by (metis prod_cases3)
  have e: "e = None" using assms by (cases e) (auto simp: Cancel_def run)
  have "world s' = world s1" using assms by (auto simp: Cancel_def run e commit split: if_splits)
  then show ?thesis using terminate_all_live [OF run [unfolded e]] by simp
qed

end

interpretation k8s_accounted: accounted_platform "NewK8sAdapter pod_server ns" "pods_in ns" for ns
  by (intro accounted_platform.intro k8s.platform_adapter_axioms k8s_ledger.agent_ledger_axioms)

text \<open>
  C8. Every agent that runs is accounted for, or the call failed on the way. Over any adapter that
  keeps a ledger of its agents: when a role's agent cannot be spawned, \<open>Schedule\<close> fails, records
  nothing, and the agents of the roles before it stay live; when all are spawned, the
  call succeeds exactly for a new job that has not started yet, the agents added to the live
  ones are exactly those on its record, one for each role, and a later \<open>Cancel\<close> that returns no
  error ends exactly those; a refused job leaves no record and, when terminations succeed, no agent.
\<close>

theorem agents_accounted:
  assumes "accounted_platform A live" and "Schedule A job (ds, s) = ((r, job'), ds', s')"
  shows "case spawn_all A (sp_TenantRef (job_Spec job)) (sp_Agents (job_Spec job)) s of
      (Inl err, s1) \<Rightarrow> r = Some err \<and> ds' = ds \<and> s' = s1
        \<and> (\<exists>ids. started live s s' ids \<and> length ids < length (sp_Agents (job_Spec job)))
    | (Inr ids, s1) \<Rightarrow>
        (if accepted job (ds_jobs ds)
         then r = None \<and> started live s s' ids \<and> length ids = length (sp_Agents (job_Spec job))
           \<and> (\<exists>c. ds_jobs ds' = (ds_jobs ds)(job_ID job \<mapsto>
                \<lparr>jr_job = job', jr_agentIDs = ids, jr_cancelWatch = c\<rparr>))
           \<and> (\<forall>s2 ds3 s3. Cancel A (job_ID job) (ds', s2) = (None, ds3, s3) \<longrightarrow>
                live (world s3) = live (world s2) - set ids)
         else r \<noteq> None \<and> ds' = ds
           \<and> ((\<forall>i s. fst (pa_TerminateAgent A i s) = None) \<longrightarrow> live (world s') = live (world s)))"
proof -
  obtain x s1 where spawn:
    "spawn_all A (sp_TenantRef (job_Spec job)) (sp_Agents (job_Spec job)) s = (x, s1)" by fastforce
  note ledger = accounted_platform.axioms(2) [OF assms(1)]
  show ?thesis
  proof (cases x)
    case (Inl err)
    have "r = Some err" "ds' = ds" "s' = s1" using assms(2) by (auto simp: Schedule_def spawn Inl)
    with agent_ledger.spawn_all_started [OF ledger spawn] show ?thesis by (simp add: spawn Inl)
  next
    case (Inr ids)
    note spawned = spawn [unfolded Inr]
    have len: "length ids = length (sp_Agents (job_Spec job))"
      using agent_ledger.spawn_all_started [OF ledger spawned] by auto
    show ?thesis
    proof (cases "accepted job (ds_jobs ds)")
      case True
      note ok = accounted_platform.Schedule_accepted [OF assms(1) spawned True assms(2)]
      from ok(3) have "live (world s3) = live (world s2) - set ids"
        if "Cancel A (job_ID job) (ds', s2) = (None, ds3, s3)" for s2 ds3 s3
        using accounted_platform.Cancel_ends [OF assms(1) that] by auto
      with ok len True show ?thesis by (simp add: spawned)
    next
      case False
      with accounted_platform.Schedule_refused [OF assms(1) spawned False assms(2)]
      show ?thesis by (simp add: spawned)
    qed
  qed
qed

text \<open>Two roles of one name, whose pods clash, and one role, whose agent can be cancelled\<close>

definition roles_job :: "AgentRole list \<Rightarrow> Job" where
  "roles_job roles =
     \<lparr>job_ID = ''j'', job_TenantID = ''acme'',
      job_Spec = zero_Spec\<lparr>sp_TenantRef := ''acme'', sp_Agents := roles\<rparr>, job_Status = zero_Status\<rparr>"

lemma roles_job_sels [simp]:
  "job_ID (roles_job roles) = ''j''" "sp_TenantRef (job_Spec (roles_job roles)) = ''acme''"
  "sp_Agents (job_Spec (roles_job roles)) = roles"
  by (simp_all add: roles_job_def)

lemma clash_spawn:
  "\<exists>err s1. spawn_all (NewK8sAdapter pod_server ''muto'') ''acme'' [one_role ''w'', one_role ''w''] no_pods
     = (Inl err, s1) \<and> pods_in ''muto'' (world s1) = {''muto-acme-w''}"
  by (simp add: K8s_SpawnAgent_def role_spec_def pod_server_def api_err_def Let_def
      k8s_pod_name_def one_role_def no_pods_def pods_in_def)

lemma one_spawn:
  "\<exists>s1. spawn_all (NewK8sAdapter pod_server ''muto'') ''acme'' [one_role ''w''] no_pods
     = (Inr [''muto-acme-w''], s1)"
  by (simp add: K8s_SpawnAgent_def role_spec_def pod_server_def api_err_def Let_def
      k8s_pod_name_def one_role_def no_pods_def pods_in_def)

theorem agents_accounted_witness:
  "(\<exists>err job' s'. Schedule (NewK8sAdapter pod_server ''muto'') (roles_job [one_role ''w'', one_role ''w''])
        (NewDefaultScheduler, no_pods) = ((Some err, job'), NewDefaultScheduler, s')
      \<and> pods_in ''muto'' (world s') = {''muto-acme-w''})
   \<and> (\<exists>job' ds' s'. Schedule (NewK8sAdapter pod_server ''muto'') (roles_job [one_role ''w''])
        (NewDefaultScheduler, no_pods) = ((None, job'), ds', s')
      \<and> pods_in ''muto'' (world s') = {''muto-acme-w''} \<and> ds_jobs ds' ''j'' \<noteq> None)"
proof
  let ?A = "NewK8sAdapter pod_server ''muto''"
  let ?j = "roles_job [one_role ''w'', one_role ''w'']" and ?k = "roles_job [one_role ''w'']"
  obtain r job' ds' s' where run: "Schedule ?A ?j (NewDefaultScheduler, no_pods) = ((r, job'), ds', s')"
    by (metis prod.exhaust)
  obtain err s1 where spawn: "spawn_all ?A ''acme'' [one_role ''w'', one_role ''w''] no_pods = (Inl err, s1)"
    and w: "pods_in ''muto'' (world s1) = {''muto-acme-w''}" using clash_spawn by blast
  with w agents_accounted [OF k8s_accounted.accounted_platform_axioms run] run
  show "\<exists>err job' s'. Schedule ?A ?j (NewDefaultScheduler, no_pods) = ((Some err, job'), NewDefaultScheduler, s')
      \<and> pods_in ''muto'' (world s') = {''muto-acme-w''}"
    by (simp add: spawn del: spawn_all.simps)
  obtain r job' ds' s' where run: "Schedule ?A ?k (NewDefaultScheduler, no_pods) = ((r, job'), ds', s')"
    by (metis prod.exhaust)
  obtain s1 where spawn: "spawn_all ?A ''acme'' [one_role ''w''] no_pods = (Inr [''muto-acme-w''], s1)"
    using one_spawn by blast
  have acc: "accepted ?k (ds_jobs NewDefaultScheduler)"
    by (simp add: accepted_def NewDefaultScheduler_def roles_job_def zero_Status_def)
  have "r = None \<and> started (pods_in ''muto'') no_pods s' [''muto-acme-w''] \<and> ds_jobs ds' ''j'' \<noteq> None"
    using agents_accounted [OF k8s_accounted.accounted_platform_axioms run]
    by (auto simp: spawn acc simp del: spawn_all.simps)
  then show "\<exists>job' ds' s'. Schedule ?A ?k (NewDefaultScheduler, no_pods) = ((None, job'), ds', s')
      \<and> pods_in ''muto'' (world s') = {''muto-acme-w''} \<and> ds_jobs ds' ''j'' \<noteq> None"
    using run by (auto simp: started_def no_pods_def pods_in_def)
qed

end
