(* ===== verification/Scheduler_API.thy ===== *)
theory Scheduler_API
  imports Scheduler
begin

text \<open>
  The interface \<open>scheduler.Scheduler\<close> (\<open>core/scheduler/scheduler.go\<close>) as a record of its four
  methods over a state, and what a caller relies on as a locale. \<open>DefaultScheduler\<close> keeps it
  over any platform adapter, and so does its tracing decorator (\<open>core/tracing/scheduler.go\<close>).
  The order in which \<open>ListActive\<close> visits the jobs is an argument.
\<close>

record 's scheduler =
  sc_Schedule :: "Job \<Rightarrow> 's \<Rightarrow> (goerror option \<times> Job) \<times> 's"
  sc_Cancel :: "string \<Rightarrow> 's \<Rightarrow> goerror option \<times> 's"
  sc_Status :: "string \<Rightarrow> 's \<Rightarrow> Status res \<times> 's"
  sc_ListActive :: "string list \<Rightarrow> string \<Rightarrow> 's \<Rightarrow> Job list res \<times> 's"

section \<open>The contract\<close>

text \<open>\<open>job_at\<close> reads the recorded jobs off the state.\<close>

locale scheduler_api =
  fixes S :: "'s scheduler" and job_at :: "'s \<Rightarrow> string \<rightharpoonup> Job"
  assumes schedule_ok: "sc_Schedule S job st = ((None, job'), st') \<Longrightarrow>
      job_at st (job_ID job) = None \<and> job' = set_phase PhaseRunning job
      \<and> job_at st' = (job_at st)(job_ID job \<mapsto> job')"
    and schedule_err: "sc_Schedule S job st = ((Some e, job'), st') \<Longrightarrow>
      job_at st' = job_at st \<and> job' = job"
    and cancel_ok: "sc_Cancel S i st = (None, st') \<Longrightarrow>
      \<exists>job. job_at st i = Some job \<and> (job_phase job = PhaseRunning \<or> IsTerminal (job_phase job))
        \<and> job_at st' = (job_at st)(i \<mapsto> set_phase PhaseTerminating job)"
    and cancel_err: "sc_Cancel S i st = (Some e, st') \<Longrightarrow> job_at st' = job_at st"
    and status: "\<exists>st'. sc_Status S i st =
        ((case job_at st i of None \<Rightarrow> Inl (not_found i) | Some job \<Rightarrow> Inr (job_Status job)), st')
      \<and> job_at st' = job_at st"
    and list_active: "range_order ks (job_at st) \<Longrightarrow>
      \<exists>js st'. sc_ListActive S ks t st = (Inr js, st') \<and> job_at st' = job_at st
        \<and> set js = {job. is_active t job \<and> (\<exists>i. job_at st i = Some job)}
        \<and> length js = card {i. \<exists>job. job_at st i = Some job \<and> is_active t job}"
begin

text \<open>A job scheduled is running, and can be scheduled only once.\<close>

lemma status_after_schedule:
  "sc_Schedule S job st = ((None, job'), st') \<Longrightarrow>
     \<exists>st2. sc_Status S (job_ID job) st' = (Inr ((job_Status job)\<lparr>st_Phase := PhaseRunning\<rparr>), st2)"
  using schedule_ok [of job st job' st'] status [of "job_ID job" st'] by (auto simp: set_phase_def)

lemma schedule_twice:
  "sc_Schedule S job st = ((None, job'), st') \<Longrightarrow> job_ID job2 = job_ID job \<Longrightarrow>
     \<exists>e st2. sc_Schedule S job2 st' = ((Some e, job2), st2) \<and> job_at st2 = job_at st'"
proof -
  assume ok: "sc_Schedule S job st = ((None, job'), st')" and same: "job_ID job2 = job_ID job"
  obtain e j st2 where run: "sc_Schedule S job2 st' = ((e, j), st2)" by (metis prod.collapse)
  have "job_at st' (job_ID job2) \<noteq> None" using schedule_ok [OF ok] same by simp
  then have "e \<noteq> None" using schedule_ok [of job2 st' j st2] run by (cases e) auto
  then obtain x where "e = Some x" by (cases e) auto
  with run schedule_err [of job2 st' x j st2] show ?thesis by auto
qed

lemma status_after_cancel:
  "sc_Cancel S i st = (None, st') \<Longrightarrow>
     \<exists>s2 st2. sc_Status S i st' = (Inr s2, st2) \<and> st_Phase s2 = PhaseTerminating"
  using cancel_ok [of i st st'] status [of i st'] by fastforce

lemma cancel_twice:
  "sc_Cancel S i st = (None, st') \<Longrightarrow> \<exists>e st2. sc_Cancel S i st' = (Some e, st2)"
proof -
  assume ok: "sc_Cancel S i st = (None, st')"
  obtain e st2 where run: "sc_Cancel S i st' = (e, st2)" by fastforce
  have "job_at st' i = None \<or> (\<exists>j. job_at st' i = Some j \<and> job_phase j = PhaseTerminating)"
    using cancel_ok [OF ok] by auto
  then have "e \<noteq> None" using cancel_ok [of i st' st2] run by (cases e) auto
  then obtain x where "e = Some x" by (cases e) auto
  with run show ?thesis by auto
qed

lemma cancel_unknown: "job_at st i = None \<Longrightarrow> \<exists>e st'. sc_Cancel S i st = (Some e, st')"
  using cancel_ok [of i st] by (metis option.distinct(1) option.exhaust prod.collapse)

text \<open>Only the tenant's own jobs are listed.\<close>

lemma list_active_tenant:
  "range_order ks (job_at st) \<Longrightarrow> sc_ListActive S ks t st = (Inr js, st') \<Longrightarrow> job \<in> set js \<Longrightarrow>
     job_TenantID job = t \<and> \<not> IsTerminal (job_phase job)"
  using list_active [of ks st t] by (auto simp: is_active_def)

end

section \<open>DefaultScheduler\<close>

definition DefaultScheduler_methods ::
    "('w, 'c, 'p) adapter \<Rightarrow> ('p DefaultScheduler \<times> ('w, 'c) io_state) scheduler" where
  "DefaultScheduler_methods A =
     \<lparr>sc_Schedule = Schedule A, sc_Cancel = Cancel A,
      sc_Status = (\<lambda>i st. (StatusOf i (ds_jobs (fst st)), st)),
      sc_ListActive = (\<lambda>order t st. (Inr (ListActive order t (ds_jobs (fst st))), st))\<rparr>"

definition recorded :: "'p DefaultScheduler \<times> ('w, 'c) io_state \<Rightarrow> string \<rightharpoonup> Job" where
  "recorded st = (\<lambda>i. map_option jr_job (ds_jobs (fst st) i))"

lemma Schedule_None:
  assumes "Schedule A job (ds, s) = ((None, job'), (ds', s'))"
  obtains ids c where "schedule_commit job ids c (ds_jobs ds) = (None, job', ds_jobs ds')"
  using assms
  by (auto simp: Schedule_def Let_def split: prod.splits sum.splits option.splits)

lemma Schedule_Some:
  assumes "Schedule A job (ds, s) = ((Some e, job'), (ds', s'))"
  shows "ds' = ds \<and> job' = job"
  using assms
  by (auto simp: Schedule_def Let_def split: prod.splits sum.splits option.splits
      dest!: schedule_commit_Some)

lemma Cancel_cases:
  assumes "Cancel A i (ds, s) = (e, (ds', s'))"
  shows "e \<noteq> None \<and> ds_jobs ds' = ds_jobs ds
    \<or> e = None \<and> (\<exists>rec. ds_jobs ds i = Some rec
        \<and> (job_phase (jr_job rec) = PhaseRunning \<or> IsTerminal (job_phase (jr_job rec)))
        \<and> ds_jobs ds' = (ds_jobs ds)(i \<mapsto> rec\<lparr>jr_job := set_phase PhaseTerminating (jr_job rec)\<rparr>))"
proof (cases "ds_jobs ds i")
  case None
  with assms show ?thesis by (auto simp: Cancel_def)
next
  case (Some rec)
  obtain x s1 where 1: "terminate_all A (jr_agentIDs rec) s = (x, s1)" by fastforce
  obtain c y jobs' where 2: "cancel_commit i (ds_jobs ds) = (c, y, jobs')" by (metis prod.collapse)
  show ?thesis
  proof (cases x)
    case (Some err)
    with assms \<open>ds_jobs ds i = Some rec\<close> 1 show ?thesis by (auto simp: Cancel_def)
  next
    case None
    with assms Some 1 2 have "e = y" "ds_jobs ds' = jobs'" by (auto simp: Cancel_def Let_def)
    with 2 Some show ?thesis by (auto elim!: cancel_commit_cases)
  qed
qed

interpretation default: scheduler_api "DefaultScheduler_methods A" recorded
  for A :: "('w, 'c, 'p) adapter"
proof
  fix job st job' st'
  assume "sc_Schedule (DefaultScheduler_methods A) job st = ((None, job'), st')"
  then obtain ids c where
    "schedule_commit job ids c (ds_jobs (fst st)) = (None, job', ds_jobs (fst st'))"
    by (cases st; cases st') (auto simp: DefaultScheduler_methods_def elim: Schedule_None)
  from schedule_commit_None [OF this]
  show "recorded st (job_ID job) = None \<and> job' = set_phase PhaseRunning job
      \<and> recorded st' = (recorded st)(job_ID job \<mapsto> job')"
    by (auto simp: recorded_def)
next
  fix job st e job' st'
  assume "sc_Schedule (DefaultScheduler_methods A) job st = ((Some e, job'), st')"
  then show "recorded st' = recorded st \<and> job' = job"
    by (cases st; cases st') (auto simp: DefaultScheduler_methods_def recorded_def dest: Schedule_Some)
next
  fix i st st'
  assume "sc_Cancel (DefaultScheduler_methods A) i st = (None, st')"
  then show "\<exists>job. recorded st i = Some job \<and> (job_phase job = PhaseRunning \<or> IsTerminal (job_phase job))
        \<and> recorded st' = (recorded st)(i \<mapsto> set_phase PhaseTerminating job)"
    by (cases st; cases st') (auto simp: DefaultScheduler_methods_def recorded_def fun_eq_iff dest!: Cancel_cases)
next
  fix i st e st'
  assume "sc_Cancel (DefaultScheduler_methods A) i st = (Some e, st')"
  then show "recorded st' = recorded st"
    by (cases st; cases st') (auto simp: DefaultScheduler_methods_def recorded_def dest!: Cancel_cases)
next
  fix i st
  show "\<exists>st'. sc_Status (DefaultScheduler_methods A) i st =
        ((case recorded st i of None \<Rightarrow> Inl (not_found i) | Some job \<Rightarrow> Inr (job_Status job)), st')
      \<and> recorded st' = recorded st"
    by (auto simp: DefaultScheduler_methods_def StatusOf_def recorded_def split: option.splits)
next
  fix ks t
  fix st :: "'p DefaultScheduler \<times> ('w, 'c) io_state"
  assume "range_order ks (recorded st)"
  then have ks: "range_order ks (ds_jobs (fst st))" by (simp add: range_order_def recorded_def dom_def)
  show "\<exists>js st'. sc_ListActive (DefaultScheduler_methods A) ks t st = (Inr js, st') \<and> recorded st' = recorded st
        \<and> set js = {job. is_active t job \<and> (\<exists>i. recorded st i = Some job)}
        \<and> length js = card {i. \<exists>job. recorded st i = Some job \<and> is_active t job}"
    using set_ListActive [OF ks, of t] length_ListActive [OF ks, of t]
    by (auto simp: DefaultScheduler_methods_def recorded_def intro: arg_cong [where f = card])
qed

section \<open>The tracing decorator\<close>

text \<open>\<open>em\<close> records a span event on the scheduler's state, leaving the jobs alone.\<close>

definition traced_Schedule ::
    "('c effect \<Rightarrow> 's \<Rightarrow> 's) \<Rightarrow> 's scheduler \<Rightarrow> Job \<Rightarrow> 's \<Rightarrow> (goerror option \<times> Job) \<times> 's" where
  "traced_Schedule em inner job st =
     (let ((err, job'), st1) = sc_Schedule inner job (em (SpanStart ''Scheduler.Schedule'') st);
          st2 = (case err of
                   Some e \<Rightarrow> em (SpanSetError (err_text e)) (em (SpanRecordError e) st1)
                 | None \<Rightarrow> st1)
      in ((err, job'), em SpanEnd st2))"

definition WrapScheduler :: "('c effect \<Rightarrow> 's \<Rightarrow> 's) \<Rightarrow> 's scheduler \<Rightarrow> 's scheduler" where
  "WrapScheduler em inner =
     \<lparr>sc_Schedule = traced_Schedule em inner,
      sc_Cancel = (\<lambda>i. WrapErrWith em ''Scheduler.Cancel'' (sc_Cancel inner i)),
      sc_Status = (\<lambda>i. WrapWith em ''Scheduler.Status'' (sc_Status inner i)),
      sc_ListActive = (\<lambda>order t. WrapWith em ''Scheduler.ListActive'' (sc_ListActive inner order t))\<rparr>"

text \<open>The span of \<open>Schedule\<close> is \<open>WrapErr\<close> of the call, the job being written through its pointer.\<close>

lemma traced_Schedule_WrapErr:
  "(fst (fst (traced_Schedule em inner job st)), snd (traced_Schedule em inner job st))
     = WrapErrWith em ''Scheduler.Schedule'' (\<lambda>st. case sc_Schedule inner job st of ((e, j), st') \<Rightarrow> (e, st')) st"
  by (auto simp: traced_Schedule_def WrapErrWith_def WrapWith_def res_of_def err_of_def Let_def
      split: prod.splits sum.splits option.splits)

lemma WrapWith_cases:
  assumes "WrapWith em name fn st = (r, st')"
  obtains st1 st2 where "fn (em (SpanStart name) st) = (r, st1)" and "st' = em SpanEnd st2"
    and "st2 = st1 \<or> (\<exists>a b. st2 = em a (em b st1))"
  using assms by (auto simp: WrapWith_def Let_def split: prod.splits sum.splits)

lemma WrapErrWith_cases:
  assumes "WrapErrWith em name fn st = (r, st')"
  obtains st1 st2 where "fn (em (SpanStart name) st) = (r, st1)" and "st' = em SpanEnd st2"
    and "st2 = st1 \<or> (\<exists>a b. st2 = em a (em b st1))"
  using assms
  by (auto simp: WrapErrWith_def WrapWith_def Let_def res_of_def err_of_def
      split: prod.splits sum.splits option.splits)

locale traced_scheduler = scheduler_api S job_at
  for S :: "'s scheduler" and job_at :: "'s \<Rightarrow> string \<rightharpoonup> Job" +
  fixes em :: "'c effect \<Rightarrow> 's \<Rightarrow> 's"
  assumes emit_keeps: "job_at (em e st) = job_at st"

context traced_scheduler begin

text \<open>A traced call runs the call after the start of its span; what the span adds is no job.\<close>

lemma WrapWith_job_at:
  assumes "WrapWith em name fn st = (r, st')"
  obtains st1 where "fn (em (SpanStart name) st) = (r, st1)" and "job_at st' = job_at st1"
  using assms by (rule WrapWith_cases) (use that in \<open>auto simp: emit_keeps\<close>)

lemma WrapErrWith_job_at:
  assumes "WrapErrWith em name fn st = (r, st')"
  obtains st1 where "fn (em (SpanStart name) st) = (r, st1)" and "job_at st' = job_at st1"
  using assms by (rule WrapErrWith_cases) (use that in \<open>auto simp: emit_keeps\<close>)

lemma traced_Schedule_job_at:
  assumes "sc_Schedule (WrapScheduler em S) job st = ((e, job'), st')"
  obtains st1 where "sc_Schedule S job (em (SpanStart ''Scheduler.Schedule'') st) = ((e, job'), st1)"
    and "job_at st' = job_at st1"
proof -
  obtain x j st1 where 1: "sc_Schedule S job (em (SpanStart ''Scheduler.Schedule'') st) = ((x, j), st1)"
    by (metis prod.collapse)
  with assms have "x = e" "j = job'" "job_at st' = job_at st1"
    by (auto simp: WrapScheduler_def traced_Schedule_def emit_keeps split: option.splits)
  with 1 that show ?thesis by simp
qed

lemma traced_Cancel_job_at:
  assumes "sc_Cancel (WrapScheduler em S) i st = (e, st')"
  obtains st1 where "sc_Cancel S i (em (SpanStart ''Scheduler.Cancel'') st) = (e, st1)"
    and "job_at st' = job_at st1"
  using assms by (auto simp: WrapScheduler_def elim: WrapErrWith_job_at)

end

sublocale traced_scheduler \<subseteq> traced: scheduler_api "WrapScheduler em S" job_at
proof
  fix job st job' st'
  assume "sc_Schedule (WrapScheduler em S) job st = ((None, job'), st')"
  then show "job_at st (job_ID job) = None \<and> job' = set_phase PhaseRunning job
      \<and> job_at st' = (job_at st)(job_ID job \<mapsto> job')"
    by (rule traced_Schedule_job_at) (use schedule_ok in \<open>metis emit_keeps\<close>)
next
  fix job st e job' st'
  assume "sc_Schedule (WrapScheduler em S) job st = ((Some e, job'), st')"
  then show "job_at st' = job_at st \<and> job' = job"
    by (rule traced_Schedule_job_at) (use schedule_err in \<open>metis emit_keeps\<close>)
next
  fix i st st'
  assume "sc_Cancel (WrapScheduler em S) i st = (None, st')"
  then show "\<exists>job. job_at st i = Some job \<and> (job_phase job = PhaseRunning \<or> IsTerminal (job_phase job))
        \<and> job_at st' = (job_at st)(i \<mapsto> set_phase PhaseTerminating job)"
    by (rule traced_Cancel_job_at) (use cancel_ok in \<open>metis emit_keeps\<close>)
next
  fix i st e st'
  assume "sc_Cancel (WrapScheduler em S) i st = (Some e, st')"
  then show "job_at st' = job_at st"
    by (rule traced_Cancel_job_at) (use cancel_err in \<open>metis emit_keeps\<close>)
next
  fix i st
  obtain r st' where run: "WrapWith em ''Scheduler.Status'' (sc_Status S i) st = (r, st')" by fastforce
  then obtain st1 where "sc_Status S i (em (SpanStart ''Scheduler.Status'') st) = (r, st1)" "job_at st' = job_at st1"
    by (rule WrapWith_job_at)
  with status [of i "em (SpanStart ''Scheduler.Status'') st"] run
  show "\<exists>st'. sc_Status (WrapScheduler em S) i st =
        ((case job_at st i of None \<Rightarrow> Inl (not_found i) | Some job \<Rightarrow> Inr (job_Status job)), st')
      \<and> job_at st' = job_at st"
    by (auto simp: WrapScheduler_def emit_keeps)
next
  fix ks st t
  assume ks: "range_order ks (job_at st)"
  obtain r st' where run: "WrapWith em ''Scheduler.ListActive'' (sc_ListActive S ks t) st = (r, st')" by fastforce
  then obtain st1 where "sc_ListActive S ks t (em (SpanStart ''Scheduler.ListActive'') st) = (r, st1)" "job_at st' = job_at st1"
    by (rule WrapWith_job_at)
  with list_active [of ks "em (SpanStart ''Scheduler.ListActive'') st" t] ks run
  show "\<exists>js st'. sc_ListActive (WrapScheduler em S) ks t st = (Inr js, st') \<and> job_at st' = job_at st
        \<and> set js = {job. is_active t job \<and> (\<exists>i. job_at st i = Some job)}
        \<and> length js = card {i. \<exists>job. job_at st i = Some job \<and> is_active t job}"
    by (auto simp: WrapScheduler_def emit_keeps)
qed

text \<open>The scheduler as the program runs it: traced, over its own state\<close>

definition sched_emit ::
    "'c effect \<Rightarrow> 'p DefaultScheduler \<times> ('w, 'c) io_state \<Rightarrow> 'p DefaultScheduler \<times> ('w, 'c) io_state" where
  "sched_emit e st = (fst st, emit e (snd st))"

interpretation default_traced: traced_scheduler "DefaultScheduler_methods A" recorded sched_emit
  for A :: "('w, 'c, 'p) adapter"
  by unfold_locales (simp add: recorded_def sched_emit_def)

end
