(* ===== verification/Watched_Jobs.thy ===== *)
theory Watched_Jobs
  imports Watch_FanIn
begin

text \<open>
  From the agents to the phase of a job, for any platform: an adapter whose watch always opens
  and sends at most one event for each agent, decided by what the turns of its loop find of the agent.
  Both adapters keep this contract, traced or not, so the outcome of a job is proved once.
\<close>

text \<open>
  \<open>watch\<close> is the goroutine for an agent, \<open>fine\<close> a turn that does not tell it to stop, and
  \<open>outcome\<close> what the turns so far say of the agent.
\<close>

locale watched_adapter =
  fixes A :: "('w, 'c, 'p) adapter" and watch :: "string \<Rightarrow> 'p watchproc"
    and fine :: "'p \<Rightarrow> bool" and outcome :: "string \<Rightarrow> 'p list \<Rightarrow> EventType option"
  assumes opens: "\<exists>s'. pa_WatchAgent A c i s = (Inr (watch i), s')"
    and one_shot: "one_shot i (watch i)"
    and reports: "\<forall>p\<in>set ps. fine p \<Longrightarrow>
      map ev_Type (fst (watch i ps)) = (case outcome i ps of None \<Rightarrow> [] | Some t \<Rightarrow> [t])"
begin

lemma opens_all: "\<exists>s'. watch_all A c ids s = (Inr (map watch ids), s')"
proof (induction ids arbitrary: s)
  case (Cons i ids)
  obtain s1 where "pa_WatchAgent A c i s = (Inr (watch i), s1)" using opens by blast
  with Cons.IH [of s1] show ?case by auto
qed simp

text \<open>A call of \<open>Schedule\<close> that succeeds leaves one goroutine for each agent it spawned, the agents it records.\<close>

lemma Schedule_watchers:
  assumes run: "Schedule A job (ds, s) = ((None, job'), ds', s')"
  obtains ids s1 s2 c rec where
    "spawn_all A (sp_TenantRef (job_Spec job)) (sp_Agents (job_Spec job)) s = (Inr ids, s1)"
    and "with_cancel s1 = (c, s2)" and "watch_all A c ids s2 = (Inr (map watch ids), s')"
    and "ds_watchers ds' = ds_watchers ds @ [(job_ID job, map watch ids)]"
    and "ds_jobs ds' (job_ID job) = Some rec" and "jr_agentIDs rec = ids"
proof -
  obtain x s1 where spawn: "spawn_all A (sp_TenantRef (job_Spec job)) (sp_Agents (job_Spec job)) s = (x, s1)"
    by fastforce
  then obtain ids where x: "x = Inr ids" using run by (cases x) (auto simp: Schedule_def)
  obtain c s2 where wc: "with_cancel s1 = (c, s2)" by fastforce
  obtain s3 where watch: "watch_all A c ids s2 = (Inr (map watch ids), s3)"
    using opens_all by blast
  obtain e j jobs where commit: "schedule_commit job ids c (ds_jobs ds) = (e, j, jobs)" by (metis prod_cases3)
  have e: "e = None" using run by (cases e) (auto simp: Schedule_def spawn x wc watch commit)
  have "ds_watchers ds' = ds_watchers ds @ [(job_ID job, map watch ids)] \<and> ds_jobs ds' = jobs \<and> s' = s3"
    using run by (auto simp: Schedule_def spawn x wc watch commit e)
  with schedule_commit_None(3) [OF commit [unfolded e]] spawn x wc watch that show ?thesis by auto
qed

lemma event_types:
  assumes "\<forall>ps\<in>set pss. \<forall>p\<in>set ps. fine p" and "length ids = length pss"
  shows "map (map ev_Type) (channel_events (map watch ids) pss)
    = map (\<lambda>out. case out of None \<Rightarrow> [] | Some t \<Rightarrow> [t]) (map2 outcome ids pss)"
  unfolding channel_events_def using assms(2,1)
  by (induction ids pss rule: list_induct2) (auto simp: reports)

lemma channels:
  assumes "\<forall>ps\<in>set pss. \<forall>p\<in>set ps. fine p" and "length ids = length pss"
  shows "[] \<in> set (channel_events (map watch ids) pss) \<longleftrightarrow> None \<in> set (map2 outcome ids pss)"
    and "(\<exists>ch\<in>set (channel_events (map watch ids) pss). \<exists>e\<in>set ch. ev_Type e = EventFailed)
      \<longleftrightarrow> Some EventFailed \<in> set (map2 outcome ids pss)"
proof -
  let ?chs = "channel_events (map watch ids) pss" and ?outs = "map2 outcome ids pss"
  let ?out = "\<lambda>out. case out of None \<Rightarrow> [] | Some t \<Rightarrow> [t :: EventType]"
  have "[] \<in> set ?chs \<longleftrightarrow> [] \<in> set (map (map ev_Type) ?chs)" by force
  also have "\<dots> \<longleftrightarrow> [] \<in> ?out ` set ?outs" unfolding event_types [OF assms] by (simp only: set_map)
  also have "\<dots> \<longleftrightarrow> None \<in> set ?outs" by (force split: option.splits)
  finally show "[] \<in> set ?chs \<longleftrightarrow> None \<in> set ?outs" .
  have "(\<exists>ch\<in>set ?chs. \<exists>e\<in>set ch. ev_Type e = EventFailed)
      \<longleftrightarrow> (\<exists>ts\<in>set (map (map ev_Type) ?chs). EventFailed \<in> set ts)" by force
  also have "\<dots> \<longleftrightarrow> (\<exists>ts\<in>?out ` set ?outs. EventFailed \<in> set ts)"
    unfolding event_types [OF assms] by (simp only: set_map)
  also have "\<dots> \<longleftrightarrow> Some EventFailed \<in> set ?outs" by (force split: option.splits)
  finally show "(\<exists>ch\<in>set ?chs. \<exists>e\<in>set ch. ev_Type e = EventFailed) \<longleftrightarrow> Some EventFailed \<in> set ?outs" .
qed

lemma one_shot_channels: "list_all2 one_shot ids (map watch ids)"
  by (simp add: list_all2_conv_all_nth one_shot)

text \<open>The agents decide the job: each goroutine what becomes of the agent it watches.\<close>

lemma job_outcome:
  assumes "length ids = length pss" and "\<forall>ps\<in>set pss. \<forall>p\<in>set ps. fine p"
    and "jobs i = Some rec" and "job_phase (jr_job rec) = PhaseRunning"
    and m: "merged (channel_events (map watch ids) pss) evs"
  shows "watchJob i (length ids) evs jobs =
      (if None \<in> set (map2 outcome ids pss) then jobs
       else jobs(i \<mapsto> rec\<lparr>jr_job := set_phase
         (if Some EventFailed \<in> set (map2 outcome ids pss) then PhaseFailed else PhaseSucceeded) (jr_job rec)\<rparr>))"
  using watchJob_merged [where agents = ids and i = i and jobs = jobs, OF one_shot_channels _ m assms(3,4)] assms(1)
  unfolding channels [OF assms(2,1)] by simp

end

text \<open>Tracing an adapter does not change what its watch returns.\<close>

lemma traced_watched:
  assumes "watched_adapter A watch fine outcome"
  shows "watched_adapter (WrapPlatformAdapter A) watch fine outcome"
proof
  fix c i s
  obtain s1 where "pa_WatchAgent A c i (emit (SpanStart ''PlatformAdapter.WatchAgent'') s) = (Inr (watch i), s1)"
    using watched_adapter.opens [OF assms] by blast
  then show "\<exists>s'. pa_WatchAgent (WrapPlatformAdapter A) c i s = (Inr (watch i), s')"
    by (simp add: WrapWith_def)
qed (rule watched_adapter.one_shot [OF assms] watched_adapter.reports [OF assms], assumption?)+

end
