(* ===== verification/K8s_Jobs.thy ===== *)
theory K8s_Jobs
  imports Watched_Jobs K8s_Adapter
begin

text \<open>
  A job from its scheduling to its outcome on Kubernetes: the goroutines that \<open>Schedule\<close> starts
  poll the pods it created, \<open>watchJob\<close> merges what they report, and the phase it writes is decided
  by the pods alone.
\<close>

section \<open>What becomes of a pod\<close>

text \<open>The first verdict on the pod with the given key that the turns of a watch reach\<close>

fun pod_outcome :: "'w kclient \<Rightarrow> key \<Rightarrow> 'w k8s_turn list \<Rightarrow> EventType option" where
  "pod_outcome kc k [] = None"
| "pod_outcome kc k (p # ps) = (case pod_verdict kc k p of None \<Rightarrow> pod_outcome kc k ps | Some t \<Rightarrow> Some t)"

lemma k8s_watch_outcome:
  "\<forall>p\<in>set ps. \<not> turn_cancelled p \<and> \<not> turn_done p \<Longrightarrow>
     map ev_Type (fst (k8s_watch kc ns a ps)) = (case pod_outcome kc (ns, a) ps of None \<Rightarrow> [] | Some t \<Rightarrow> [t])"
  by (induction ps) (auto simp: pod_verdict_def fst_api send_unless_def agent_event_def split: sum.splits)

section \<open>The adapter, with or without tracing\<close>

interpretation k8s_watched: watched_adapter "NewK8sAdapter kc ns" "k8s_watch kc ns"
    "\<lambda>p. \<not> turn_cancelled p \<and> \<not> turn_done p" "\<lambda>i. pod_outcome kc (ns, i)"
  for kc :: "'w kclient" and ns :: string
  by unfold_locales (simp_all add: K8s_WatchAgent_def k8s_watch_one_shot k8s_watch_outcome)

lemma k8s_adapter_watched:
  "k8s_adapter kc ns A \<Longrightarrow>
     watched_adapter A (k8s_watch kc ns) (\<lambda>p. \<not> turn_cancelled p \<and> \<not> turn_done p) (\<lambda>i. pod_outcome kc (ns, i))"
  using k8s_watched.watched_adapter_axioms by (auto simp: k8s_adapter_def intro: traced_watched)

text \<open>What a successful \<open>Schedule\<close> has asked of the cluster and has started\<close>

lemma k8s_scheduled:
  assumes "k8s_adapter kc ns A" and "Schedule A job (ds, s) = ((None, job'), ds', s')"
  shows "calls (trace s') = calls (trace s)
      @ map (\<lambda>r. (KCreate (OPod (k8s_pod ns (sp_TenantRef (job_Spec job)) r)), None)) (sp_Agents (job_Spec job))
    \<and> ds_watchers ds' = ds_watchers ds @ [(job_ID job,
        map (\<lambda>r. k8s_watch kc ns (k8s_pod_name (sp_TenantRef (job_Spec job)) (ar_Role r))) (sp_Agents (job_Spec job)))]"
proof -
  obtain ids s1 s2 c where
    spawn: "spawn_all A (sp_TenantRef (job_Spec job)) (sp_Agents (job_Spec job)) s = (Inr ids, s1)"
    and wc: "with_cancel s1 = (c, s2)" and watch: "watch_all A c ids s2 = (Inr (map (k8s_watch kc ns) ids), s')"
    and watchers: "ds_watchers ds' = ds_watchers ds @ [(job_ID job, map (k8s_watch kc ns) ids)]"
    by (rule watched_adapter.Schedule_watchers [OF k8s_adapter_watched [OF assms(1)] assms(2)])
  have "calls (trace s2) = calls (trace s1)" using wc by (auto simp: with_cancel_def)
  with k8s_spawn_all [OF assms(1) spawn] k8s_watch_all [OF assms(1) watch] watchers
  show ?thesis by (simp add: comp_def)
qed

text \<open>
  C24. On Kubernetes the pods decide the job. A \<open>Schedule\<close> that succeeds has created one pod for each role
  and has started one goroutine for each role, in the same order, which polls that pod. When none of
  the goroutines is told to stop, then in whatever order they report, and whatever has happened to other
  jobs, a job that is still running becomes Succeeded if every pod has succeeded and Failed if one
  has failed or was deleted; as long as some pod has no outcome the job stays as it is. A job with
  no roles succeeds at once.
\<close>

theorem k8s_job_outcome:
  assumes "k8s_adapter kc ns A" and "Schedule A job (ds, s) = ((None, job'), ds', s')"
    and "pods = map (k8s_pod ns (sp_TenantRef (job_Spec job))) (sp_Agents (job_Spec job))"
    and "chs = map (\<lambda>pod. k8s_watch kc ns (om_Name (pod_Meta pod))) pods"
    and "length turns = length pods"
    and "\<forall>ps\<in>set turns. \<forall>p\<in>set ps. \<not> turn_cancelled p \<and> \<not> turn_done p"
    and "jobs (job_ID job) = Some rec" and "job_phase (jr_job rec) = PhaseRunning"
    and "merged (channel_events chs turns) evs"
  shows "calls (trace s') = calls (trace s) @ map (\<lambda>pod. (KCreate (OPod pod), None)) pods
    \<and> ds_watchers ds' = ds_watchers ds @ [(job_ID job, chs)]
    \<and> watchJob (job_ID job) (length chs) evs jobs =
        (if None \<in> set (map2 (\<lambda>pod. pod_outcome kc (meta_key (pod_Meta pod))) pods turns) then jobs
         else jobs(job_ID job \<mapsto> rec\<lparr>jr_job := set_phase
           (if Some EventFailed \<in> set (map2 (\<lambda>pod. pod_outcome kc (meta_key (pod_Meta pod))) pods turns)
            then PhaseFailed else PhaseSucceeded) (jr_job rec)\<rparr>))"
proof -
  let ?t = "sp_TenantRef (job_Spec job)" and ?roles = "sp_Agents (job_Spec job)"
  let ?ids = "map (\<lambda>r. k8s_pod_name ?t (ar_Role r)) ?roles"
  have name: "om_Name (pod_Meta (k8s_pod ns ?t r)) = k8s_pod_name ?t (ar_Role r)" for r by (simp add: k8s_pod_def)
  have chs: "chs = map (k8s_watch kc ns) ?ids" using assms(3,4) by (simp add: name comp_def)
  have len: "length ?ids = length turns" using assms(3,5) by simp
  have outs: "map2 (\<lambda>pod. pod_outcome kc (meta_key (pod_Meta pod))) pods turns
      = map2 (\<lambda>i. pod_outcome kc (ns, i)) ?ids turns"
    using assms(3) by (simp add: zip_map1 case_prod_beta comp_def)
  note out = watched_adapter.job_outcome [where jobs = jobs and i = "job_ID job",
      OF k8s_adapter_watched [OF assms(1)] len assms(6-8) assms(9) [unfolded chs]]
  have "length chs = length ?ids" using chs by simp
  with out [folded outs] have "watchJob (job_ID job) (length chs) evs jobs =
      (if None \<in> set (map2 (\<lambda>pod. pod_outcome kc (meta_key (pod_Meta pod))) pods turns) then jobs
       else jobs(job_ID job \<mapsto> rec\<lparr>jr_job := set_phase
         (if Some EventFailed \<in> set (map2 (\<lambda>pod. pod_outcome kc (meta_key (pod_Meta pod))) pods turns)
          then PhaseFailed else PhaseSucceeded) (jr_job rec)\<rparr>))" by (simp only:)
  with k8s_scheduled [OF assms(1,2)] show ?thesis
    unfolding chs assms(3) by (simp only: map_map comp_def simp_thms)
qed

text \<open>One pod that runs a while and succeeds, and one that is deleted\<close>

definition two_roles :: Job where
  "two_roles = \<lparr>job_ID = ''j'', job_TenantID = ''acme'',
     job_Spec = zero_Spec\<lparr>sp_TenantRef := ''acme'', sp_Agents := [one_role ''a'', one_role ''b'']\<rparr>,
     job_Status = zero_Status\<rparr>"

definition a_pod :: key where "a_pod = (''muto'', ''muto-acme-a'')"

definition two_pods :: "(key \<rightharpoonup> string) k8s_turn list list" where
  "two_pods = [[turn_on [a_pod \<mapsto> ''Running''], turn_on [a_pod \<mapsto> ''Succeeded'']],
               [turn_on [a_pod \<mapsto> ''Running'']]]"

lemma two_pods_outcome:
  "map2 (\<lambda>pod. pod_outcome pod_server (meta_key (pod_Meta pod))) (map (k8s_pod ''muto'' ''acme'') [one_role ''a'', one_role ''b''])
     two_pods = [Some EventCompleted, Some EventFailed]"
  by (simp add: two_pods_def pod_verdict_def pod_server_def a_pod_def one_role_def k8s_pod_name_def zero_Pod_def
      PodSucceeded_def PodFailed_def no_object_def)

lemma two_roles_scheduled:
  "\<exists>job' ds' s' rec. Schedule (NewK8sAdapter pod_server ''muto'') two_roles (NewDefaultScheduler, no_pods) = ((None, job'), ds', s')
     \<and> ds_jobs ds' ''j'' = Some rec \<and> job_phase (jr_job rec) = PhaseRunning"
  by (simp add: Schedule_def two_roles_def K8s_SpawnAgent_def K8s_WatchAgent_def role_spec_def pod_server_def no_pods_def
      api_err_def k8s_pod_name_def one_role_def schedule_commit_def NewDefaultScheduler_def
      with_cancel_def zero_Status_def set_phase_def Let_def)

theorem k8s_job_outcome_witness:
  "\<exists>job' ds' s' chs rec. Schedule (NewK8sAdapter pod_server ''muto'') two_roles (NewDefaultScheduler, no_pods) = ((None, job'), ds', s')
    \<and> ds_watchers ds' = [(''j'', chs)]
    \<and> watchJob ''j'' 2 (concat (channel_events chs two_pods)) (ds_jobs ds') ''j'' = Some rec
    \<and> job_phase (jr_job rec) = PhaseFailed"
proof -
  let ?pods = "map (k8s_pod ''muto'' (sp_TenantRef (job_Spec two_roles))) (sp_Agents (job_Spec two_roles))"
  let ?chs = "map (\<lambda>pod. k8s_watch pod_server ''muto'' (om_Name (pod_Meta pod))) ?pods"
  obtain job' ds' s' rec where run: "Schedule (NewK8sAdapter pod_server ''muto'') two_roles (NewDefaultScheduler, no_pods) = ((None, job'), ds', s')"
    and rec: "ds_jobs ds' (job_ID two_roles) = Some rec" "job_phase (jr_job rec) = PhaseRunning"
    using two_roles_scheduled by (auto simp: two_roles_def)
  have len: "length two_pods = length ?pods" by (simp add: two_pods_def two_roles_def)
  have on: "\<forall>ps\<in>set two_pods. \<forall>p\<in>set ps. \<not> turn_cancelled p \<and> \<not> turn_done p" by (simp add: two_pods_def)
  have outs: "map2 (\<lambda>pod. pod_outcome pod_server (meta_key (pod_Meta pod))) ?pods two_pods = [Some EventCompleted, Some EventFailed]"
    using two_pods_outcome by (simp add: two_roles_def)
  have id: "job_ID two_roles = ''j''" and two: "length ?chs = 2" by (simp_all add: two_roles_def)
  have "ds_watchers ds' = [(''j'', ?chs)] \<and> watchJob ''j'' 2 (concat (channel_events ?chs two_pods)) (ds_jobs ds')
      = (ds_jobs ds')(''j'' \<mapsto> rec\<lparr>jr_job := set_phase PhaseFailed (jr_job rec)\<rparr>)"
    using k8s_job_outcome [where jobs = "ds_jobs ds'", OF k8s_adapterI(1) run refl refl len on rec merged_concat]
    unfolding outs id two by (simp add: NewDefaultScheduler_def del: map_map)
  with run show ?thesis by (intro exI [of _ job'] exI [of _ ds'] exI [of _ s'] exI [of _ ?chs]) (simp add: set_phase_def)
qed

end
