(* ===== verification/Reconciler.thy ===== *)
theory Reconciler
  imports Kube_Client
begin

text \<open>
  What every reconciler of \<open>platform/k8s/reconcilers\<close> promises to the manager that runs it:
  its first request reads the object it was called for, the reconciliation is counted
  exactly once under its name and its result, and every metric operation has its OTLP twin. The locale
  draws the consequences for any sequence of reconciliations.
\<close>

section \<open>Steps inside a reconciliation\<close>

text \<open>
  The steps extend the trace, preserve the mirroring of metrics and count no reconciliation.
\<close>

definition metric_step :: "('w, 'c) io_state \<Rightarrow> ('w, 'c) io_state \<Rightarrow> bool" where
  "metric_step s s' \<longleftrightarrow> prefix (trace s) (trace s') \<and> (mirrored s \<longrightarrow> mirrored s')
     \<and> (\<forall>n. reconcile_results n (prom_ops (trace s')) = reconcile_results n (prom_ops (trace s)))"

lemma metric_step_refl [simp, intro]: "metric_step s s"
  by (simp add: metric_step_def)

lemma metric_step_trans [trans]: "metric_step s t \<Longrightarrow> metric_step t u \<Longrightarrow> metric_step s u"
  by (auto simp: metric_step_def intro: prefix_order.trans)

lemma prefix_metrics [simp]:
  "prefix (trace s) (trace (JobStarted t n s))" "prefix (trace s) (trace (JobFinished os t st at n s))"
  by (auto simp: JobStarted_def RecordJobStarted_def JobFinished_def RecordJobFinished_def
      Let_def now_def split: prod.splits)

lemma metric_step_calls:
  "metric_step s s' \<Longrightarrow> \<exists>cs. calls (trace s') = calls (trace s) @ cs"
  by (auto simp: metric_step_def prefix_def)

lemma metric_step_api: "api c f s = (r, s') \<Longrightarrow> metric_step s s'"
  by (simp add: metric_step_def mirrored_api api_trace)

lemma metric_step_api_err: "api_err c f s = (r, s') \<Longrightarrow> metric_step s s'"
  by (simp add: metric_step_def mirrored_api_err api_err_trace)

lemma metric_step_now: "now os s = (t, s') \<Longrightarrow> metric_step s s'"
  by (simp add: metric_step_def mirrored_now now_trace)

lemma metric_step_log [simp, intro]:
  "metric_step s (emit (LogInfo x) s)" "metric_step s (emit (LogError y x) s)"
  by (simp_all add: metric_step_def)

lemma metric_step_JobStarted [simp, intro]: "metric_step s (JobStarted t n s)"
  by (simp add: metric_step_def mirrored_JobStarted prom_ops_JobStarted)

lemma reconcile_results_observe:
  "\<forall>m\<in>set ms. \<exists>d. m = Observe JobDuration ls d \<Longrightarrow> reconcile_results n ms = []"
  by (induction ms) auto

lemma metric_step_JobFinished [simp, intro]: "metric_step s (JobFinished os t st at n s)"
  using prom_ops_JobFinished [of t st os at n s]
  by (auto simp: metric_step_def mirrored_JobFinished reconcile_results_observe)

lemmas metric_steps = metric_step_api metric_step_api_err metric_step_now

text \<open>A chain of steps that ends in a recording\<close>

lemma metric_step_post [intro]:
  "metric_step s u \<Longrightarrow> metric_step s (JobStarted t n u)"
  "metric_step s u \<Longrightarrow> metric_step s (JobFinished os t st at n u)"
  "metric_step s u \<Longrightarrow> metric_step s (emit (LogInfo x) u)"
  "metric_step s u \<Longrightarrow> metric_step s (emit (LogError y x) u)"
  by (auto intro: metric_step_trans)

section \<open>The contract\<close>

fun run_requests ::
    "(key \<Rightarrow> 'w kstate \<Rightarrow> Result res \<times> 'w kstate) \<Rightarrow> key list \<Rightarrow> 'w kstate \<Rightarrow> 'w kstate" where
  "run_requests R [] s = s"
| "run_requests R (req # reqs) s = run_requests R reqs (snd (R req s))"

fun run_results ::
    "(key \<Rightarrow> 'w kstate \<Rightarrow> Result res \<times> 'w kstate) \<Rightarrow> key list \<Rightarrow> 'w kstate \<Rightarrow> Result res list" where
  "run_results R [] s = []"
| "run_results R (req # reqs) s = fst (R req s) # run_results R reqs (snd (R req s))"

locale reconciler =
  fixes name :: string and kind :: kkind
    and R :: "key \<Rightarrow> 'w kstate \<Rightarrow> Result res \<times> 'w kstate"
  assumes reads_first: "R req s = (r, s') \<Longrightarrow>
      \<exists>e cs. calls (trace s') = calls (trace s) @ (KGet kind req, e) # cs"
    and counted_once: "R req s = (r, s') \<Longrightarrow>
      reconcile_results name (prom_ops (trace s')) = reconcile_results name (prom_ops (trace s))
        @ [case r of Inl _ \<Rightarrow> ''error'' | Inr _ \<Rightarrow> ''success'']"
    and mirrors: "R req s = (r, s') \<Longrightarrow> mirrored s \<Longrightarrow> mirrored s'"
begin

lemma counted_all:
  "reconcile_results name (prom_ops (trace (run_requests R reqs s)))
     = reconcile_results name (prom_ops (trace s))
       @ map (\<lambda>r. case r of Inl _ \<Rightarrow> ''error'' | Inr _ \<Rightarrow> ''success'') (run_results R reqs s)"
proof (induction reqs arbitrary: s)
  case Nil
  then show ?case by simp
next
  case (Cons req reqs)
  have "reconcile_results name (prom_ops (trace (snd (R req s))))
      = reconcile_results name (prom_ops (trace s))
        @ [case fst (R req s) of Inl _ \<Rightarrow> ''error'' | Inr _ \<Rightarrow> ''success'']"
    by (rule counted_once [of req s "fst (R req s)"]) simp
  with Cons show ?case by simp
qed

lemma mirrored_all: "mirrored s \<Longrightarrow> mirrored (run_requests R reqs s)"
proof (induction reqs arbitrary: s)
  case Nil
  then show ?case by simp
next
  case (Cons req reqs)
  have "mirrored (snd (R req s))"
    by (rule mirrors [of req s "fst (R req s)"]) (simp_all add: Cons.prems)
  with Cons show ?case by simp
qed

text \<open>With the mirror in place from the start, the OTLP counter agrees.\<close>

lemma otlp_agrees:
  "mirrored s \<Longrightarrow> otlp_ops (trace (run_requests R reqs s)) = prom_ops (trace (run_requests R reqs s))"
  using mirrored_all by (simp add: mirrored_def)

end

text \<open>A body observed by \<open>ObserveReconcile\<close> keeps the contract when its steps do.\<close>

lemma reconciler_ObserveReconcile:
  assumes step: "\<And>req s r s'. body req s = (r, s') \<Longrightarrow> metric_step s s'"
    and first: "\<And>req s r s'. body req s = (r, s') \<Longrightarrow>
      \<exists>e cs. calls (trace s') = calls (trace s) @ (KGet kind req, e) # cs"
  shows "reconciler name kind (\<lambda>req. ObserveReconcile os name (body req))"
proof
  fix req s r s'
  assume run: "ObserveReconcile os name (body req) s = (r, s')"
  obtain t1 s1 where 1: "now os s = (t1, s1)" by fastforce
  obtain x s2 where 2: "body req s1 = (x, s2)" by fastforce
  obtain t2 s3 where 3: "now os s2 = (t2, s3)" by fastforce
  have "calls (trace s') = calls (trace s3)"
    using run by (auto simp: ObserveReconcile_def Let_def 1 2 3)
  then show "\<exists>e cs. calls (trace s') = calls (trace s) @ (KGet kind req, e) # cs"
    using first [OF 2] now_trace [OF 1] now_trace [OF 3] by simp
  have "reconcile_results name (prom_ops (trace s')) = reconcile_results name (prom_ops (trace s3))
      @ [case r of Inl _ \<Rightarrow> ''error'' | Inr _ \<Rightarrow> ''success'']"
    using run by (auto simp: ObserveReconcile_def RecordReconcile_def Let_def 1 2 3 split: sum.splits)
  then show "reconcile_results name (prom_ops (trace s')) = reconcile_results name (prom_ops (trace s))
      @ [case r of Inl _ \<Rightarrow> ''error'' | Inr _ \<Rightarrow> ''success'']"
    using step [OF 2] now_trace [OF 1] now_trace [OF 3] by (simp add: metric_step_def)
  assume "mirrored s"
  with run show "mirrored s'"
    using mirrored_ObserveReconcile [of "body req" s os name r s'] step by (auto simp: metric_step_def)
qed

end
