(* ===== verification/A2A.thy ===== *)
theory A2A
  imports Prelude
begin

text \<open>
  \<open>core/a2a/a2a.go\<close>: the name of the A2A bus type and the configuration of a client.
\<close>

definition BusTypeA2A :: string where
  "BusTypeA2A = ''a2a''"

record A2AConfig =
  a2a_GatewayURL :: string
  a2a_AuthToken :: string

end
