(* ===== verification/Job_Reconciler.thy ===== *)
theory Job_Reconciler
  imports Reconciler State_Machine A2A
begin

text \<open>
  \<open>platform/k8s/reconcilers/agentjob_reconciler.go\<close>: one reconciliation of an \<open>AgentJob\<close>, by
  phase. Everything is stated for any client: what a reconciliation writes, and in which
  order, is read off the trace of its requests.
\<close>

section \<open>The pod of a replica\<close>

text \<open>\<open>replicas := roleSpec.MaxReplicas; if replicas == 0 { replicas = 1 }\<close>\<close>

definition replicas_of :: "AgentRoleSpec \<Rightarrow> int32" where
  "replicas_of role = (if rs_MaxReplicas role = 0 then 1 else rs_MaxReplicas role)"

definition job_pod_name :: "string \<Rightarrow> AgentRoleSpec \<Rightarrow> int32 \<Rightarrow> string" where
  "job_pod_name jobName role replicaIndex =
     (if sint (replicas_of role) > 1
      then jobName @ ''-'' @ rs_Role role @ ''-'' @ dec_int (sint replicaIndex)
      else jobName @ ''-'' @ rs_Role role)"

definition pod_env :: "AgentJob \<Rightarrow> AgentRoleSpec \<Rightarrow> KTenant \<Rightarrow> EnvVar list" where
  "pod_env job role tenant =
     (let envVars =
        [env_var ''MUTO_TENANT'' (js_TenantRef (aj_Spec job)),
         env_var ''MUTO_ROLE'' (rs_Role role),
         env_var ''MUTO_JOB_ID'' (om_Name (aj_Meta job)),
         env_var ''MUTO_MESSAGEBUS_TOPIC'' (jb_Topic (js_MessageBus (aj_Spec job)))]
      in if tb_Type (tsp_MessageBus (kt_Spec tenant)) = BusTypeA2A then
           envVars @
           [env_var ''MUTO_A2A_GATEWAY''
              (''http://a2a-gateway.'' @ om_Namespace (aj_Meta job) @ ''.svc.cluster.local:8080''),
            \<lparr>env_Name = ''MUTO_A2A_TOKEN'', env_Value = [],
             env_ValueFrom = Some \<lparr>sks_Name = ''muto-a2a-token'', sks_Key = ''token''\<rparr>\<rparr>]
         else envVars)"

definition busybox_command :: "string list" where
  "busybox_command = [''sh'', ''-c'', ''trap '' @ [CHR 0x27] @ ''exit 0'' @ [CHR 0x27] @ '' TERM; sleep 30 & wait'']"

definition buildPod :: "ctrl_lib \<Rightarrow> AgentJob \<Rightarrow> AgentRoleSpec \<Rightarrow> KTenant \<Rightarrow> int32 \<Rightarrow> Pod" where
  "buildPod cl job role tenant replicaIndex =
     \<lparr>pod_Meta = zero_ObjectMeta
        \<lparr>om_Name := job_pod_name (om_Name (aj_Meta job)) role replicaIndex,
         om_Namespace := om_Namespace (aj_Meta job),
         om_Labels := [''muto.io/tenant'' \<mapsto> js_TenantRef (aj_Spec job),
                       ''muto.io/job'' \<mapsto> om_Name (aj_Meta job),
                       ''muto.io/role'' \<mapsto> rs_Role role],
         om_OwnerReferences := [cl_NewControllerRef cl (aj_Meta job) ''AgentJob'']\<rparr>,
      pod_Spec = \<lparr>ps_Containers =
          [zero_Container\<lparr>ct_Name := rs_Role role, ct_Image := rs_Image role,
             ct_Env := pod_env job role tenant,
             ct_Command := (if rs_Image role = ''busybox:latest'' then busybox_command else [])\<rparr>],
        ps_RestartPolicy = RestartPolicyNever\<rparr>,
      pod_Phase = []\<rparr>"

section \<open>reconcilePending\<close>

text \<open>\<open>for i := int32(0); i < replicas; i++\<close>, with the number of turns left as a counter\<close>

fun create_replicas ::
    "'w kclient \<Rightarrow> ctrl_lib \<Rightarrow> AgentJob \<Rightarrow> AgentRoleSpec \<Rightarrow> KTenant \<Rightarrow> nat \<Rightarrow> int32
     \<Rightarrow> 'w kstate \<Rightarrow> goerror option \<times> 'w kstate" where
  "create_replicas kc cl job role tenant 0 i s = (None, s)"
| "create_replicas kc cl job role tenant (Suc k) i s =
     (case k_Create kc (OPod (buildPod cl job role tenant i)) s of
        (Some err, s1) \<Rightarrow>
          (if \<not> IsAlreadyExists err then (Some (Wrapped ''create pod: '' err), s1)
           else create_replicas kc cl job role tenant k (i + 1) s1)
      | (None, s1) \<Rightarrow> create_replicas kc cl job role tenant k (i + 1) s1)"

text \<open>The outer loop, with \<open>totalAgents\<close> as accumulator (an \<open>int\<close> of 64 bits)\<close>

fun create_agents ::
    "'w kclient \<Rightarrow> ctrl_lib \<Rightarrow> AgentJob \<Rightarrow> KTenant \<Rightarrow> AgentRoleSpec list \<Rightarrow> int64
     \<Rightarrow> 'w kstate \<Rightarrow> int64 res \<times> 'w kstate" where
  "create_agents kc cl job tenant [] totalAgents s = (Inr totalAgents, s)"
| "create_agents kc cl job tenant (role # roles) totalAgents s =
     (case create_replicas kc cl job role tenant (nat (sint (replicas_of role))) 0 s of
        (Some err, s1) \<Rightarrow> (Inl err, s1)
      | (None, s1) \<Rightarrow>
          create_agents kc cl job tenant roles (totalAgents + scast (replicas_of role)) s1)"

definition reconcilePending ::
    "'w kclient \<Rightarrow> 'w os \<Rightarrow> ctrl_lib \<Rightarrow> AgentJob \<Rightarrow> 'w kstate \<Rightarrow> Result res \<times> 'w kstate" where
  "reconcilePending kc os cl job s =
     (case k_GetTenant kc ([], js_TenantRef (aj_Spec job)) s of
        (Inl err, s1) \<Rightarrow>
          (Inl (Wrapped (''get tenant '' @ go_quote (js_TenantRef (aj_Spec job)) @ '': '') err), s1)
      | (Inr tenant, s1) \<Rightarrow>
          (case create_agents kc cl job tenant (js_Agents (aj_Spec job)) 0 s1 of
             (Inl err, s2) \<Rightarrow> (Inl err, s2)
           | (Inr totalAgents, s2) \<Rightarrow>
               (let (t, s3) = now os s2;
                    job' = job\<lparr>aj_Status := (aj_Status job)
                       \<lparr>jst_Phase := PhaseRunning,
                        jst_ActiveAgents := ucast totalAgents,
                        jst_StartedAt := Some t\<rparr>\<rparr>
                in case k_StatusUpdateJob kc job' s3 of
                     (Inl err, s4) \<Rightarrow> (Inl err, s4)
                   | (Inr _, s4) \<Rightarrow>
                       (Inr 0, JobStarted (om_Name (kt_Meta tenant)) (ucast totalAgents) s4))))"

section \<open>reconcileRunning\<close>

text \<open>The scan of the pods: \<open>allDone\<close> and \<open>anyFailed\<close>\<close>

fun scan_pods :: "Pod list \<Rightarrow> bool \<times> bool \<Rightarrow> bool \<times> bool" where
  "scan_pods [] (allDone, anyFailed) = (allDone, anyFailed)"
| "scan_pods (pod # pods) (allDone, anyFailed) =
     scan_pods pods
       (if pod_Phase pod \<noteq> PodSucceeded \<and> pod_Phase pod \<noteq> PodFailed then False else allDone,
        if pod_Phase pod = PodFailed then True else anyFailed)"

definition pods_of_job :: "AgentJob \<Rightarrow> string \<times> string" where
  "pods_of_job job = (''muto.io/job'', om_Name (aj_Meta job))"

definition reconcileRunning ::
    "'w kclient \<Rightarrow> 'w os \<Rightarrow> AgentJob \<Rightarrow> 'w kstate \<Rightarrow> Result res \<times> 'w kstate" where
  "reconcileRunning kc os job s =
     (case k_ListPods kc (om_Namespace (aj_Meta job)) (pods_of_job job) s of
        (Inl err, s1) \<Rightarrow> (Inl err, s1)
      | (Inr pods, s1) \<Rightarrow>
          (if pods = [] then (Inr (1 * Second), s1)
           else
             (let (allDone, anyFailed) = scan_pods pods (True, False) in
              if \<not> allDone then (Inr (5 * Second), s1)
              else
                (let phase = (if anyFailed then PhaseFailed else PhaseSucceeded);
                     startedAt = (case jst_StartedAt (aj_Status job) of
                                    None \<Rightarrow> zero_time | Some t \<Rightarrow> t);
                     activeAgents = jst_ActiveAgents (aj_Status job);
                     (t, s2) = now os s1;
                     job' = job\<lparr>aj_Status := (aj_Status job)
                       \<lparr>jst_CompletedAt := Some t, jst_ActiveAgents := 0, jst_Phase := phase\<rparr>\<rparr>
                 in case k_StatusUpdateJob kc job' s2 of
                      (Inl err, s3) \<Rightarrow> (Inl err, s3)
                    | (Inr job'', s3) \<Rightarrow>
                        (Inr (seconds (js_TTLAfterCompletion (aj_Spec job''))),
                         JobFinished os (js_TenantRef (aj_Spec job'')) (ToLower phase)
                           startedAt activeAgents s3)))))"

section \<open>reconcileTerminal\<close>

definition reconcileTerminal ::
    "'w kclient \<Rightarrow> 'w os \<Rightarrow> AgentJob \<Rightarrow> 'w kstate \<Rightarrow> Result res \<times> 'w kstate" where
  "reconcileTerminal kc os job s =
     (if sint (js_TTLAfterCompletion (aj_Spec job)) \<le> 0 then (Inr 0, s)
      else
        (case jst_CompletedAt (aj_Status job) of
           None \<Rightarrow> (Inr 0, s)
         | Some completedAt \<Rightarrow>
             (let (t, s1) = now os s;
                  elapsed = time_sub t completedAt;
                  ttl = seconds (js_TTLAfterCompletion (aj_Spec job))
              in if sint elapsed < sint ttl then (Inr (ttl - elapsed), s1)
                 else
                   (case k_StatusUpdateJob kc
                           (job\<lparr>aj_Status := (aj_Status job)\<lparr>jst_Phase := PhaseTerminating\<rparr>\<rparr>) s1 of
                      (Inl err, s2) \<Rightarrow> (Inl err, s2)
                    | (Inr _, s2) \<Rightarrow> (Inr 0, s2)))))"

section \<open>reconcileTerminating\<close>

fun delete_pods :: "'w kclient \<Rightarrow> Pod list \<Rightarrow> 'w kstate \<Rightarrow> goerror option \<times> 'w kstate" where
  "delete_pods kc [] s = (None, s)"
| "delete_pods kc (pod # pods) s =
     (case k_Delete kc (OPod pod) s of
        (Some err, s1) \<Rightarrow>
          (if \<not> IsNotFound err
           then (Some (Wrapped (''delete pod '' @ om_Name (pod_Meta pod) @ '': '') err), s1)
           else delete_pods kc pods s1)
      | (None, s1) \<Rightarrow> delete_pods kc pods s1)"

definition reconcileTerminating ::
    "'w kclient \<Rightarrow> AgentJob \<Rightarrow> 'w kstate \<Rightarrow> Result res \<times> 'w kstate" where
  "reconcileTerminating kc job s =
     (case k_ListPods kc (om_Namespace (aj_Meta job)) (pods_of_job job) s of
        (Inl err, s1) \<Rightarrow> (Inl (Wrapped ''list pods for terminating job: '' err), s1)
      | (Inr pods, s1) \<Rightarrow>
          (case delete_pods kc pods s1 of
             (Some err, s2) \<Rightarrow> (Inl err, s2)
           | (None, s2) \<Rightarrow>
               (case k_Delete kc (OJob job) s2 of
                  (Some err, s3) \<Rightarrow>
                    (if \<not> IsNotFound err then (Inl (Wrapped ''delete agentjob: '' err), s3)
                     else (Inr 0, s3))
                | (None, s3) \<Rightarrow> (Inr 0, s3))))"

section \<open>Reconcile\<close>

definition reconcile_job ::
    "'w kclient \<Rightarrow> 'w os \<Rightarrow> ctrl_lib \<Rightarrow> key \<Rightarrow> 'w kstate \<Rightarrow> Result res \<times> 'w kstate" where
  "reconcile_job kc os cl req s =
     (case k_GetJob kc req s of
        (Inl err, s1) \<Rightarrow>
          (case IgnoreNotFound err of None \<Rightarrow> (Inr 0, s1) | Some e \<Rightarrow> (Inl e, s1))
      | (Inr job, s1) \<Rightarrow>
          (let phase = jst_Phase (aj_Status job) in
           if phase = [] \<or> phase = PhasePending then reconcilePending kc os cl job s1
           else if phase = PhaseRunning then reconcileRunning kc os job s1
           else if phase = PhaseSucceeded \<or> phase = PhaseFailed then reconcileTerminal kc os job s1
           else if phase = PhaseTerminating then reconcileTerminating kc job s1
           else (Inr 0, s1)))"

definition AgentJobReconcile ::
    "'w kclient \<Rightarrow> 'w os \<Rightarrow> ctrl_lib \<Rightarrow> key \<Rightarrow> 'w kstate \<Rightarrow> Result res \<times> 'w kstate" where
  "AgentJobReconcile kc os cl req = ObserveReconcile os ''agentjob'' (reconcile_job kc os cl req)"

text \<open>As the manager runs it: \<open>tracing.WrapReconciler\<close> (\<open>platform/k8s/tracing\<close>)\<close>

definition WrapReconciler ::
    "string \<Rightarrow> (key \<Rightarrow> 'w kstate \<Rightarrow> Result res \<times> 'w kstate)
     \<Rightarrow> key \<Rightarrow> 'w kstate \<Rightarrow> Result res \<times> 'w kstate" where
  "WrapReconciler name inner req = Wrap name (inner req)"

definition AgentJobManaged ::
    "'w kclient \<Rightarrow> 'w os \<Rightarrow> ctrl_lib \<Rightarrow> key \<Rightarrow> 'w kstate \<Rightarrow> Result res \<times> 'w kstate" where
  "AgentJobManaged kc os cl = WrapReconciler ''AgentJobReconciler.Reconcile'' (AgentJobReconcile kc os cl)"

section \<open>The plan of a pending job\<close>

text \<open>The pods the two nested loops create, in order\<close>

definition role_pods :: "ctrl_lib \<Rightarrow> AgentJob \<Rightarrow> KTenant \<Rightarrow> AgentRoleSpec \<Rightarrow> Pod list" where
  "role_pods cl job tenant role =
     map (\<lambda>n. buildPod cl job role tenant (of_nat n)) [0..<nat (sint (replicas_of role))]"

definition job_plan :: "ctrl_lib \<Rightarrow> AgentJob \<Rightarrow> KTenant \<Rightarrow> Pod list" where
  "job_plan cl job tenant = concat (map (role_pods cl job tenant) (js_Agents (aj_Spec job)))"

fun create_each :: "'w kclient \<Rightarrow> Pod list \<Rightarrow> 'w kstate \<Rightarrow> goerror option \<times> 'w kstate" where
  "create_each kc [] s = (None, s)"
| "create_each kc (pod # pods) s =
     (case k_Create kc (OPod pod) s of
        (Some err, s1) \<Rightarrow>
          (if \<not> IsAlreadyExists err then (Some (Wrapped ''create pod: '' err), s1)
           else create_each kc pods s1)
      | (None, s1) \<Rightarrow> create_each kc pods s1)"

lemma create_each_append:
  "create_each kc (xs @ ys) s =
     (case create_each kc xs s of (Some e, s1) \<Rightarrow> (Some e, s1) | (None, s1) \<Rightarrow> create_each kc ys s1)"
  by (induction kc xs s rule: create_each.induct) (auto split: prod.splits option.splits)

lemma create_replicas_plan:
  "create_replicas kc cl job role tenant k i s =
     create_each kc (map (\<lambda>n. buildPod cl job role tenant (i + of_nat n)) [0..<k]) s"
proof (induction k arbitrary: i s)
  case 0
  then show ?case by simp
next
  case (Suc k)
  have "map (\<lambda>n. buildPod cl job role tenant (i + of_nat n)) [0..<Suc k]
      = buildPod cl job role tenant i # map (\<lambda>n. buildPod cl job role tenant (i + 1 + of_nat n)) [0..<k]"
    by (simp add: upt_conv_Cons map_Suc_upt [symmetric] del: upt_Suc) (simp add: algebra_simps)
  then show ?case by (simp add: Suc.IH split: prod.splits option.splits del: upt_Suc)
qed

lemma create_agents_plan:
  "create_agents kc cl job tenant roles tot s =
     (case create_each kc (concat (map (role_pods cl job tenant) roles)) s of
        (Some e, s1) \<Rightarrow> (Inl e, s1)
      | (None, s1) \<Rightarrow> (Inr (tot + sum_list (map (\<lambda>r. scast (replicas_of r)) roles)), s1))"
proof (induction roles arbitrary: tot s)
  case Nil
  then show ?case by simp
next
  case (Cons role roles)
  then show ?case
    by (auto simp: create_replicas_plan role_pods_def create_each_append algebra_simps
        split: prod.splits option.splits)
qed

text \<open>What creating the pods of a plan asks of the server\<close>

definition tolerated :: "ekind \<Rightarrow> goerror option \<Rightarrow> bool" where
  "tolerated k e = (case e of None \<Rightarrow> True | Some x \<Rightarrow> err_is k x)"

lemma tolerated_iff: "tolerated k e \<longleftrightarrow> e = None \<or> (\<exists>x. e = Some x \<and> err_is k x)"
  by (cases e) (simp_all add: tolerated_def)

lemma create_each_ok:
  "create_each kc pods s = (None, s') \<Longrightarrow>
     \<exists>es. length es = length pods \<and> (\<forall>e\<in>set es. tolerated KAlreadyExists e)
       \<and> calls (trace s') = calls (trace s) @ zip (map (\<lambda>p. KCreate (OPod p)) pods) es
       \<and> job_updates (trace s') = job_updates (trace s) \<and> prom_ops (trace s') = prom_ops (trace s)"
proof (induction pods arbitrary: s)
  case Nil
  then show ?case by simp
next
  case (Cons pod pods)
  obtain e s1 where 1: "k_Create kc (OPod pod) s = (e, s1)" by fastforce
  then have tr: "trace s1 = trace s @ [Call (KCreate (OPod pod)) e]" by (rule api_err_trace)
  from Cons.prems 1 have tol: "tolerated KAlreadyExists e" and rest: "create_each kc pods s1 = (None, s')"
    by (auto simp: tolerated_def split: option.splits if_splits)
  from Cons.IH [OF rest] obtain es where "length es = length pods"
    "\<forall>e\<in>set es. tolerated KAlreadyExists e"
    "calls (trace s') = calls (trace s1) @ zip (map (\<lambda>p. KCreate (OPod p)) pods) es"
    "job_updates (trace s') = job_updates (trace s1)" "prom_ops (trace s') = prom_ops (trace s1)" by blast
  with tol tr show ?case by (intro exI [of _ "e # es"]) simp
qed

lemma create_each_updates:
  "create_each kc pods s = (r, s') \<Longrightarrow>
     job_updates (trace s') = job_updates (trace s) \<and> prom_ops (trace s') = prom_ops (trace s)"
proof (induction pods arbitrary: s)
  case Nil
  then show ?case by simp
next
  case (Cons pod pods)
  obtain e s1 where 1: "k_Create kc (OPod pod) s = (e, s1)" by fastforce
  then have "trace s1 = trace s @ [Call (KCreate (OPod pod)) e]" by (rule api_err_trace)
  with Cons 1 show ?case by (auto split: option.splits if_splits)
qed

section \<open>Properties\<close>

text \<open>What a reconciliation of a pending job does, on each of its paths\<close>

abbreviation started_job :: "AgentJob \<Rightarrow> instant \<Rightarrow> AgentJob" where
  "started_job job t \<equiv> job\<lparr>aj_Status := (aj_Status job)
     \<lparr>jst_Phase := PhaseRunning,
      jst_ActiveAgents := ucast (\<Sum>role\<leftarrow>js_Agents (aj_Spec job). scast (replicas_of role) :: int64),
      jst_StartedAt := Some t\<rparr>\<rparr>"

lemma reconcilePendingE:
  assumes "reconcilePending kc os cl job s = (r, s')"
  obtains (no_tenant) e where "k_GetTenant kc ([], js_TenantRef (aj_Spec job)) s = (Inl e, s')"
      "r = Inl (Wrapped (''get tenant '' @ go_quote (js_TenantRef (aj_Spec job)) @ '': '') e)"
  | (not_created) tenant s1 e where "k_GetTenant kc ([], js_TenantRef (aj_Spec job)) s = (Inr tenant, s1)"
      "create_each kc (job_plan cl job tenant) s1 = (Some e, s')" "r = Inl e"
  | (written) tenant s1 s2 t s3 u s4 where "k_GetTenant kc ([], js_TenantRef (aj_Spec job)) s = (Inr tenant, s1)"
      "create_each kc (job_plan cl job tenant) s1 = (None, s2)" "now os s2 = (t, s3)"
      "k_StatusUpdateJob kc (started_job job t) s3 = (u, s4)"
      "r = (case u of Inl e \<Rightarrow> Inl e | Inr _ \<Rightarrow> Inr 0)"
      "s' = (case u of Inl e \<Rightarrow> s4 | Inr _ \<Rightarrow> JobStarted (om_Name (kt_Meta tenant))
               (ucast (\<Sum>role\<leftarrow>js_Agents (aj_Spec job). scast (replicas_of role) :: int64)) s4)"
proof -
  let ?sum = "\<Sum>role\<leftarrow>js_Agents (aj_Spec job). scast (replicas_of role) :: int64"
  obtain x s1 where 1: "k_GetTenant kc ([], js_TenantRef (aj_Spec job)) s = (x, s1)" by fastforce
  show thesis
  proof (cases x)
    case (Inl e)
    with 1 assms no_tenant show thesis by (simp add: reconcilePending_def)
  next
    case (Inr tenant)
    obtain y s2 where 2: "create_each kc (job_plan cl job tenant) s1 = (y, s2)" by fastforce
    show thesis
    proof (cases y)
      case (Some e)
      with 1 2 Inr assms not_created show thesis
        by (simp add: reconcilePending_def create_agents_plan job_plan_def)
    next
      case None
      obtain t s3 where 3: "now os s2 = (t, s3)" by fastforce
      obtain u s4 where 4: "k_StatusUpdateJob kc (started_job job t) s3 = (u, s4)" by fastforce
      have run: "(case u of Inl e \<Rightarrow> (Inl e, s4) | Inr _ \<Rightarrow> (Inr 0, JobStarted (om_Name (kt_Meta tenant)) (ucast ?sum) s4)) = (r, s')"
        using assms 1 2 3 4 Inr None by (simp add: reconcilePending_def create_agents_plan job_plan_def Let_def)
      show thesis
        by (rule written [OF 1 [unfolded Inr] 2 [unfolded None] 3 4]) (use run in \<open>auto split: sum.splits\<close>)
    qed
  qed
qed

text \<open>
  C6. A pending job is written as Running only after the whole plan has been created. A
  reconciliation either ends in an error before it writes any status, or has got the tenant,
  created exactly the planned pods in order, each accepted or already there, and then
  written once the status Running with the number of agents and the start time; it succeeds
  exactly when that write does.
\<close>

theorem pending_running_after_all_pods:
  assumes "reconcilePending kc os cl job s = (r, s')"
  shows "(\<exists>err. r = Inl err \<and> job_updates (trace s') = job_updates (trace s)) \<or>
    (\<exists>tenant es t err.
       calls (trace s') = calls (trace s)
         @ [(KGet TenantK ([], js_TenantRef (aj_Spec job)), None)]
         @ zip (map (\<lambda>p. KCreate (OPod p)) (job_plan cl job tenant)) es
         @ [(KStatusUpdate (OJob (job\<lparr>aj_Status := (aj_Status job)
              \<lparr>jst_Phase := PhaseRunning,
               jst_ActiveAgents := ucast (\<Sum>role\<leftarrow>js_Agents (aj_Spec job). scast (replicas_of role) :: int64),
               jst_StartedAt := Some t\<rparr>\<rparr>)), err)]
       \<and> length es = length (job_plan cl job tenant)
       \<and> (\<forall>e\<in>set es. e = None \<or> (\<exists>x. e = Some x \<and> IsAlreadyExists x))
       \<and> r = (case err of None \<Rightarrow> Inr 0 | Some e \<Rightarrow> Inl e))"
  using assms
proof (cases rule: reconcilePendingE)
  case (no_tenant e)
  then show ?thesis by (auto simp: api_trace)
next
  case (not_created tenant s1 e)
  then show ?thesis using create_each_updates [OF not_created(2)] by (auto simp: api_trace)
next
  case (written tenant s1 s2 t s3 u s4)
  from create_each_ok [OF written(2)] obtain es where es:
    "length es = length (job_plan cl job tenant)" "\<forall>e\<in>set es. tolerated KAlreadyExists e"
    "calls (trace s2) = calls (trace s1) @ zip (map (\<lambda>p. KCreate (OPod p)) (job_plan cl job tenant)) es"
    by blast
  have "calls (trace s') = calls (trace s4)" using written(6) by (simp split: sum.splits)
  moreover have "r = (case err_of u of None \<Rightarrow> Inr 0 | Some e \<Rightarrow> Inl e)"
    using written(5) by (simp add: err_of_def split: sum.splits)
  ultimately show ?thesis using es
    by (intro disjI2 exI [of _ tenant] exI [of _ es] exI [of _ t] exI [of _ "err_of u"])
       (simp add: api_trace [OF written(1)] api_trace [OF written(4)] now_trace [OF written(3)] err_of_def tolerated_iff)
qed

lemma sum_scast:
  "(\<Sum>r\<leftarrow>roles. scast (f r :: int32) :: int64) = word_of_int (\<Sum>r\<leftarrow>roles. sint (f r))"
  by (induction roles) simp_all

lemma length_role_pods: "0 \<le> sint (replicas_of r) \<Longrightarrow> int (length (role_pods cl job tenant r)) = sint (replicas_of r)"
  by (simp add: role_pods_def)

lemma length_job_plan:
  "\<forall>role\<in>set roles. 0 \<le> sint (replicas_of role) \<Longrightarrow>
     int (length (concat (map (role_pods cl job tenant) roles))) = (\<Sum>r\<leftarrow>roles. sint (replicas_of r))"
  by (induction roles) (simp_all add: length_role_pods)

text \<open>
  The number of agents written with Running is the number of planned pods, whenever the
  replica counts are not negative and their sum fits the 32 bits of the field.
\<close>

theorem active_agents_counts_plan:
  assumes "\<forall>role\<in>set (js_Agents (aj_Spec job)). 0 \<le> sint (rs_MaxReplicas role)"
    and "length (job_plan cl job tenant) < 2 ^ 31"
  shows "sint (ucast (\<Sum>role\<leftarrow>js_Agents (aj_Spec job). scast (replicas_of role) :: int64) :: int32)
    = int (length (job_plan cl job tenant))"
proof -
  let ?n = "\<Sum>r\<leftarrow>js_Agents (aj_Spec job). sint (replicas_of r)"
  have "\<forall>role\<in>set (js_Agents (aj_Spec job)). 0 \<le> sint (replicas_of role)"
    using assms(1) by (simp add: replicas_of_def)
  then have n: "?n = int (length (job_plan cl job tenant))"
    using length_job_plan [of "js_Agents (aj_Spec job)" cl job tenant] by (simp add: job_plan_def)
  have "ucast (word_of_int ?n :: int64) = (word_of_int ?n :: int32)"
    by (rule ucast_down_wi) (simp add: is_down)
  moreover have "sint (word_of_int ?n :: int32) = ?n"
    using assms(2) unfolding n by (intro sint_word_of_int32) auto
  ultimately show ?thesis by (simp add: sum_scast n)
qed

lemma scan_pods_spec:
  "scan_pods pods (a, b) =
     (a \<and> (\<forall>pod\<in>set pods. pod_Phase pod = PodSucceeded \<or> pod_Phase pod = PodFailed),
      b \<or> (\<exists>pod\<in>set pods. pod_Phase pod = PodFailed))"
  by (induction pods arbitrary: a b) auto

text \<open>
  C11. The outcome of a running job: it is polled again after one second while it has no pods
  and after five while a pod is unfinished, without any write; once every pod has ended, one
  status is written, Failed when some pod failed and Succeeded otherwise, with no active
  agents and the completion time.
\<close>

theorem running_outcome:
  assumes "kc_ListPods kc (om_Namespace (aj_Meta job)) (''muto.io/job'', om_Name (aj_Meta job)) (world s)
      = (Inr pods, w)"
    and "reconcileRunning kc os job s = (r, s')"
  shows "if pods = [] then r = Inr 1000000000 \<and> job_updates (trace s') = job_updates (trace s)
    else if \<exists>pod\<in>set pods. pod_Phase pod \<noteq> PodSucceeded \<and> pod_Phase pod \<noteq> PodFailed
      then r = Inr 5000000000 \<and> job_updates (trace s') = job_updates (trace s)
    else \<exists>t. job_updates (trace s') = job_updates (trace s) @ [job\<lparr>aj_Status := (aj_Status job)
      \<lparr>jst_CompletedAt := Some t, jst_ActiveAgents := 0,
       jst_Phase := (if \<exists>pod\<in>set pods. pod_Phase pod = PodFailed then PhaseFailed else PhaseSucceeded)\<rparr>\<rparr>]"
proof -
  obtain s1 where 1: "k_ListPods kc (om_Namespace (aj_Meta job)) (pods_of_job job) s = (Inr pods, s1)"
    using assms(1) by (auto simp: api_def pods_of_job_def)
  then have t1: "job_updates (trace s1) = job_updates (trace s)" by (simp add: api_trace)
  obtain t s2 where 2: "now os s1 = (t, s2)" by fastforce
  let ?job = "job\<lparr>aj_Status := (aj_Status job)
      \<lparr>jst_CompletedAt := Some t, jst_ActiveAgents := 0,
       jst_Phase := (if \<exists>pod\<in>set pods. pod_Phase pod = PodFailed then PhaseFailed else PhaseSucceeded)\<rparr>\<rparr>"
  obtain u s3 where 3: "k_StatusUpdateJob kc ?job s2 = (u, s3)" by fastforce
  have upd: "job_updates (trace s3) = job_updates (trace s) @ [?job]"
    using t1 by (simp add: api_trace [OF 3] now_trace [OF 2])
  have scan: "scan_pods pods (True, False) =
    (\<forall>pod\<in>set pods. pod_Phase pod = PodSucceeded \<or> pod_Phase pod = PodFailed,
     \<exists>pod\<in>set pods. pod_Phase pod = PodFailed)"
    by (simp add: scan_pods_spec)
  consider "pods = []"
    | "pods \<noteq> []" "\<exists>pod\<in>set pods. pod_Phase pod \<noteq> PodSucceeded \<and> pod_Phase pod \<noteq> PodFailed"
    | "pods \<noteq> []" "\<forall>pod\<in>set pods. pod_Phase pod = PodSucceeded \<or> pod_Phase pod = PodFailed"
    by blast
  then show ?thesis
  proof cases
    case 1
    with assms(2) \<open>k_ListPods _ _ _ s = _\<close> t1 show ?thesis
      by (simp add: reconcileRunning_def Second_def)
  next
    case 2
    with assms(2) 1 t1 scan show ?thesis by (auto simp: reconcileRunning_def Second_def)
  next
    case 3
    then have "job_updates (trace s') = job_updates (trace s3)"
      using assms(2) 1 \<open>now os s1 = _\<close> \<open>k_StatusUpdateJob kc ?job s2 = _\<close> scan
      by (auto simp: reconcileRunning_def Let_def split: sum.splits)
    with upd 3 show ?thesis by auto
  qed
qed

text \<open>
  C14. A terminated job lives exactly as long as its TTL: with a positive TTL and a clock past
  the completion, a reconciliation asks to be called again after what is left of the TTL
  (never negative, never more than the TTL, without overflow) and writes nothing, or, once
  the TTL is over, writes Terminating; without a TTL the job is never touched.
\<close>

theorem ttl_exact:
  assumes "jst_CompletedAt (aj_Status job) = Some c" and "now os s = (t, s1)" and "c \<le> t"
    and "reconcileTerminal kc os job s = (r, s')"
  shows "if sint (js_TTLAfterCompletion (aj_Spec job)) \<le> 0 then r = Inr 0 \<and> s' = s
    else if t - c < sint (js_TTLAfterCompletion (aj_Spec job)) * 1000000000
      then \<exists>d. r = Inr d \<and> sint d = sint (js_TTLAfterCompletion (aj_Spec job)) * 1000000000 - (t - c)
        \<and> 0 < sint d \<and> trace s' = trace s
    else job_updates (trace s') = job_updates (trace s)
      @ [job\<lparr>aj_Status := (aj_Status job)\<lparr>jst_Phase := PhaseTerminating\<rparr>\<rparr>]"
proof -
  let ?T = "js_TTLAfterCompletion (aj_Spec job)"
  have ttl: "sint (seconds ?T) = sint ?T * 1000000000" by (rule sint_seconds)
  have big: "sint ?T * 1000000000 < 2 ^ 63 - 1" using sint32_bounds [of ?T] by simp
  have el: "sint (time_sub t c) = min (2 ^ 63 - 1) (t - c)"
    using assms(3) by (simp add: sint_time_sub)
  consider "sint ?T \<le> 0" | "0 < sint ?T" "t - c < sint ?T * 1000000000"
    | "0 < sint ?T" "\<not> t - c < sint ?T * 1000000000" by linarith
  then show ?thesis
  proof cases
    case 1
    with assms(4) show ?thesis by (simp add: reconcileTerminal_def)
  next
    case 2
    then have el2: "sint (time_sub t c) = t - c" using el big by simp
    have "seconds ?T - time_sub t c = word_of_int (sint ?T * 1000000000 - (t - c))"
      unfolding ttl [symmetric] el2 [symmetric] by simp
    then have "sint (seconds ?T - time_sub t c) = sint ?T * 1000000000 - (t - c)"
      using 2 assms(3) big by (simp only:) (intro sint_word_of_int64; linarith)
    with 2 assms(1,2,4) ttl el2 now_trace [OF assms(2)] show ?thesis
      by (auto simp: reconcileTerminal_def)
  next
    case 3
    then have "\<not> sint (time_sub t c) < sint (seconds ?T)" using el ttl big by auto
    with 3 assms(1,2,4) now_trace [OF assms(2)] show ?thesis
      by (auto simp: reconcileTerminal_def Let_def dest!: api_trace split: prod.splits sum.splits)
  qed
qed

fun deletes_of :: "kube_call effect list \<Rightarrow> kobj list" where
  "deletes_of [] = []"
| "deletes_of (Call (KDelete ob) e # es) = ob # deletes_of es"
| "deletes_of (_ # es) = deletes_of es"

lemma deletes_of_append [simp]: "deletes_of (xs @ ys) = deletes_of xs @ deletes_of ys"
  by (induction xs rule: deletes_of.induct) auto

lemma delete_pods_run:
  "delete_pods kc pods s = (r, s') \<Longrightarrow>
     \<exists>es. length es \<le> length pods
       \<and> calls (trace s') = calls (trace s) @ zip (map (\<lambda>p. KDelete (OPod p)) (take (length es) pods)) es
       \<and> (r = None \<longrightarrow> length es = length pods \<and> (\<forall>e\<in>set es. tolerated KNotFound e))"
proof (induction pods arbitrary: s)
  case Nil
  then show ?case by simp
next
  case (Cons pod pods)
  obtain e s1 where 1: "k_Delete kc (OPod pod) s = (e, s1)" by fastforce
  note tr = api_err_trace [OF 1]
  show ?case
  proof (cases "tolerated KNotFound e")
    case True
    then have rest: "delete_pods kc pods s1 = (r, s')"
      using Cons.prems 1 by (auto simp: tolerated_def split: option.splits)
    from Cons.IH [OF this] obtain es where es: "length es \<le> length pods"
      "calls (trace s') = calls (trace s1) @ zip (map (\<lambda>p. KDelete (OPod p)) (take (length es) pods)) es"
      "r = None \<longrightarrow> length es = length pods \<and> (\<forall>e\<in>set es. tolerated KNotFound e)" by blast
    then show ?thesis using tr True by (intro exI [of _ "e # es"]) simp
  next
    case False
    then show ?thesis
      using Cons.prems 1 tr by (intro exI [of _ "[e]"]) (auto simp: tolerated_def split: option.splits)
  qed
qed

text \<open>
  C13. A job is deleted only after its pods. A reconciliation of a terminating job lists the
  job's pods and deletes them one by one, each accepted or already gone, before it deletes
  the job itself; when any other error occurs it stops there, keeps the job and returns the
  error.
\<close>

theorem terminating_deletes_pods_first:
  assumes "kc_ListPods kc (om_Namespace (aj_Meta job)) (''muto.io/job'', om_Name (aj_Meta job)) (world s)
      = (Inr pods, w)"
    and "reconcileTerminating kc job s = (r, s')"
  shows "\<exists>es. length es \<le> length pods \<and>
    (let deletes = zip (map (\<lambda>p. KDelete (OPod p)) (take (length es) pods)) es;
         listed = (KListPods (om_Namespace (aj_Meta job)) (''muto.io/job'', om_Name (aj_Meta job)), None)
     in (\<exists>err. r = Inl err \<and> calls (trace s') = calls (trace s) @ listed # deletes)
      \<or> (length es = length pods \<and> (\<forall>e\<in>set es. e = None \<or> (\<exists>x. e = Some x \<and> IsNotFound x))
         \<and> (\<exists>e. calls (trace s') = calls (trace s) @ listed # deletes @ [(KDelete (OJob job), e)]
              \<and> (r = Inr 0 \<longleftrightarrow> e = None \<or> (\<exists>x. e = Some x \<and> IsNotFound x)))))"
proof -
  obtain s1 where 1: "k_ListPods kc (om_Namespace (aj_Meta job)) (pods_of_job job) s = (Inr pods, s1)"
    using assms(1) by (auto simp: api_def pods_of_job_def)
  then have t1: "calls (trace s1) = calls (trace s)
      @ [(KListPods (om_Namespace (aj_Meta job)) (''muto.io/job'', om_Name (aj_Meta job)), None)]"
    by (simp add: api_trace err_of_def pods_of_job_def)
  obtain x s2 where 2: "delete_pods kc pods s1 = (x, s2)" by fastforce
  then obtain es where es: "length es \<le> length pods"
    "calls (trace s2) = calls (trace s1) @ zip (map (\<lambda>p. KDelete (OPod p)) (take (length es) pods)) es"
    "x = None \<longrightarrow> length es = length pods \<and> (\<forall>e\<in>set es. tolerated KNotFound e)"
    using delete_pods_run by blast
  obtain e s3 where 3: "k_Delete kc (OJob job) s2 = (e, s3)" by fastforce
  note t3 = api_err_trace [OF 3]
  show ?thesis
  proof (cases x)
    case (Some err)
    with assms(2) 1 2 have "r = Inl err" "s' = s2" by (simp_all add: reconcileTerminating_def)
    with es t1 show ?thesis by (intro exI [of _ es]) (simp add: Let_def)
  next
    case None
    with assms(2) 1 2 3 have "s' = s3" and r: "r = Inr 0 \<longleftrightarrow> tolerated KNotFound e"
      by (auto simp: reconcileTerminating_def tolerated_def split: option.splits if_splits)
    then show ?thesis using es None t1 t3 by (intro exI [of _ es]) (simp add: Let_def tolerated_iff)
  qed
qed

section \<open>The cases of a reconciliation\<close>

lemma reconcile_jobE:
  assumes "reconcile_job kc os cl req s = (r, s')"
  obtains (missing) e where "k_GetJob kc req s = (Inl e, s')"
      "r = (case IgnoreNotFound e of None \<Rightarrow> Inr 0 | Some e \<Rightarrow> Inl e)"
  | (pending) job s1 where "k_GetJob kc req s = (Inr job, s1)" "jst_Phase (aj_Status job) \<in> {[], PhasePending}"
      "reconcilePending kc os cl job s1 = (r, s')"
  | (running) job s1 where "k_GetJob kc req s = (Inr job, s1)" "jst_Phase (aj_Status job) = PhaseRunning"
      "reconcileRunning kc os job s1 = (r, s')"
  | (finished) job s1 where "k_GetJob kc req s = (Inr job, s1)"
      "jst_Phase (aj_Status job) \<in> {PhaseSucceeded, PhaseFailed}" "reconcileTerminal kc os job s1 = (r, s')"
  | (terminating) job s1 where "k_GetJob kc req s = (Inr job, s1)" "jst_Phase (aj_Status job) = PhaseTerminating"
      "reconcileTerminating kc job s1 = (r, s')"
  | (unknown) job where "k_GetJob kc req s = (Inr job, s')" "r = Inr 0"
      "jst_Phase (aj_Status job) \<notin> {[], PhasePending, PhaseRunning, PhaseSucceeded, PhaseFailed, PhaseTerminating}"
  using assms unfolding reconcile_job_def Let_def
  by (auto split: prod.splits sum.splits option.splits if_splits)

section \<open>The contract of a reconciler\<close>

lemma metric_step_create_each: "create_each kc pods s = (r, s') \<Longrightarrow> metric_step s s'"
proof (induction pods arbitrary: s)
  case Nil
  then show ?case by simp
next
  case (Cons pod pods)
  obtain e s1 where 1: "k_Create kc (OPod pod) s = (e, s1)" by fastforce
  with Cons have "metric_step s1 s'" by (auto split: option.splits if_splits)
  with metric_step_api_err [OF 1] show ?case by (rule metric_step_trans)
qed

lemma metric_step_delete_pods: "delete_pods kc pods s = (r, s') \<Longrightarrow> metric_step s s'"
proof (induction pods arbitrary: s)
  case Nil
  then show ?case by simp
next
  case (Cons pod pods)
  obtain e s1 where 1: "k_Delete kc (OPod pod) s = (e, s1)" by fastforce
  with Cons have "metric_step s1 s'" by (auto split: option.splits if_splits)
  with metric_step_api_err [OF 1] show ?case by (rule metric_step_trans)
qed

lemma metric_step_create_agents:
  "create_agents kc cl job tenant roles tot s = (r, s') \<Longrightarrow> metric_step s s'"
  by (auto simp: create_agents_plan split: prod.splits option.splits dest: metric_step_create_each)

lemmas job_steps = metric_steps metric_step_create_agents metric_step_delete_pods

lemma metric_step_Pending: "reconcilePending kc os cl job s = (r, s') \<Longrightarrow> metric_step s s'"
  unfolding reconcilePending_def Let_def
  by (auto split: prod.splits sum.splits dest!: job_steps intro!: metric_step_post)
     (meson metric_step_trans)+

lemma metric_step_Running: "reconcileRunning kc os job s = (r, s') \<Longrightarrow> metric_step s s'"
  unfolding reconcileRunning_def Let_def
  by (auto split: prod.splits sum.splits if_splits dest!: job_steps intro!: metric_step_post)
     (meson metric_step_trans)+

lemma metric_step_Terminal: "reconcileTerminal kc os job s = (r, s') \<Longrightarrow> metric_step s s'"
  unfolding reconcileTerminal_def Let_def
  by (auto split: prod.splits sum.splits if_splits option.splits dest!: job_steps)
     (meson metric_step_trans)+

lemma metric_step_Terminating: "reconcileTerminating kc job s = (r, s') \<Longrightarrow> metric_step s s'"
  unfolding reconcileTerminating_def
  by (auto split: prod.splits sum.splits if_splits option.splits dest!: job_steps)
     (meson metric_step_trans)+

lemmas job_phase_steps =
  metric_step_Pending metric_step_Running metric_step_Terminal metric_step_Terminating

lemma metric_step_reconcile_job: "reconcile_job kc os cl req s = (r, s') \<Longrightarrow> metric_step s s'"
  unfolding reconcile_job_def Let_def
  by (auto split: prod.splits sum.splits if_splits option.splits dest!: metric_steps job_phase_steps)
     (meson metric_step_trans)+

lemma reconcile_job_reads_first:
  assumes "reconcile_job kc os cl req s = (r, s')"
  shows "\<exists>e cs. calls (trace s') = calls (trace s) @ (KGet JobK req, e) # cs"
proof -
  obtain x s1 where 1: "k_GetJob kc req s = (x, s1)" by fastforce
  have "metric_step s1 s'"
    using assms 1 by (auto simp: reconcile_job_def Let_def dest: job_phase_steps
        split: sum.splits option.splits if_splits)
  then show ?thesis using metric_step_calls api_trace [OF 1] by fastforce
qed

interpretation job: reconciler "''agentjob''" JobK "AgentJobReconcile kc os cl" for kc os cl
  unfolding AgentJobReconcile_def [abs_def]
  by (rule reconciler_ObserveReconcile)
     (rule metric_step_reconcile_job, assumption, rule reconcile_job_reads_first)

text \<open>
  C23. Over any sequence of requests the manager sends, every reconciliation of an AgentJob is
  counted exactly once, in the order of the requests: under \<open>error\<close> when it returned an error
  and under \<open>success\<close> when it returned none. The OTLP metrics follow the Prometheus ones
  operation by operation.
\<close>

theorem job_reconciliations_counted_and_mirrored:
  "reconcile_results ''agentjob'' (prom_ops (trace (run_requests (AgentJobReconcile kc os cl) reqs s)))
      = reconcile_results ''agentjob'' (prom_ops (trace s))
        @ map (\<lambda>r. case r of Inl _ \<Rightarrow> ''error'' | Inr _ \<Rightarrow> ''success'')
            (run_results (AgentJobReconcile kc os cl) reqs s)
   \<and> (mirrored s \<longrightarrow>
      otlp_ops (trace (run_requests (AgentJobReconcile kc os cl) reqs s))
        = prom_ops (trace (run_requests (AgentJobReconcile kc os cl) reqs s)))"
  using job.counted_all job.otlp_agrees by blast

end
