(* ===== verification/Job_Lifecycle.thy ===== *)
theory Job_Lifecycle
  imports Job_Reconciler
begin

text \<open>
  The life of an AgentJob over many reconciliations: the phases it goes through against the
  scheduler's transition table, the gauges its start and end change, the names of its pods;
  then a small cluster on which the properties of \<open>Job_Reconciler\<close> and of this theory are
  applied.
\<close>

section \<open>The phases an AgentJob goes through\<close>

text \<open>One status update at most, of the job itself, to one of the given phases\<close>

definition at_most_one_update :: "Phase set \<Rightarrow> AgentJob \<Rightarrow> 'w kstate \<Rightarrow> 'w kstate \<Rightarrow> bool" where
  "at_most_one_update ps job s s' \<longleftrightarrow>
     job_updates (trace s') = job_updates (trace s) \<or>
     (\<exists>j. job_updates (trace s') = job_updates (trace s) @ [j]
        \<and> aj_Meta j = aj_Meta job \<and> aj_Spec j = aj_Spec job \<and> jst_Phase (aj_Status j) \<in> ps)"

lemma some_transition:
  "\<exists>e. Transition PhasePending e = Inr PhaseRunning"
  "\<exists>e. Transition PhaseRunning e = Inr PhaseSucceeded"
  "\<exists>e. Transition PhaseRunning e = Inr PhaseFailed"
  "\<exists>e. Transition PhaseSucceeded e = Inr PhaseTerminating"
  "\<exists>e. Transition PhaseFailed e = Inr PhaseTerminating"
  "PhaseRunning \<noteq> []" "PhaseSucceeded \<noteq> []" "PhaseFailed \<noteq> []"
  by (rule exI, rule Transition_rows | simp add: phase_simps)+

lemma at_most_one_update_refl [simp]: "at_most_one_update ps job s s"
  by (simp add: at_most_one_update_def)

lemma updates_now: "now os s = (t, s') \<Longrightarrow> job_updates (trace s') = job_updates (trace s)"
  by (simp add: now_trace)

lemma updates_status:
  "k_StatusUpdateJob kc j s = (r, s') \<Longrightarrow> job_updates (trace s') = job_updates (trace s) @ [j]"
  by (simp add: api_trace)

lemma updates_create_agents:
  "create_agents kc cl job tenant roles tot s = (r, s') \<Longrightarrow> job_updates (trace s') = job_updates (trace s)"
  by (auto simp: create_agents_plan split: prod.splits option.splits dest: create_each_updates)

lemma updates_delete_pods:
  "delete_pods kc pods s = (r, s') \<Longrightarrow> job_updates (trace s') = job_updates (trace s)"
proof (induction pods arbitrary: s)
  case Nil
  then show ?case by simp
next
  case (Cons pod pods)
  obtain e s1 where 1: "k_Delete kc (OPod pod) s = (e, s1)" by fastforce
  then have "job_updates (trace s1) = job_updates (trace s)" by (simp add: api_err_trace)
  with Cons 1 show ?case by (auto split: option.splits if_splits)
qed

lemma updates_gets:
  "k_GetTenant kc k s = (x, s') \<Longrightarrow> job_updates (trace s') = job_updates (trace s)"
  "k_GetJob kc k s = (y, s') \<Longrightarrow> job_updates (trace s') = job_updates (trace s)"
  "k_ListPods kc ns lb s = (z, s') \<Longrightarrow> job_updates (trace s') = job_updates (trace s)"
  "k_Delete kc ob s = (e, s') \<Longrightarrow> job_updates (trace s') = job_updates (trace s)"
  by (simp_all add: api_trace api_err_trace)

lemmas updates = updates_gets updates_now updates_status updates_create_agents updates_delete_pods

lemma Pending_update:
  "reconcilePending kc os cl job s = (r, s') \<Longrightarrow> at_most_one_update {PhaseRunning} job s s'"
  unfolding reconcilePending_def at_most_one_update_def Let_def
  by (auto split: prod.splits sum.splits dest!: updates)

lemma Running_update:
  "reconcileRunning kc os job s = (r, s') \<Longrightarrow>
     at_most_one_update {PhaseSucceeded, PhaseFailed} job s s'"
  unfolding reconcileRunning_def at_most_one_update_def Let_def
  by (auto split: prod.splits sum.splits if_splits dest!: updates)

lemma Terminal_update:
  "reconcileTerminal kc os job s = (r, s') \<Longrightarrow> at_most_one_update {PhaseTerminating} job s s'"
  unfolding reconcileTerminal_def at_most_one_update_def Let_def
  by (auto split: prod.splits sum.splits if_splits option.splits dest!: updates)

lemma Terminating_update:
  "reconcileTerminating kc job s = (r, s') \<Longrightarrow> at_most_one_update {} job s s'"
  unfolding reconcileTerminating_def at_most_one_update_def
  by (auto split: prod.splits sum.splits if_splits option.splits dest!: updates)

text \<open>
  C10. The reconciler implements the scheduler's state machine: a reconciliation writes at
  most one status, of the job it read, changing neither its metadata nor its specification,
  and the phase it writes is the one the transition table gives for the phase it read (an
  empty phase counting as Pending) and some event.
\<close>

theorem reconcile_follows_transition_table:
  assumes "reconcile_job kc os cl req s = (r, s')"
  shows "job_updates (trace s') = job_updates (trace s) \<or>
    (\<exists>job w j e. kc_GetJob kc req (world s) = (Inr job, w)
       \<and> job_updates (trace s') = job_updates (trace s) @ [j]
       \<and> aj_Meta j = aj_Meta job \<and> aj_Spec j = aj_Spec job
       \<and> Transition (if jst_Phase (aj_Status job) = [] then PhasePending else jst_Phase (aj_Status job)) e
         = Inr (jst_Phase (aj_Status j)))"
proof -
  have step: ?thesis if get: "k_GetJob kc req s = (Inr job, s1)" and "at_most_one_update ps job s1 s'"
    and "\<And>q. q \<in> ps \<Longrightarrow>
      \<exists>e. Transition (if jst_Phase (aj_Status job) = [] then PhasePending else jst_Phase (aj_Status job)) e = Inr q"
    for job s1 ps
  proof -
    obtain w where "kc_GetJob kc req (world s) = (Inr job, w)"
      using get by (auto simp: api_def split: prod.splits)
    then show ?thesis using that updates_gets(2) [OF get] unfolding at_most_one_update_def by metis
  qed
  from assms show ?thesis
  proof (cases rule: reconcile_jobE)
    case (missing e)
    then show ?thesis using updates_gets(2) by blast
  next
    case (pending job s1)
    show ?thesis
      by (rule step [OF pending(1) Pending_update [OF pending(3)]]) (use pending(2) in \<open>auto simp: some_transition\<close>)
  next
    case (running job s1)
    show ?thesis
      by (rule step [OF running(1) Running_update [OF running(3)]]) (use running(2) in \<open>auto simp: some_transition\<close>)
  next
    case (finished job s1)
    show ?thesis
      by (rule step [OF finished(1) Terminal_update [OF finished(3)]])
         (use finished(2) in \<open>auto simp: some_transition some_transition(7,8) [symmetric]\<close>)
  next
    case (terminating job s1)
    show ?thesis by (rule step [OF terminating(1) Terminating_update [OF terminating(3)]]) simp
  next
    case (unknown job)
    then show ?thesis using updates_gets(2) by blast
  qed
qed

section \<open>Gauges\<close>

lemma Pending_gauges:
  assumes "reconcilePending kc os cl job s = (Inr d, s')"
  obtains tenant j w w' where "kc_GetTenant kc ([], js_TenantRef (aj_Spec job)) w = (Inr tenant, w')"
    and "job_updates (trace s') = job_updates (trace s) @ [j]" and "aj_Spec j = aj_Spec job"
    and "prom_ops (trace s') = prom_ops (trace s)
      @ [GaugeAdd AgentsRunning [om_Name (kt_Meta tenant)] (sint (jst_ActiveAgents (aj_Status j))),
         GaugeAdd JobQueueDepth [om_Name (kt_Meta tenant)] 1]"
proof -
  let ?ref = "js_TenantRef (aj_Spec job)"
  obtain x s1 where 1: "k_GetTenant kc ([], ?ref) s = (x, s1)" by fastforce
  with assms obtain tenant where x: "x = Inr tenant"
    by (cases x) (auto simp: reconcilePending_def)
  then obtain w where get: "kc_GetTenant kc ([], ?ref) (world s) = (Inr tenant, w)"
    using 1 by (auto simp: api_def split: prod.splits)
  obtain y s2 where 2: "create_agents kc cl job tenant (js_Agents (aj_Spec job)) 0 s1 = (y, s2)" by fastforce
  with assms 1 x obtain tot where y: "y = Inr tot" by (cases y) (auto simp: reconcilePending_def)
  obtain t s3 where 3: "now os s2 = (t, s3)" by fastforce
  let ?j = "job\<lparr>aj_Status := (aj_Status job)\<lparr>jst_Phase := PhaseRunning,
      jst_ActiveAgents := ucast tot, jst_StartedAt := Some t\<rparr>\<rparr>"
  obtain u s4 where 4: "k_StatusUpdateJob kc ?j s3 = (u, s4)" by fastforce
  with assms 1 2 3 x y have s': "s' = JobStarted (om_Name (kt_Meta tenant)) (ucast tot) s4"
    by (auto simp: reconcilePending_def Let_def split: sum.splits)
  have "prom_ops (trace s2) = prom_ops (trace s1)"
    using 2 by (auto simp: create_agents_plan split: prod.splits option.splits dest: create_each_updates)
  then have "prom_ops (trace s4) = prom_ops (trace s)"
    by (simp add: api_trace [OF 4] now_trace [OF 3] api_trace [OF 1])
  then show ?thesis
    using that [OF get, of ?j] s' updates_status [OF 4] updates_now [OF 3] updates_create_agents [OF 2]
      updates_gets(1) [OF 1]
    by (simp add: prom_ops_JobStarted)
qed

lemma Running_gauges:
  assumes "reconcileRunning kc os job s = (Inr d, s')"
    and "job_updates (trace s') \<noteq> job_updates (trace s)"
  obtains j w j' w' c obs where "kc_StatusUpdateJob kc j w = (Inr j', w')" and "aj_Spec j = aj_Spec job"
    and "prom_ops (trace s') = prom_ops (trace s) @ [c] @ obs
      @ [GaugeAdd AgentsRunning [js_TenantRef (aj_Spec j')] (- sint (jst_ActiveAgents (aj_Status job))),
         GaugeAdd JobQueueDepth [js_TenantRef (aj_Spec j')] (- 1)]"
    and "\<exists>ls. c = CounterInc JobsTotal ls" and "\<exists>ls. \<forall>m\<in>set obs. \<exists>d. m = Observe JobDuration ls d"
proof -
  obtain x s1 where 1: "k_ListPods kc (om_Namespace (aj_Meta job)) (pods_of_job job) s = (x, s1)" by fastforce
  with assms obtain pods where x: "x = Inr pods" by (cases x) (auto simp: reconcileRunning_def)
  obtain a b where scan: "scan_pods pods (True, False) = (a, b)" by fastforce
  have "pods \<noteq> []" and a: a
    using assms 1 x scan updates_gets(3) [OF 1] by (auto simp: reconcileRunning_def split: if_splits)
  obtain t s2 where 2: "now os s1 = (t, s2)" by fastforce
  let ?phase = "if b then PhaseFailed else PhaseSucceeded"
  let ?j = "job\<lparr>aj_Status := (aj_Status job)
      \<lparr>jst_CompletedAt := Some t, jst_ActiveAgents := 0, jst_Phase := ?phase\<rparr>\<rparr>"
  obtain u s3 where 3: "k_StatusUpdateJob kc ?j s2 = (u, s3)" by fastforce
  let ?at = "case jst_StartedAt (aj_Status job) of None \<Rightarrow> zero_time | Some t \<Rightarrow> t"
  from assms(1) 1 2 3 x scan a \<open>pods \<noteq> []\<close> obtain j' where u: "u = Inr j'"
    and s': "s' = JobFinished os (js_TenantRef (aj_Spec j')) (ToLower ?phase) ?at
        (jst_ActiveAgents (aj_Status job)) s3"
    by (auto simp: reconcileRunning_def Let_def split: sum.splits)
  obtain w' where upd: "kc_StatusUpdateJob kc ?j (world s2) = (Inr j', w')"
    using 3 u by (auto simp: api_def split: prod.splits)
  have "prom_ops (trace s3) = prom_ops (trace s)"
    by (simp add: api_trace [OF 3] now_trace [OF 2] api_trace [OF 1])
  moreover obtain obs where
    "\<forall>m\<in>set obs. \<exists>d. m = Observe JobDuration [js_TenantRef (aj_Spec j'), ToLower ?phase] d"
    "prom_ops (trace s') = prom_ops (trace s3)
       @ [CounterInc JobsTotal [js_TenantRef (aj_Spec j'), ToLower ?phase]] @ obs
       @ [GaugeAdd AgentsRunning [js_TenantRef (aj_Spec j')] (- sint (jst_ActiveAgents (aj_Status job))),
          GaugeAdd JobQueueDepth [js_TenantRef (aj_Spec j')] (- 1)]"
    unfolding s' using prom_ops_JobFinished by blast
  ultimately show ?thesis using that [OF upd] by auto
qed

text \<open>
  C15. Metrics are conserved over the life of a job: what starting a job adds to the gauges of
  running agents and of queued jobs, finishing it takes away, under the same tenant label,
  when the job finished is the job as it was written at its start. The server is assumed to
  answer a tenant request with the tenant of that name and to keep the specification of a
  job whose status is updated.
\<close>

theorem job_gauges_conserved:
  assumes "\<And>k w t w'. kc_GetTenant kc k w = (Inr t, w') \<Longrightarrow> om_Name (kt_Meta t) = snd k"
    and "\<And>j w j' w'. kc_StatusUpdateJob kc j w = (Inr j', w') \<Longrightarrow> aj_Spec j' = aj_Spec j"
    and "reconcilePending kc os cl job s = (Inr d, s1)"
    and "job_updates (trace s1) = job_updates (trace s) @ [job1]"
    and "reconcileRunning kc os job1 s2 = (Inr d2, s3)"
    and "job_updates (trace s3) \<noteq> job_updates (trace s2)"
    and "i = AgentsRunning \<or> i = JobQueueDepth"
  shows "(gauge i ls (prom_ops (trace s1)) - gauge i ls (prom_ops (trace s)))
    + (gauge i ls (prom_ops (trace s3)) - gauge i ls (prom_ops (trace s2))) = 0"
proof -
  obtain tenant j w w' where t: "kc_GetTenant kc ([], js_TenantRef (aj_Spec job)) w = (Inr tenant, w')"
    and j: "job_updates (trace s1) = job_updates (trace s) @ [j]" "aj_Spec j = aj_Spec job"
    and ops1: "prom_ops (trace s1) = prom_ops (trace s)
      @ [GaugeAdd AgentsRunning [om_Name (kt_Meta tenant)] (sint (jst_ActiveAgents (aj_Status j))),
         GaugeAdd JobQueueDepth [om_Name (kt_Meta tenant)] 1]"
    using Pending_gauges [OF assms(3)] by metis
  obtain j2 w2 j3 w3 c obs where u: "kc_StatusUpdateJob kc j2 w2 = (Inr j3, w3)" "aj_Spec j2 = aj_Spec job1"
    and ops2: "prom_ops (trace s3) = prom_ops (trace s2) @ [c] @ obs
      @ [GaugeAdd AgentsRunning [js_TenantRef (aj_Spec j3)] (- sint (jst_ActiveAgents (aj_Status job1))),
         GaugeAdd JobQueueDepth [js_TenantRef (aj_Spec j3)] (- 1)]"
    and c: "\<exists>ls. c = CounterInc JobsTotal ls" and obs: "\<exists>ls. \<forall>m\<in>set obs. \<exists>d. m = Observe JobDuration ls d"
    using Running_gauges [OF assms(5,6)] by metis
  have "j = job1" using j(1) assms(4) by simp
  then have "om_Name (kt_Meta tenant) = js_TenantRef (aj_Spec j3)"
    using assms(1) [OF t] assms(2) [OF u(1)] u(2) j(2) by simp
  moreover have "gauge i ls obs = 0" using obs gauge_no_gauge_ops by blast
  ultimately show ?thesis
    using c assms(7) \<open>j = job1\<close> unfolding ops1 ops2 by auto
qed

section \<open>Names of a job's pods\<close>

lemma dec_int_no_dash: "0 \<le> i \<Longrightarrow> CHR ''-'' \<notin> set (dec_int i)"
proof
  assume "0 \<le> i" and "CHR ''-'' \<in> set (dec_int i)"
  then obtain d where "CHR ''-'' = digit_char d" and "d < 10"
    using dec_nat_digits [of "nat i"] by (auto simp: dec_int_def)
  then have "(of_char (CHR ''-'') :: nat) = 48 + d" by (simp add: digit_char_def)
  then show False by simp
qed

lemma dec_int_inject: "0 \<le> i \<Longrightarrow> 0 \<le> j \<Longrightarrow> dec_int i = dec_int j \<Longrightarrow> i = j"
  by (auto simp: dec_int_def dest: dec_nat_inject)

lemma sint_of_nat_index:
  assumes "n < nat (sint (r :: int32))" shows "sint (of_nat n :: int32) = int n"
proof -
  have "int n < 2 ^ 31" using assms sint32_bounds [of r] by simp
  then have "sint (word_of_int (int n) :: int32) = int n" by (intro sint_word_of_int32) simp_all
  then show ?thesis by simp
qed

text \<open>The part of a pod's name after the job's\<close>

definition pod_suffix :: "AgentRoleSpec \<Rightarrow> nat \<Rightarrow> string" where
  "pod_suffix role n =
     (if sint (replicas_of role) > 1 then rs_Role role @ ''-'' @ dec_int (int n) else rs_Role role)"

lemma names_of_role:
  "map (\<lambda>p. om_Name (pod_Meta p)) (role_pods cl job tenant role) =
     map (\<lambda>n. om_Name (aj_Meta job) @ ''-'' @ pod_suffix role n) [0..<nat (sint (replicas_of role))]"
  by (auto simp: role_pods_def buildPod_def job_pod_name_def pod_suffix_def sint_of_nat_index)

lemma pod_suffix_head:
  "\<exists>x. pod_suffix role n = rs_Role role @ x \<and> (x = [] \<or> (\<exists>y. x = ''-'' @ y))"
  by (auto simp: pod_suffix_def)

lemma role_of_suffix:
  assumes "CHR ''-'' \<notin> set (rs_Role a)" and "CHR ''-'' \<notin> set (rs_Role b)"
    and "pod_suffix a m = pod_suffix b n"
  shows "rs_Role a = rs_Role b"
  using assms
  by (auto simp: pod_suffix_def split: if_splits dest: append_sep_inject)
     (metis in_set_conv_decomp)+

lemma distinct_role_names:
  "distinct (map (\<lambda>n. pre @ pod_suffix role n) [0..<nat (sint (replicas_of role))])"
proof (cases "sint (replicas_of role) > 1")
  case True
  then show ?thesis by (auto simp: distinct_map inj_on_def pod_suffix_def dest: dec_int_inject [rotated 2])
next
  case False
  then have "nat (sint (replicas_of role)) \<le> 1" by simp
  then consider "nat (sint (replicas_of role)) = 0" | "nat (sint (replicas_of role)) = 1" by linarith
  then show ?thesis by cases simp_all
qed

text \<open>
  A job whose roles are different and contain no dash gets pods with different names, so
  no planned pod is mistaken for one already there. The restriction on dashes is needed, see
  the next property.
\<close>

lemma job_pod_names_distinct:
  assumes "distinct (map rs_Role (js_Agents (aj_Spec job)))"
    and "\<forall>role\<in>set (js_Agents (aj_Spec job)). CHR ''-'' \<notin> set (rs_Role role)"
  shows "distinct (map (\<lambda>p. om_Name (pod_Meta p)) (job_plan cl job tenant))"
proof -
  have "distinct (map (\<lambda>p. om_Name (pod_Meta p)) (concat (map (role_pods cl job tenant) roles)))"
    if "distinct (map rs_Role roles)" and "\<forall>role\<in>set roles. CHR ''-'' \<notin> set (rs_Role role)" for roles
    using that
  proof (induction roles)
    case Nil
    then show ?case by simp
  next
    case (Cons role roles)
    have "pod_suffix role m \<noteq> pod_suffix a n" if "a \<in> set roles" for a m n
      using role_of_suffix [of role a m n] that Cons.prems by force
    then have "set (map (\<lambda>p. om_Name (pod_Meta p)) (role_pods cl job tenant role))
        \<inter> set (map (\<lambda>p. om_Name (pod_Meta p)) (concat (map (role_pods cl job tenant) roles))) = {}"
      using Cons.prems(1) by (auto simp: map_concat comp_def names_of_role)
    then show ?case
      using Cons distinct_role_names [of "om_Name (aj_Meta job) @ ''-''" role] names_of_role [of cl job tenant role]
      by simp
  qed
  then show ?thesis using assms by (simp add: job_plan_def)
qed

text \<open>
  With dashes, names collide: within a job, the second replica of a role \<open>w\<close> and a role
  \<open>w-1\<close> share a name; across jobs of a namespace, role \<open>b-c\<close> of job \<open>a\<close> and role \<open>c\<close> of job
  \<open>a-b\<close> do. A collision is silent, since a pod that already exists counts as created.
\<close>

theorem job_pod_names_collide:
  "job_pod_name job \<lparr>rs_Role = ''w'', rs_Image = x, rs_Command = y, rs_MaxReplicas = 2\<rparr> 1
     = job_pod_name job \<lparr>rs_Role = ''w-1'', rs_Image = x, rs_Command = y, rs_MaxReplicas = 1\<rparr> 0
   \<and> job_pod_name a \<lparr>rs_Role = b @ ''-'' @ c, rs_Image = x, rs_Command = y, rs_MaxReplicas = 1\<rparr> 0
     = job_pod_name (a @ ''-'' @ b) \<lparr>rs_Role = c, rs_Image = x, rs_Command = y, rs_MaxReplicas = 1\<rparr> 0"
  by (simp add: job_pod_name_def replicas_of_def dec_int_def dec_nat.simps digit_char_1)

section \<open>The properties on a concrete job\<close>

text \<open>
  A cluster that accepts every request, in which the pods of every job have the given phases
  and the clock stands at 100 seconds; a job with two workers and one checker.
\<close>

definition demo_tenant :: "string \<Rightarrow> KTenant" where
  "demo_tenant n = \<lparr>kt_Meta = zero_ObjectMeta\<lparr>om_Name := n\<rparr>,
     kt_Spec = \<lparr>tsp_Namespace = ''acme'', tsp_IsolationTier = ''shared'',
                tsp_MessageBus = \<lparr>tb_Type = ''nats'', tb_Dedicated = False\<rparr>\<rparr>,
     kt_Status = \<lparr>tst_Ready = True\<rparr>\<rparr>"

definition demo_cluster :: "string list \<Rightarrow> unit kclient" where
  "demo_cluster phases = bare_client
     \<lparr>kc_GetTenant := \<lambda>k w. (Inr (demo_tenant (snd k)), w),
      kc_Create := \<lambda>ob w. (None, w),
      kc_Delete := \<lambda>ob w. (None, w),
      kc_ListPods := \<lambda>ns l w. (Inr (map (\<lambda>p. zero_Pod\<lparr>pod_Phase := p\<rparr>) phases), w),
      kc_StatusUpdateJob := \<lambda>j w. (Inr j, w)\<rparr>"

definition demo_os :: "unit os" where
  "demo_os = \<lparr>os_now = (\<lambda>w. (100000000000, w)), os_getenv = (\<lambda>k w. []),
              os_rand = (\<lambda>n w. (Inr (replicate n 0), w))\<rparr>"

definition demo_lib :: ctrl_lib where
  "demo_lib = \<lparr>cl_NewControllerRef = (\<lambda>m k. \<lparr>own_Kind = k, own_Name = om_Name m, own_UID = om_UID m,
                                            own_Controller = True\<rparr>),
               cl_ContainsFinalizer = (\<lambda>m f. f \<in> set (om_Finalizers m)),
               cl_AddFinalizer = (\<lambda>m f. m\<lparr>om_Finalizers := om_Finalizers m @ [f]\<rparr>),
               cl_RemoveFinalizer = (\<lambda>m f. m\<lparr>om_Finalizers := removeAll f (om_Finalizers m)\<rparr>)\<rparr>"

definition demo_job :: "string \<Rightarrow> AgentJob" where
  "demo_job phase =
     \<lparr>aj_Meta = zero_ObjectMeta\<lparr>om_Name := ''j'', om_Namespace := ''acme''\<rparr>,
      aj_Spec = \<lparr>js_TenantRef = ''acme'', js_Trigger = \<lparr>ts_Type = ''manual'', ts_Source = []\<rparr>,
        js_Agents = [\<lparr>rs_Role = ''w'', rs_Image = ''i'', rs_Command = [], rs_MaxReplicas = 2\<rparr>,
                     \<lparr>rs_Role = ''c'', rs_Image = ''i'', rs_Command = [], rs_MaxReplicas = 0\<rparr>],
        js_MessageBus = \<lparr>jb_Topic = []\<rparr>, js_TTLAfterCompletion = 60\<rparr>,
      aj_Status = \<lparr>jst_Phase = phase, jst_ActiveAgents = 0, jst_StartedAt = None,
                   jst_CompletedAt = Some 90000000000\<rparr>\<rparr>"

definition demo_state :: "unit kstate" where
  "demo_state = \<lparr>world = (), trace = [], ctx_next = 0, ctx_done = [], otlp_active = True\<rparr>"

lemmas demo_defs = demo_tenant_def demo_cluster_def demo_os_def demo_lib_def demo_job_def
  demo_state_def bare_client_def

lemma demo_create: "\<exists>s1. create_each (demo_cluster ph) pods s = (None, s1)"
  by (induction pods arbitrary: s) (simp_all add: demo_cluster_def api_err_def)

lemma demo_sum:
  "(\<Sum>r\<leftarrow>js_Agents (aj_Spec (demo_job p)). scast (replicas_of r)) = (3 :: int64)"
  by (simp add: demo_job_def replicas_of_def)

lemma demo_agents:
  "\<exists>s1. create_agents (demo_cluster ph) cl job tenant (js_Agents (aj_Spec (demo_job p))) 0 s = (Inr 3, s1)"
proof -
  obtain s1 where "create_each (demo_cluster ph)
      (concat (map (role_pods cl job tenant) (js_Agents (aj_Spec (demo_job p))))) s = (None, s1)"
    using demo_create by blast
  then show ?thesis using demo_sum [of p] by (simp add: create_agents_plan)
qed

lemma demo_pending:
  "\<exists>s' j. reconcilePending (demo_cluster ph) demo_os demo_lib (demo_job []) demo_state = (Inr 0, s')
     \<and> job_updates (trace s') = [j] \<and> jst_Phase (aj_Status j) = PhaseRunning
     \<and> jst_ActiveAgents (aj_Status j) = 3 \<and> aj_Spec j = aj_Spec (demo_job [])"
proof -
  obtain s1 where 1: "k_GetTenant (demo_cluster ph) ([], ''acme'') demo_state = (Inr (demo_tenant ''acme''), s1)"
    by (simp add: api_def demo_cluster_def)
  obtain s2 where 2: "create_agents (demo_cluster ph) demo_lib (demo_job []) (demo_tenant ''acme'')
      (js_Agents (aj_Spec (demo_job []))) 0 s1 = (Inr 3, s2)"
    using demo_agents by blast
  obtain s3 where 3: "now demo_os s2 = (100000000000, s3)" by (simp add: now_def demo_os_def)
  let ?j = "(demo_job [])\<lparr>aj_Status := (aj_Status (demo_job []))\<lparr>jst_Phase := PhaseRunning,
      jst_ActiveAgents := 3, jst_StartedAt := Some 100000000000\<rparr>\<rparr>"
  obtain s4 where 4: "k_StatusUpdateJob (demo_cluster ph) ?j s3 = (Inr ?j, s4)"
    by (simp add: api_def demo_cluster_def)
  have ref: "js_TenantRef (aj_Spec (demo_job [])) = ''acme''" by (simp add: demo_job_def)
  have "job_updates (trace s1) = []"
    using updates_gets(1) [OF 1] by (simp add: demo_state_def)
  then have "job_updates (trace s4) = [?j]"
    using updates_status [OF 4] updates_now [OF 3] updates_create_agents [OF 2] by simp
  moreover have "reconcilePending (demo_cluster ph) demo_os demo_lib (demo_job []) demo_state
      = (Inr 0, JobStarted (om_Name (kt_Meta (demo_tenant ''acme''))) 3 s4)"
    by (simp add: reconcilePending_def ref 1 2 3 4 Let_def)
  ultimately show ?thesis by simp
qed

lemma demo_running:
  "\<exists>s' j'. reconcileRunning (demo_cluster [''Succeeded'']) demo_os j s = (Inr (seconds (js_TTLAfterCompletion (aj_Spec j))), s')
     \<and> job_updates (trace s') = job_updates (trace s) @ [j'] \<and> jst_Phase (aj_Status j') = PhaseSucceeded"
  by (simp add: reconcileRunning_def demo_cluster_def demo_os_def api_def now_def PodSucceeded_def
      PodFailed_def zero_Pod_def Let_def)

theorem pending_running_after_all_pods_witness:
  "\<exists>s' es tenant c. reconcilePending (demo_cluster []) demo_os demo_lib (demo_job []) demo_state = (Inr 0, s')
     \<and> calls (trace s') = [(KGet TenantK ([], ''acme''), None)]
       @ zip (map (\<lambda>p. KCreate (OPod p)) (job_plan demo_lib (demo_job []) tenant)) es @ [c]"
proof -
  obtain s' where run: "reconcilePending (demo_cluster []) demo_os demo_lib (demo_job []) demo_state = (Inr 0, s')"
    using demo_pending by blast
  have "js_TenantRef (aj_Spec (demo_job [])) = ''acme''" "calls (trace demo_state) = []"
    by (simp_all add: demo_job_def demo_state_def)
  with pending_running_after_all_pods [OF run] run show ?thesis by auto
qed

theorem active_agents_counts_plan_witness:
  "length (job_plan demo_lib (demo_job []) (demo_tenant ''acme'')) = 3"
proof -
  have "length (job_plan demo_lib (demo_job []) (demo_tenant ''acme'')) < 2 ^ 31"
    by (simp add: job_plan_def role_pods_def demo_job_def replicas_of_def)
  moreover have "\<forall>role\<in>set (js_Agents (aj_Spec (demo_job []))). 0 \<le> sint (rs_MaxReplicas role)"
    by (simp add: demo_job_def)
  ultimately show ?thesis
    using active_agents_counts_plan [of "demo_job []" demo_lib "demo_tenant ''acme''"]
    by (simp add: demo_sum)
qed

theorem running_outcome_witness:
  "\<exists>t. job_updates (trace (snd (reconcileRunning (demo_cluster [''Succeeded'', ''Failed'']) demo_os
       (demo_job ''Running'') demo_state)))
     = [(demo_job ''Running'')\<lparr>aj_Status := (aj_Status (demo_job ''Running''))
          \<lparr>jst_CompletedAt := Some t, jst_ActiveAgents := 0, jst_Phase := PhaseFailed\<rparr>\<rparr>]"
proof -
  let ?f = "reconcileRunning (demo_cluster [''Succeeded'', ''Failed'']) demo_os (demo_job ''Running'') demo_state"
  have list: "kc_ListPods (demo_cluster [''Succeeded'', ''Failed'']) (om_Namespace (aj_Meta (demo_job ''Running'')))
      (''muto.io/job'', om_Name (aj_Meta (demo_job ''Running''))) (world demo_state)
      = (Inr [zero_Pod\<lparr>pod_Phase := ''Succeeded''\<rparr>, zero_Pod\<lparr>pod_Phase := ''Failed''\<rparr>], ())"
    by (simp add: demo_cluster_def)
  from running_outcome [OF list, of demo_os "fst ?f" "snd ?f"] show ?thesis
    by (simp add: PodSucceeded_def PodFailed_def demo_state_def zero_Pod_def)
qed

theorem ttl_exact_witness:
  "\<exists>d s'. reconcileTerminal (demo_cluster []) demo_os (demo_job ''Failed'') demo_state = (Inr d, s')
     \<and> sint d = 50000000000"
proof -
  let ?f = "reconcileTerminal (demo_cluster []) demo_os (demo_job ''Failed'') demo_state"
  have c: "jst_CompletedAt (aj_Status (demo_job ''Failed'')) = Some 90000000000"
    and n: "now demo_os demo_state = (100000000000, demo_state)"
    and ttl: "sint (js_TTLAfterCompletion (aj_Spec (demo_job ''Failed''))) = 60"
    by (simp_all add: demo_job_def now_def demo_os_def demo_state_def)
  show ?thesis
    using ttl_exact [OF c n, of "demo_cluster []" "fst ?f" "snd ?f"] ttl by (auto simp: prod_eq_iff)
qed

theorem terminating_deletes_pods_first_witness:
  "\<exists>es e. length es = 1 \<and> calls (trace (snd (reconcileTerminating (demo_cluster [''Failed'']) (demo_job ''Terminating'') demo_state)))
     = (KListPods ''acme'' (''muto.io/job'', ''j''), None)
       # zip [KDelete (OPod (zero_Pod\<lparr>pod_Phase := ''Failed''\<rparr>))] es @ [(KDelete (OJob (demo_job ''Terminating'')), e)]"
proof -
  let ?f = "reconcileTerminating (demo_cluster [''Failed'']) (demo_job ''Terminating'') demo_state"
  have job: "om_Namespace (aj_Meta (demo_job ''Terminating'')) = ''acme''"
    "om_Name (aj_Meta (demo_job ''Terminating'')) = ''j''" by (simp_all add: demo_job_def)
  have list: "kc_ListPods (demo_cluster [''Failed'']) (om_Namespace (aj_Meta (demo_job ''Terminating'')))
      (''muto.io/job'', om_Name (aj_Meta (demo_job ''Terminating''))) (world demo_state)
      = (Inr [zero_Pod\<lparr>pod_Phase := ''Failed''\<rparr>], ())"
    by (simp add: demo_cluster_def)
  have "fst ?f = Inr 0"
    by (simp add: reconcileTerminating_def demo_cluster_def api_def api_err_def)
  with terminating_deletes_pods_first [OF list, of "fst ?f" "snd ?f"] show ?thesis
    by (auto simp: job demo_state_def Let_def take_Cons')
qed

theorem job_reconciliations_counted_and_mirrored_witness:
  "let kc = (demo_cluster [])\<lparr>kc_GetJob := \<lambda>k w.
         (Inl (if snd k = ''j'' then no_object else Errorf ''timeout''), w)\<rparr>;
       s' = run_requests (AgentJobReconcile kc demo_os demo_lib) [(''acme'', ''j''), (''acme'', ''k'')] demo_state
   in reconcile_results ''agentjob'' (prom_ops (trace s')) = [''success'', ''error'']
      \<and> otlp_ops (trace s') = prom_ops (trace s')"
proof -
  let ?kc = "(demo_cluster [])\<lparr>kc_GetJob := \<lambda>k w.
         (Inl (if snd k = ''j'' then no_object else Errorf ''timeout''), w)\<rparr>"
  have "fst (AgentJobReconcile ?kc demo_os demo_lib (''acme'', ''j'') s) = Inr 0"
    "fst (AgentJobReconcile ?kc demo_os demo_lib (''acme'', ''k'') s) = Inl (Errorf ''timeout'')" for s
    by (simp_all add: AgentJobReconcile_def ObserveReconcile_def reconcile_job_def api_def now_def demo_os_def
        no_object_def IgnoreNotFound_def Let_def)
  then show ?thesis
    using job_reconciliations_counted_and_mirrored
      [of ?kc demo_os demo_lib "[(''acme'', ''j''), (''acme'', ''k'')]" demo_state]
    by (simp add: mirrored_def demo_state_def Let_def del: run_requests.simps)
qed

theorem reconcile_follows_transition_table_witness:
  "\<exists>j e. job_updates (trace (snd (reconcile_job
       ((demo_cluster [''Succeeded''])\<lparr>kc_GetJob := \<lambda>k w. (Inr (demo_job PhaseRunning), w)\<rparr>)
       demo_os demo_lib (''acme'', ''j'') demo_state))) = [j]
     \<and> Transition PhaseRunning e = Inr (jst_Phase (aj_Status j))"
proof -
  let ?kc = "(demo_cluster [''Succeeded''])\<lparr>kc_GetJob := \<lambda>k w. (Inr (demo_job PhaseRunning), w)\<rparr>"
  let ?f = "reconcile_job ?kc demo_os demo_lib (''acme'', ''j'') demo_state"
  have "job_updates (trace (snd ?f)) \<noteq> []"
    by (simp add: reconcile_job_def reconcileRunning_def demo_cluster_def demo_os_def demo_job_def api_def
        now_def PodSucceeded_def PodFailed_def zero_Pod_def phase_simps Let_def)
  with reconcile_follows_transition_table [of ?kc demo_os demo_lib "(''acme'', ''j'')" demo_state "fst ?f" "snd ?f"]
  show ?thesis by (auto simp: demo_state_def demo_job_def phase_simps)
qed

theorem job_gauges_conserved_witness:
  "\<exists>s1 j d s3. reconcilePending (demo_cluster [''Succeeded'']) demo_os demo_lib (demo_job []) demo_state = (Inr 0, s1)
     \<and> job_updates (trace s1) = [j]
     \<and> reconcileRunning (demo_cluster [''Succeeded'']) demo_os j s1 = (Inr d, s3)
     \<and> gauge AgentsRunning [''acme''] (prom_ops (trace s1)) - gauge AgentsRunning [''acme''] (prom_ops (trace demo_state))
       + (gauge AgentsRunning [''acme''] (prom_ops (trace s3)) - gauge AgentsRunning [''acme''] (prom_ops (trace s1))) = 0"
proof -
  let ?kc = "demo_cluster [''Succeeded'']"
  obtain s1 j where p: "reconcilePending ?kc demo_os demo_lib (demo_job []) demo_state = (Inr 0, s1)"
    and j: "job_updates (trace s1) = [j]"
    using demo_pending by blast
  obtain d s3 where r: "reconcileRunning ?kc demo_os j s1 = (Inr d, s3)"
    and u: "job_updates (trace s3) \<noteq> job_updates (trace s1)"
    using demo_running [of j s1] by auto
  have "om_Name (kt_Meta t) = snd k" if "kc_GetTenant ?kc k w = (Inr t, w')" for k w t w'
    using that by (auto simp: demo_cluster_def demo_tenant_def)
  moreover have "aj_Spec j' = aj_Spec j" if "kc_StatusUpdateJob ?kc j w = (Inr j', w')" for j w j' w'
    using that by (simp add: demo_cluster_def)
  ultimately have g: "gauge AgentsRunning [''acme''] (prom_ops (trace s1)) - gauge AgentsRunning [''acme''] (prom_ops (trace demo_state))
       + (gauge AgentsRunning [''acme''] (prom_ops (trace s3)) - gauge AgentsRunning [''acme''] (prom_ops (trace s1))) = 0"
    using j by (intro job_gauges_conserved [OF _ _ p _ r u]) (auto simp: demo_state_def)
  show ?thesis by (intro exI conjI, rule p, rule j, rule r, rule g)
qed

lemma job_pod_names_distinct_example:
  "distinct (map (\<lambda>p. om_Name (pod_Meta p)) (job_plan demo_lib (demo_job []) (demo_tenant ''acme'')))"
  by (rule job_pod_names_distinct) (simp_all add: demo_job_def)

end
