(* ===== verification/Job_Liveness.thy ===== *)
theory Job_Liveness
  imports Job_Lifecycle
begin

text \<open>
  The job reconciler against a cluster that stores what is written to it: every reconciliation
  brings the job closer to its end or leaves it alone, and enough reconciliations at the right
  moments end it, whatever happens in between.
\<close>

section \<open>A cluster with one job in sight\<close>

text \<open>
  What the reconciler relies on of the API server and the clock, for the job with key \<open>k\<close>:
  \<open>job_in\<close>, \<open>pods_in\<close> and \<open>clock\<close> read the stored job, the pods carrying its label and the time
  off the world. A read returns what is stored under the key; a request that fails changes
  nothing; a status update of the job with key \<open>k\<close> is stored when there is such a job and refused
  when there is none; a deletion of it removes it (the controller sets no finalizer on a job);
  requests about the job of another key leave this one alone.
\<close>

abbreviation job_key :: "AgentJob \<Rightarrow> key" where
  "job_key j \<equiv> meta_key (aj_Meta j)"

definition serves ::
    "'w kclient \<Rightarrow> 'w os \<Rightarrow> key \<Rightarrow> ('w \<Rightarrow> AgentJob option) \<Rightarrow> ('w \<Rightarrow> Pod list) \<Rightarrow> ('w \<Rightarrow> instant) \<Rightarrow> bool" where
  "serves kc os k job_in pods_in clock \<longleftrightarrow>
     (\<forall>w j. job_in w = Some j \<longrightarrow>
        kc_GetJob kc k w = (Inr j, w) \<and> job_key j = k)
   \<and> (\<forall>w. job_in w = None \<longrightarrow> (\<exists>e. kc_GetJob kc k w = (Inl e, w) \<and> IsNotFound e))
   \<and> (\<forall>t w r w'. kc_GetTenant kc t w = (r, w') \<longrightarrow> job_in w' = job_in w)
   \<and> (\<forall>p w r w'. kc_Create kc (OPod p) w = (r, w') \<longrightarrow> job_in w' = job_in w)
   \<and> (\<forall>p w r w'. kc_Delete kc (OPod p) w = (r, w') \<longrightarrow> job_in w' = job_in w)
   \<and> (\<forall>w r w'. kc_ListPods kc (fst k) (''muto.io/job'', snd k) w = (r, w') \<longrightarrow>
        job_in w' = job_in w \<and> (r = Inr (pods_in w) \<or> (\<exists>e. r = Inl e)))
   \<and> (\<forall>j w e w'. kc_StatusUpdateJob kc j w = (Inl e, w') \<longrightarrow> job_in w' = job_in w)
   \<and> (\<forall>j w j' w'. kc_StatusUpdateJob kc j w = (Inr j', w') \<longrightarrow>
        (if job_key j = k then job_in w \<noteq> None \<and> aj_Status j' = aj_Status j \<and> job_in w' = Some j'
         else job_in w' = job_in w))
   \<and> (\<forall>j w r w'. kc_Delete kc (OJob j) w = (r, w') \<longrightarrow>
        job_in w' = (if job_key j = k \<and> r = None then None else job_in w))
   \<and> (\<forall>w t w'. os_now os w = (t, w') \<longrightarrow>
        job_in w' = job_in w \<and> pods_in w' = pods_in w \<and> clock w \<le> t \<and> clock w \<le> clock w')"

text \<open>
  A cluster that refuses no request the reconciler makes for the job with key \<open>k\<close> while it is
  stored: the tenant it names is found, pods are created and deleted, its status is written.
\<close>

definition accepting :: "'w kclient \<Rightarrow> key \<Rightarrow> ('w \<Rightarrow> AgentJob option) \<Rightarrow> bool" where
  "accepting kc k job_in \<longleftrightarrow>
     (\<forall>j w. job_in w = Some j \<longrightarrow> (\<exists>x w'. kc_GetTenant kc ([], js_TenantRef (aj_Spec j)) w = (Inr x, w')))
   \<and> (\<forall>p w r w'. kc_Create kc (OPod p) w = (r, w') \<longrightarrow> tolerated KAlreadyExists r)
   \<and> (\<forall>p w r w'. kc_Delete kc (OPod p) w = (r, w') \<longrightarrow> tolerated KNotFound r)
   \<and> (\<forall>w. \<exists>x w'. kc_ListPods kc (fst k) (''muto.io/job'', snd k) w = (Inr x, w'))
   \<and> (\<forall>j st w. job_in w = Some j \<longrightarrow> (\<exists>x w'. kc_StatusUpdateJob kc (j\<lparr>aj_Status := st\<rparr>) w = (Inr x, w')))
   \<and> (\<forall>j w. job_in w = Some j \<longrightarrow> (\<exists>w'. kc_Delete kc (OJob j) w = (None, w')))"

text \<open>How far a job is from its end\<close>

definition phase_distance :: "Phase \<Rightarrow> nat" where
  "phase_distance p =
     (if p = PhaseTerminating then 1
      else if p = PhaseSucceeded \<or> p = PhaseFailed then 2
      else if p = PhaseRunning then 3
      else 4)"

definition distance :: "AgentJob option \<Rightarrow> nat" where
  "distance j = (case j of None \<Rightarrow> 0 | Some j \<Rightarrow> phase_distance (jst_Phase (aj_Status j)))"

text \<open>The moments at which a reconciliation has something to do\<close>

definition due :: "('w \<Rightarrow> AgentJob option) \<Rightarrow> ('w \<Rightarrow> Pod list) \<Rightarrow> ('w \<Rightarrow> instant) \<Rightarrow> 'w \<Rightarrow> bool" where
  "due job_in pods_in clock w =
     (case job_in w of
        None \<Rightarrow> False
      | Some j \<Rightarrow>
          (let p = jst_Phase (aj_Status j); ttl = sint (js_TTLAfterCompletion (aj_Spec j)) in
           if p = PhaseRunning then
             pods_in w \<noteq> [] \<and> (\<forall>pod\<in>set (pods_in w). pod_Phase pod = PodSucceeded \<or> pod_Phase pod = PodFailed)
           else if p = PhaseSucceeded \<or> p = PhaseFailed then
             0 < ttl \<and> (\<exists>t. jst_CompletedAt (aj_Status j) = Some t \<and> t + ttl * 1000000000 \<le> clock w)
           else p = [] \<or> p = PhasePending \<or> p = PhaseTerminating))"

section \<open>Reconciliations on such a cluster\<close>

lemma serves_get:
  assumes "serves kc os k J P C" and "J w = Some j"
  shows "kc_GetJob kc k w = (Inr j, w) \<and> job_key j = k"
  by (rule assms(1) [unfolded serves_def, THEN conjunct1, rule_format, OF assms(2)])

lemma serves_gone:
  assumes "serves kc os k J P C" and "J w = None"
  shows "\<exists>e. kc_GetJob kc k w = (Inl e, w) \<and> IsNotFound e"
  by (rule assms(1) [unfolded serves_def, THEN conjunct2, THEN conjunct1, rule_format, OF assms(2)])

lemma serves_tenant:
  assumes "serves kc os k J P C" and "kc_GetTenant kc t w = (r, w')"
  shows "J w' = J w"
  by (rule assms(1) [unfolded serves_def, THEN conjunct2, THEN conjunct2, THEN conjunct1, rule_format, OF assms(2)])

lemma serves_create:
  assumes "serves kc os k J P C" and "kc_Create kc (OPod p) w = (r, w')"
  shows "J w' = J w"
  by (rule assms(1) [unfolded serves_def, THEN conjunct2, THEN conjunct2, THEN conjunct2, THEN conjunct1, rule_format, OF assms(2)])

lemma serves_delete_pod:
  assumes "serves kc os k J P C" and "kc_Delete kc (OPod p) w = (r, w')"
  shows "J w' = J w"
  by (rule assms(1) [unfolded serves_def, THEN conjunct2, THEN conjunct2, THEN conjunct2, THEN conjunct2, THEN conjunct1, rule_format, OF assms(2)])

lemma serves_list:
  assumes "serves kc os k J P C" and "kc_ListPods kc (fst k) (''muto.io/job'', snd k) w = (r, w')"
  shows "J w' = J w \<and> (r = Inr (P w) \<or> (\<exists>e. r = Inl e))"
  by (rule assms(1) [unfolded serves_def, THEN conjunct2, THEN conjunct2, THEN conjunct2, THEN conjunct2, THEN conjunct2, THEN conjunct1, rule_format, OF assms(2)])

lemma serves_refused:
  assumes "serves kc os k J P C" and "kc_StatusUpdateJob kc j w = (Inl e, w')"
  shows "J w' = J w"
  by (rule assms(1) [unfolded serves_def, THEN conjunct2, THEN conjunct2, THEN conjunct2, THEN conjunct2, THEN conjunct2, THEN conjunct2, THEN conjunct1, rule_format, OF assms(2)])

lemma serves_update:
  assumes "serves kc os k J P C" and "kc_StatusUpdateJob kc j w = (Inr j', w')"
  shows "if job_key j = k then J w \<noteq> None \<and> aj_Status j' = aj_Status j \<and> J w' = Some j' else J w' = J w"
  by (rule assms(1) [unfolded serves_def, THEN conjunct2, THEN conjunct2, THEN conjunct2, THEN conjunct2, THEN conjunct2, THEN conjunct2, THEN conjunct2, THEN conjunct1, rule_format, OF assms(2)])

lemma serves_delete:
  assumes "serves kc os k J P C" and "kc_Delete kc (OJob j) w = (r, w')"
  shows "J w' = (if job_key j = k \<and> r = None then None else J w)"
  by (rule assms(1) [unfolded serves_def, THEN conjunct2, THEN conjunct2, THEN conjunct2, THEN conjunct2, THEN conjunct2, THEN conjunct2, THEN conjunct2, THEN conjunct2, THEN conjunct1, rule_format, OF assms(2)])

lemma serves_now:
  assumes "serves kc os k J P C" and "os_now os w = (t, w')"
  shows "J w' = J w \<and> P w' = P w \<and> C w \<le> t \<and> C w \<le> C w'"
  by (rule assms(1) [unfolded serves_def, THEN conjunct2, THEN conjunct2, THEN conjunct2, THEN conjunct2, THEN conjunct2, THEN conjunct2, THEN conjunct2, THEN conjunct2, THEN conjunct2, rule_format, OF assms(2)])

lemma create_each_keeps:
  "serves kc os k J P C \<Longrightarrow> create_each kc pods s = (r, s') \<Longrightarrow> J (world s') = J (world s)"
proof (induction pods arbitrary: s)
  case (Cons p pods)
  obtain e s1 where run: "k_Create kc (OPod p) s = (e, s1)" by fastforce
  from serves_create [OF Cons.prems(1) api_err_world [OF run]] Cons run show ?case
    by (auto split: option.splits if_splits)
qed simp

lemma delete_pods_keeps:
  "serves kc os k J P C \<Longrightarrow> delete_pods kc pods s = (r, s') \<Longrightarrow> J (world s') = J (world s)"
proof (induction pods arbitrary: s)
  case (Cons p pods)
  obtain e s1 where run: "k_Delete kc (OPod p) s = (e, s1)" by fastforce
  from serves_delete_pod [OF Cons.prems(1) api_err_world [OF run]] Cons run show ?case
    by (auto split: option.splits if_splits)
qed simp

lemma create_each_accepted:
  "accepting kc k J \<Longrightarrow> \<exists>s'. create_each kc pods s = (None, s')"
proof (induction pods arbitrary: s)
  case (Cons p pods)
  obtain e s1 where run: "k_Create kc (OPod p) s = (e, s1)" by fastforce
  have "tolerated KAlreadyExists e" using Cons.prems api_err_world [OF run] unfolding accepting_def by blast
  with Cons run show ?case by (auto simp: tolerated_def split: option.splits)
qed simp

lemma delete_pods_accepted:
  "accepting kc k J \<Longrightarrow> \<exists>s'. delete_pods kc pods s = (None, s')"
proof (induction pods arbitrary: s)
  case (Cons p pods)
  obtain e s1 where run: "k_Delete kc (OPod p) s = (e, s1)" by fastforce
  have "tolerated KNotFound e" using Cons.prems api_err_world [OF run] unfolding accepting_def by blast
  with Cons run show ?case by (auto simp: tolerated_def split: option.splits)
qed simp

lemma accepting_update:
  assumes "accepting kc k J" and "J (world s) = Some j"
  shows "k_StatusUpdateJob kc (j\<lparr>aj_Status := st\<rparr>) s \<noteq> (Inl e, s')"
proof -
  obtain x w' where "kc_StatusUpdateJob kc (j\<lparr>aj_Status := st\<rparr>) (world s) = (Inr x, w')"
    using assms unfolding accepting_def by blast
  then show ?thesis by (simp add: api_def)
qed

lemma accepting_delete:
  assumes "accepting kc k J" and "J w = Some j" and "kc_Delete kc (OJob j) w = (z, w')"
  shows "z = None"
proof -
  obtain w'' where "kc_Delete kc (OJob j) w = (None, w'')" using assms(1,2) unfolding accepting_def by blast
  with assms(3) show ?thesis by simp
qed

lemma distances:
  "jst_Phase st = PhaseRunning \<Longrightarrow> phase_distance (jst_Phase st) = 3"
  "phase_distance PhaseRunning = 3" "phase_distance PhaseSucceeded = 2" "phase_distance PhaseFailed = 2"
  "phase_distance PhaseTerminating = 1" "phase_distance [] = 4" "phase_distance PhasePending = 4"
  by (simp_all add: phase_distance_def) (simp_all add: phase_simps)

text \<open>A status update is stored, or it is refused by a cluster that does not accept everything.\<close>

lemma status_written:
  assumes sv: "serves kc os k J P C" and run: "k_StatusUpdateJob kc (j\<lparr>aj_Status := st\<rparr>) s = (z, s')"
    and stored: "J (world s) = Some j"
  shows "J (world s') = J (world s) \<and> \<not> accepting kc k J \<or> distance (J (world s')) = phase_distance (jst_Phase st)"
proof (cases z)
  case (Inl e)
  then have "\<not> accepting kc k J" using accepting_update [of kc k J s j st e s'] run stored by blast
  moreover have "J (world s') = J (world s)" using Inl serves_refused [OF sv] api_world [OF run] by blast
  ultimately show ?thesis by simp
next
  case (Inr j')
  have "kc_StatusUpdateJob kc (j\<lparr>aj_Status := st\<rparr>) (world s) = (Inr j', world s')" using api_world [OF run] Inr by simp
  from serves_update [OF sv this] serves_get [OF sv stored]
  have "aj_Status j' = st \<and> J (world s') = Some j'" by simp
  then show ?thesis by (simp add: distance_def)
qed

lemma finished_recorded:
  assumes "serves kc os k J P C" shows "J (world (JobFinished os a b c d s)) = J (world s)"
  by (auto simp: JobFinished_def Let_def dest!: now_world serves_now [OF assms] split: prod.splits)

lemma Pending_distance:
  assumes sv: "serves kc os k J P C" and "reconcilePending kc os cl job s = (r, s')"
    and stored: "J (world s) = Some job"
  shows "J (world s') = J (world s) \<or> distance (J (world s')) = 3"
    and "accepting kc k J \<Longrightarrow> distance (J (world s')) = 3"
proof -
  have "(J (world s') = J (world s) \<or> distance (J (world s')) = 3) \<and> (accepting kc k J \<longrightarrow> distance (J (world s')) = 3)"
    using assms(2)
  proof (cases rule: reconcilePendingE)
    case (no_tenant e)
    have "\<not> accepting kc k J"
      using api_world [OF no_tenant(1)] stored unfolding accepting_def by (metis Inl_Inr_False prod.inject)
    with serves_tenant [OF sv api_world [OF no_tenant(1)]] show ?thesis by simp
  next
    case (not_created tenant s1 e)
    have "\<not> accepting kc k J" using create_each_accepted [of kc k J "job_plan cl job tenant" s1] not_created(2) by auto
    with serves_tenant [OF sv api_world [OF not_created(1)]] create_each_keeps [OF sv not_created(2)] show ?thesis by simp
  next
    case (written tenant s1 s2 t s3 u s4)
    have j3: "J (world s3) = J (world s)"
      using serves_tenant [OF sv api_world [OF written(1)]] create_each_keeps [OF sv written(2)]
        serves_now [OF sv now_world [OF written(3)]] by simp
    have w: "world s' = world s4" using written(6) by (auto split: sum.splits)
    show ?thesis
      using status_written [OF sv written(4)] w j3 stored by (auto simp: distances)
  qed
  then show "J (world s') = J (world s) \<or> distance (J (world s')) = 3"
    and "accepting kc k J \<Longrightarrow> distance (J (world s')) = 3" by blast+
qed

lemma accepting_list: "accepting kc k J \<Longrightarrow> kc_ListPods kc (fst k) (''muto.io/job'', snd k) w \<noteq> (Inl e, w')"
  unfolding accepting_def by (metis Inl_Inr_False prod.inject)

lemma pods_of_key: "job_key j = k \<Longrightarrow>
    k_ListPods kc (om_Namespace (aj_Meta j)) (pods_of_job j) s = k_ListPods kc (fst k) (''muto.io/job'', snd k) s"
  by (auto simp: pods_of_job_def meta_key_def)

lemma Running_distance:
  assumes sv: "serves kc os k J P C" and run: "reconcileRunning kc os job s = (r, s')"
    and stored: "J (world s) = Some job"
  shows "J (world s') = J (world s) \<or> distance (J (world s')) = 2"
    and "accepting kc k J \<Longrightarrow> P (world s) \<noteq> [] \<Longrightarrow>
      \<forall>pod\<in>set (P (world s)). pod_Phase pod = PodSucceeded \<or> pod_Phase pod = PodFailed \<Longrightarrow>
      distance (J (world s')) = 2"
proof -
  have key: "job_key job = k" using serves_get [OF sv stored] by simp
  let ?ended = "P (world s) \<noteq> [] \<and> (\<forall>pod\<in>set (P (world s)). pod_Phase pod = PodSucceeded \<or> pod_Phase pod = PodFailed)"
  obtain x s1 where 1: "k_ListPods kc (om_Namespace (aj_Meta job)) (pods_of_job job) s = (x, s1)" by fastforce
  have listed: "kc_ListPods kc (fst k) (''muto.io/job'', snd k) (world s) = (x, world s1)"
    using api_world [OF 1] key by (auto simp: pods_of_job_def meta_key_def)
  note l = serves_list [OF sv listed]
  have "(J (world s') = J (world s) \<or> distance (J (world s')) = 2) \<and> (accepting kc k J \<and> ?ended \<longrightarrow> distance (J (world s')) = 2)"
  proof (cases x)
    case (Inl e)
    then have "\<not> accepting kc k J" using accepting_list listed by metis
    with Inl run 1 l show ?thesis by (auto simp: reconcileRunning_def)
  next
    case (Inr pods)
    with l have pods: "pods = P (world s)" and j1: "J (world s1) = J (world s)" by auto
    show ?thesis
    proof (cases ?ended)
      case False
      with Inr run 1 pods j1 show ?thesis
        by (auto simp: reconcileRunning_def scan_pods_spec Let_def split: if_splits)
    next
      case True
      obtain t s2 where 2: "now os s1 = (t, s2)" by fastforce
      have j2: "J (world s2) = J (world s)" using serves_now [OF sv now_world [OF 2]] j1 by simp
      define ph where "ph = (if \<exists>pod\<in>set pods. pod_Phase pod = PodFailed then PhaseFailed else PhaseSucceeded)"
      let ?j = "job\<lparr>aj_Status := (aj_Status job)\<lparr>jst_CompletedAt := Some t, jst_ActiveAgents := 0, jst_Phase := ph\<rparr>\<rparr>"
      obtain z s3 where 3: "k_StatusUpdateJob kc ?j s2 = (z, s3)" by fastforce
      have "J (world s') = J (world s3)"
        using run 1 Inr 2 3 True pods
        by (auto simp: reconcileRunning_def scan_pods_spec Let_def ph_def finished_recorded [OF sv] split: sum.splits)
      moreover have "phase_distance ph = 2" by (simp add: ph_def distances)
      ultimately show ?thesis using status_written [OF sv 3] j2 stored by auto
    qed
  qed
  then show "J (world s') = J (world s) \<or> distance (J (world s')) = 2"
    and "accepting kc k J \<Longrightarrow> P (world s) \<noteq> [] \<Longrightarrow>
      \<forall>pod\<in>set (P (world s)). pod_Phase pod = PodSucceeded \<or> pod_Phase pod = PodFailed \<Longrightarrow>
      distance (J (world s')) = 2" by blast+
qed

lemma elapsed_over:
  assumes "0 < sint (ttl :: int32)" and "t0 + sint ttl * 1000000000 \<le> t"
  shows "sint (seconds ttl) \<le> sint (time_sub t t0)"
proof -
  have "sint ttl < 2 ^ 31" by (rule sint32_bounds(2))
  then have "sint ttl * 1000000000 < 2 ^ 63 - 1" by simp
  with assms show ?thesis by (simp add: sint_seconds sint_time_sub)
qed

lemma Terminal_distance:
  assumes sv: "serves kc os k J P C" and run: "reconcileTerminal kc os job s = (r, s')"
    and stored: "J (world s) = Some job"
  shows "J (world s') = J (world s) \<or> distance (J (world s')) = 1"
    and "accepting kc k J \<Longrightarrow> 0 < sint (js_TTLAfterCompletion (aj_Spec job)) \<Longrightarrow> jst_CompletedAt (aj_Status job) = Some t0 \<Longrightarrow>
      t0 + sint (js_TTLAfterCompletion (aj_Spec job)) * 1000000000 \<le> C (world s) \<Longrightarrow> distance (J (world s')) = 1"
proof -
  let ?ttl = "js_TTLAfterCompletion (aj_Spec job)"
  have "(J (world s') = J (world s) \<or> distance (J (world s')) = 1) \<and>
    (accepting kc k J \<and> 0 < sint ?ttl \<and> jst_CompletedAt (aj_Status job) = Some t0 \<and> t0 + sint ?ttl * 1000000000 \<le> C (world s)
      \<longrightarrow> distance (J (world s')) = 1)"
  proof (cases "0 < sint ?ttl \<and> jst_CompletedAt (aj_Status job) \<noteq> None")
    case False
    with run show ?thesis by (auto simp: reconcileTerminal_def split: if_splits option.splits)
  next
    case True
    then obtain c where c: "jst_CompletedAt (aj_Status job) = Some c" by auto
    obtain t s1 where 1: "now os s = (t, s1)" by fastforce
    note n = serves_now [OF sv now_world [OF 1]]
    let ?j = "job\<lparr>aj_Status := (aj_Status job)\<lparr>jst_Phase := PhaseTerminating\<rparr>\<rparr>"
    obtain z s2 where 2: "k_StatusUpdateJob kc ?j s1 = (z, s2)" by fastforce
    show ?thesis
    proof (cases "sint (time_sub t c) < sint (seconds ?ttl)")
      case early: True
      then have "\<not> (t0 + sint ?ttl * 1000000000 \<le> C (world s) \<and> jst_CompletedAt (aj_Status job) = Some t0)"
        using elapsed_over [of ?ttl t0 t] True n c by auto
      with early run True c 1 n show ?thesis by (auto simp: reconcileTerminal_def Let_def)
    next
      case late: False
      with run True c 1 2 have s': "s' = s2" by (auto simp: reconcileTerminal_def Let_def split: sum.splits)
      with status_written [OF sv 2] s' n stored show ?thesis by (auto simp: distances)
    qed
  qed
  then show "J (world s') = J (world s) \<or> distance (J (world s')) = 1"
    and "accepting kc k J \<Longrightarrow> 0 < sint (js_TTLAfterCompletion (aj_Spec job)) \<Longrightarrow> jst_CompletedAt (aj_Status job) = Some t0 \<Longrightarrow>
      t0 + sint (js_TTLAfterCompletion (aj_Spec job)) * 1000000000 \<le> C (world s) \<Longrightarrow> distance (J (world s')) = 1"
    by blast+
qed

lemma Terminating_distance:
  assumes sv: "serves kc os k J P C" and run: "reconcileTerminating kc job s = (r, s')"
    and stored: "J (world s) = Some job"
  shows "J (world s') = J (world s) \<or> J (world s') = None"
    and "accepting kc k J \<Longrightarrow> J (world s') = None"
proof -
  have key: "job_key job = k" using serves_get [OF sv stored] by simp
  obtain x s1 where 1: "k_ListPods kc (om_Namespace (aj_Meta job)) (pods_of_job job) s = (x, s1)" by fastforce
  have listed: "kc_ListPods kc (fst k) (''muto.io/job'', snd k) (world s) = (x, world s1)"
    using api_world [OF 1] key by (auto simp: pods_of_job_def meta_key_def)
  note l = serves_list [OF sv listed]
  have "(J (world s') = J (world s) \<or> J (world s') = None) \<and> (accepting kc k J \<longrightarrow> J (world s') = None)"
  proof (cases x)
    case (Inl e)
    then have "\<not> accepting kc k J" using accepting_list listed by metis
    with Inl run 1 l show ?thesis by (auto simp: reconcileTerminating_def)
  next
    case (Inr pods)
    obtain y s2 where 2: "delete_pods kc pods s1 = (y, s2)" by fastforce
    have j2: "J (world s2) = J (world s)" using delete_pods_keeps [OF sv 2] l by simp
    obtain z s3 where 3: "k_Delete kc (OJob job) s2 = (z, s3)" by fastforce
    note d = serves_delete [OF sv api_err_world [OF 3]]
    show ?thesis
    proof (cases y)
      case (Some e)
      then have "\<not> accepting kc k J" using delete_pods_accepted [of kc k J pods s1] 2 by auto
      with Some Inr run 1 2 j2 show ?thesis by (auto simp: reconcileTerminating_def)
    next
      case None
      with Inr run 1 2 3 have "s' = s3" by (auto simp: reconcileTerminating_def split: option.splits if_splits)
      moreover have "accepting kc k J \<Longrightarrow> z = None"
        using accepting_delete [OF _ _ api_err_world [OF 3]] j2 stored by simp
      ultimately show ?thesis using d j2 key by auto
    qed
  qed
  then show "J (world s') = J (world s) \<or> J (world s') = None"
    and "accepting kc k J \<Longrightarrow> J (world s') = None" by simp_all
qed

text \<open>
  A reconciliation never takes the job further from its end, and brings it nearer when it is due
  and the API server accepts its requests.
\<close>

lemma reconcile_job_distance:
  assumes sv: "serves kc os k J P C" and run: "reconcile_job kc os cl k s = (r, s')"
  shows "distance (J (world s')) = distance (J (world s)) \<or> Suc (distance (J (world s'))) = distance (J (world s))"
    and "accepting kc k J \<Longrightarrow> due J P C (world s) \<Longrightarrow> Suc (distance (J (world s'))) = distance (J (world s))"
proof -
  let ?goal = "(distance (J (world s')) = distance (J (world s)) \<or> Suc (distance (J (world s'))) = distance (J (world s))) \<and>
    (accepting kc k J \<and> due J P C (world s) \<longrightarrow> Suc (distance (J (world s'))) = distance (J (world s)))"
  have read: "J (world s) = Some job \<and> world s1 = world s" if "k_GetJob kc k s = (Inr job, s1)" for job s1
    using api_world [OF that] serves_get [OF sv, of "world s"] serves_gone [OF sv, of "world s"]
    by (cases "J (world s)") auto
  from run have ?goal
  proof (cases rule: reconcile_jobE)
    case (missing e)
    then have "J (world s) = None \<and> world s' = world s"
      using api_world [OF missing(1)] serves_get [OF sv, of "world s"] serves_gone [OF sv, of "world s"]
      by (cases "J (world s)") auto
    then show ?thesis by (simp add: due_def)
  next
    case (pending job s1)
    note j = read [OF pending(1)]
    from Pending_distance [OF sv pending(3)] j pending(2) show ?thesis
      by (auto simp: distance_def distances)
  next
    case (running job s1)
    note j = read [OF running(1)]
    from Running_distance [OF sv running(3)] j running(2) show ?thesis
      by (auto simp: distance_def distances due_def Let_def)
  next
    case (finished job s1)
    note j = read [OF finished(1)] and t = Terminal_distance [OF sv finished(3)] 
    have "distance (J (world s)) = 2" using j finished(2) by (auto simp: distance_def distances)
    moreover have "due J P C (world s) \<Longrightarrow> accepting kc k J \<Longrightarrow> distance (J (world s')) = 1"
      using finished(2) t(2) j by (auto simp: due_def Let_def phase_simps)
    ultimately show ?thesis using t(1) j by auto
  next
    case (terminating job s1)
    from Terminating_distance [OF sv terminating(3)] read [OF terminating(1)] terminating(2) show ?thesis
      by (auto simp: distance_def distances)
  next
    case (unknown job)
    with read [OF unknown(1)] show ?thesis by (auto simp: due_def Let_def)
  qed
  then show "distance (J (world s')) = distance (J (world s)) \<or> Suc (distance (J (world s'))) = distance (J (world s))"
    and "accepting kc k J \<Longrightarrow> due J P C (world s) \<Longrightarrow> Suc (distance (J (world s'))) = distance (J (world s))"
    by simp_all
qed

lemma due_later:
  "due J P C w \<Longrightarrow> J w' = J w \<Longrightarrow> P w' = P w \<Longrightarrow> C w \<le> C w' \<Longrightarrow> due J P C w'"
  by (auto simp: due_def Let_def split: option.splits if_splits)

lemma managed_distance:
  assumes sv: "serves kc os k J P C" and run: "AgentJobManaged kc os cl k s = (r, s')"
  shows "distance (J (world s')) = distance (J (world s)) \<or> Suc (distance (J (world s'))) = distance (J (world s))"
    and "accepting kc k J \<Longrightarrow> due J P C (world s) \<Longrightarrow> Suc (distance (J (world s'))) = distance (J (world s))"
proof -
  let ?s = "emit (SpanStart ''AgentJobReconciler.Reconcile'') s"
  obtain t1 s1 where 1: "now os ?s = (t1, s1)" by fastforce
  obtain x s2 where 2: "reconcile_job kc os cl k s1 = (x, s2)" by fastforce
  obtain t2 s3 where 3: "now os s2 = (t2, s3)" by fastforce
  have "world s' = world s3"
    using run by (auto simp: AgentJobManaged_def WrapReconciler_def WrapWith_def AgentJobReconcile_def
        ObserveReconcile_def Let_def 1 2 3 split: prod.splits sum.splits)
  moreover note a = serves_now [OF sv now_world [OF 1]] and b = serves_now [OF sv now_world [OF 3]]
  moreover note d = reconcile_job_distance [OF sv 2]
  ultimately show "distance (J (world s')) = distance (J (world s)) \<or> Suc (distance (J (world s'))) = distance (J (world s))"
    and "accepting kc k J \<Longrightarrow> due J P C (world s) \<Longrightarrow> Suc (distance (J (world s'))) = distance (J (world s))"
    using due_later [of J P C "world s" "world s1"] by auto
qed

section \<open>The life of a job\<close>

text \<open>
  A run of the cluster. Between the reconciliations the rest of the world acts: pods run and end,
  time passes, other clients write and delete jobs, this one included. One thing it may not do:
  set the phase of this job back or create it again, so that its \<open>distance\<close> grows. The manager
  reconciles, each time with the API server as it is then, in order or refusing requests. Counted
  are the reconciliations that are due and whose requests are accepted.
\<close>

inductive life ::
    "'w os \<Rightarrow> ctrl_lib \<Rightarrow> key \<Rightarrow> ('w \<Rightarrow> AgentJob option) \<Rightarrow> ('w \<Rightarrow> Pod list) \<Rightarrow> ('w \<Rightarrow> instant)
     \<Rightarrow> 'w kstate \<Rightarrow> nat \<Rightarrow> 'w kstate \<Rightarrow> bool"
  for os cl k job_in pods_in clock s where
  start: "life os cl k job_in pods_in clock s 0 s"
| elsewhere: "life os cl k job_in pods_in clock s n s' \<Longrightarrow>
    distance (job_in w) \<le> distance (job_in (world s')) \<Longrightarrow>
    life os cl k job_in pods_in clock s n (s'\<lparr>world := w\<rparr>)"
| reconciled: "life os cl k job_in pods_in clock s n s' \<Longrightarrow>
    serves kc os k job_in pods_in clock \<Longrightarrow>
    AgentJobManaged kc os cl k s' = (r, s'') \<Longrightarrow>
    life os cl k job_in pods_in clock s
      (if accepting kc k job_in \<and> due job_in pods_in clock (world s') then Suc n else n) s''"

lemma life_distance:
  "life os cl k J P C s n s' \<Longrightarrow> distance (J (world s')) + n \<le> distance (J (world s))"
proof (induction rule: life.induct)
  case (reconciled n s' kc r s'')
  from managed_distance [OF reconciled.hyps(2,3)] reconciled.IH show ?case by auto
qed auto

lemma distance_bound: "distance j \<le> 4"
  by (simp add: distance_def phase_distance_def split: option.split)

lemma distance_zero: "distance j = 0 \<longleftrightarrow> j = None"
  by (simp add: distance_def phase_distance_def split: option.split)

text \<open>
  C12. A job ends. As long as no other client sets its phase back or creates it again, and however many
  reconciliations find nothing to do or meet a failing API server, at most four reconciliations can be due and served;
  after four of them (three for a running job, two for a finished one, one for a
  terminating one) the job has been deleted.
\<close>

theorem job_ends:
  assumes "life os cl k job_in pods_in clock s n s'"
  shows "n \<le> distance (job_in (world s)) \<and> n \<le> 4
     \<and> (n = distance (job_in (world s)) \<longrightarrow> job_in (world s') = None)"
  using life_distance [OF assms] distance_bound [of "job_in (world s)"] by (auto simp: distance_zero)

section \<open>A job that is stored, run and deleted\<close>

text \<open>An API server with the jobs of every key, their pods and a clock\<close>

type_synonym stored = "(key \<Rightarrow> AgentJobStatus option) \<times> Pod list \<times> instant"

definition stored_job :: "key \<Rightarrow> stored \<Rightarrow> AgentJob option" where
  "stored_job k w = map_option (\<lambda>st. (demo_job [])
      \<lparr>aj_Meta := zero_ObjectMeta\<lparr>om_Name := snd k, om_Namespace := fst k\<rparr>, aj_Status := st\<rparr>) (fst w k)"

definition stored_cluster :: "stored kclient" where
  "stored_cluster = bare_client
     \<lparr>kc_GetJob := \<lambda>k w. (case stored_job k w of Some j \<Rightarrow> Inr j | None \<Rightarrow> Inl no_object, w),
      kc_GetTenant := \<lambda>k w. (Inr (demo_tenant (snd k)), w),
      kc_Create := \<lambda>ob w. (None, w),
      kc_Delete := \<lambda>ob w. (case ob of
          OJob x \<Rightarrow> if fst w (job_key x) = None then (Some no_object, w)
                     else (None, (fst w)(job_key x := None), snd w)
        | _ \<Rightarrow> (None, w)),
      kc_ListPods := \<lambda>ns l w. (Inr (fst (snd w)), w),
      kc_StatusUpdateJob := \<lambda>job w.
        (if fst w (job_key job) = None then (Inl no_object, w)
         else (Inr (job\<lparr>aj_Meta := zero_ObjectMeta\<lparr>om_Name := snd (job_key job), om_Namespace := fst (job_key job)\<rparr>,
                          aj_Spec := aj_Spec (demo_job [])\<rparr>),
               (fst w)(job_key job \<mapsto> aj_Status job), snd w))\<rparr>"

definition stored_os :: "stored os" where
  "stored_os = \<lparr>os_now = (\<lambda>w. (snd (snd w), fst w, fst (snd w), snd (snd w) + 1)), os_getenv = (\<lambda>k w. []),
                os_rand = (\<lambda>n w. (Inr (replicate n 0), w))\<rparr>"

definition stored_at :: "string \<Rightarrow> string list \<Rightarrow> instant \<Rightarrow> stored" where
  "stored_at phase pods t =
     ([(''acme'', ''j'') \<mapsto> aj_Status (demo_job phase), (''acme'', ''k'') \<mapsto> aj_Status (demo_job PhaseRunning)],
      map (\<lambda>p. zero_Pod\<lparr>pod_Phase := p\<rparr>) pods, t)"

lemma stored_serves:
  "serves stored_cluster stored_os (''acme'', ''j'') (stored_job (''acme'', ''j'')) (fst \<circ> snd) (snd \<circ> snd)"
  unfolding serves_def
  by (intro conjI allI impI)
     (auto simp: stored_cluster_def stored_os_def stored_job_def bare_client_def demo_job_def no_object_def
        meta_key_def split: if_splits kobj.splits)

lemma stored_accepts: "accepting stored_cluster (''acme'', ''j'') (stored_job (''acme'', ''j''))"
  unfolding accepting_def
  by (intro conjI allI impI) (auto simp: stored_cluster_def stored_job_def bare_client_def tolerated_def meta_key_def)

lemma stored_distance: "distance (stored_job (''acme'', ''j'') (stored_at p ps t)) = phase_distance p"
  by (simp add: distance_def stored_job_def stored_at_def demo_job_def)

text \<open>One due reconciliation, for which the rest of the cluster prepared\<close>

lemma stored_turn:
  assumes "life stored_os cl (''acme'', ''j'') (stored_job (''acme'', ''j'')) (fst \<circ> snd) (snd \<circ> snd) s n s'"
    and "distance (stored_job (''acme'', ''j'') (world s')) = phase_distance p"
    and "due (stored_job (''acme'', ''j'')) (fst \<circ> snd) (snd \<circ> snd) (stored_at p ps t)"
  shows "\<exists>s''. life stored_os cl (''acme'', ''j'') (stored_job (''acme'', ''j'')) (fst \<circ> snd) (snd \<circ> snd) s (Suc n) s''
     \<and> Suc (distance (stored_job (''acme'', ''j'') (world s''))) = phase_distance p"
proof -
  let ?s = "s'\<lparr>world := stored_at p ps t\<rparr>"
  obtain r s'' where run: "AgentJobManaged stored_cluster stored_os cl (''acme'', ''j'') ?s = (r, s'')" by fastforce
  have "life stored_os cl (''acme'', ''j'') (stored_job (''acme'', ''j'')) (fst \<circ> snd) (snd \<circ> snd) s n ?s"
    using assms by (intro life.elsewhere) (simp_all add: stored_distance)
  from life.reconciled [OF this stored_serves run] stored_accepts assms(3)
    managed_distance(2) [OF stored_serves run stored_accepts]
  show ?thesis by (auto simp: stored_distance)
qed

lemma stored_due:
  "due (stored_job (''acme'', ''j'')) (fst \<circ> snd) (snd \<circ> snd) (stored_at [] [] 0)"
  "due (stored_job (''acme'', ''j'')) (fst \<circ> snd) (snd \<circ> snd) (stored_at PhaseRunning [''Succeeded''] 0)"
  "due (stored_job (''acme'', ''j'')) (fst \<circ> snd) (snd \<circ> snd) (stored_at PhaseFailed [] 150000000000)"
  "due (stored_job (''acme'', ''j'')) (fst \<circ> snd) (snd \<circ> snd) (stored_at PhaseTerminating [] 0)"
  by (simp_all add: due_def stored_job_def stored_at_def demo_job_def phase_simps PodSucceeded_def zero_Pod_def)

theorem job_ends_witness:
  "\<exists>s'. life stored_os demo_lib (''acme'', ''j'') (stored_job (''acme'', ''j'')) (fst \<circ> snd) (snd \<circ> snd)
       \<lparr>world = stored_at [] [] 0, trace = [], ctx_next = 0, ctx_done = [], otlp_active = True\<rparr> 4 s'
     \<and> stored_job (''acme'', ''j'') (world s') = None"
proof -
  let ?s = "\<lparr>world = stored_at [] [] 0, trace = [], ctx_next = 0, ctx_done = [], otlp_active = True\<rparr> :: stored kstate"
  let ?L = "life stored_os demo_lib (''acme'', ''j'') (stored_job (''acme'', ''j'')) (fst \<circ> snd) (snd \<circ> snd) ?s"
  have "distance (stored_job (''acme'', ''j'') (world ?s)) = phase_distance []" by (simp add: stored_distance)
  from stored_turn [OF life.start this stored_due(1)]
  obtain s1 where 1: "?L (Suc 0) s1" "distance (stored_job (''acme'', ''j'') (world s1)) = phase_distance PhaseRunning"
    by (auto simp: distances)
  from stored_turn [OF this stored_due(2)]
  obtain s2 where 2: "?L (Suc (Suc 0)) s2" "distance (stored_job (''acme'', ''j'') (world s2)) = phase_distance PhaseFailed"
    by (auto simp: distances)
  from stored_turn [OF this stored_due(3)]
  obtain s3 where 3: "?L (Suc (Suc (Suc 0))) s3" "distance (stored_job (''acme'', ''j'') (world s3)) = phase_distance PhaseTerminating"
    by (auto simp: distances)
  from stored_turn [OF this stored_due(4)] obtain s4 where 4: "?L 4 s4"
    by (auto simp: numeral_eq_Suc)
  from job_ends [OF 4] have "stored_job (''acme'', ''j'') (world s4) = None" by (simp add: stored_distance distances)
  with 4 show ?thesis by auto
qed

end
