(* ===== verification/Fleet_Reconciler.thy ===== *)
theory Fleet_Reconciler
  imports Job_Lifecycle
begin

text \<open>
  \<open>platform/k8s/reconcilers/agentfleet_reconciler.go\<close>: the counts of a fleet's jobs by phase.
\<close>

text \<open>The loop over \<open>JobRefs\<close>, with the three counters of 32 bits\<close>

fun count_jobs ::
    "'w kclient \<Rightarrow> string \<Rightarrow> string list \<Rightarrow> int32 \<times> int32 \<times> int32 \<Rightarrow> 'w kstate
     \<Rightarrow> (int32 \<times> int32 \<times> int32) \<times> 'w kstate" where
  "count_jobs kc ns [] (tot, running, completed) s = ((tot, running, completed), s)"
| "count_jobs kc ns (ref # refs) (tot, running, completed) s =
     (case k_GetJob kc (ns, ref) s of
        (Inl err, s1) \<Rightarrow> count_jobs kc ns refs (tot, running, completed) s1
      | (Inr job, s1) \<Rightarrow>
          count_jobs kc ns refs
            (tot + 1,
             if jst_Phase (aj_Status job) = PhaseRunning then running + 1 else running,
             if jst_Phase (aj_Status job) = PhaseSucceeded \<or> jst_Phase (aj_Status job) = PhaseFailed
             then completed + 1 else completed) s1)"

definition reconcile_fleet :: "'w kclient \<Rightarrow> key \<Rightarrow> 'w kstate \<Rightarrow> Result res \<times> 'w kstate" where
  "reconcile_fleet kc req s =
     (case k_GetFleet kc req s of
        (Inl err, s1) \<Rightarrow>
          (case IgnoreNotFound err of None \<Rightarrow> (Inr 0, s1) | Some e \<Rightarrow> (Inl e, s1))
      | (Inr fleet, s1) \<Rightarrow>
          (let ((tot, running, completed), s2) =
                 count_jobs kc (fst req) (fs_JobRefs (af_Spec fleet)) (0, 0, 0) s1
           in case k_StatusUpdateFleet kc
                    (fleet\<lparr>af_Status := \<lparr>fst_TotalJobs = tot, fst_RunningJobs = running,
                                        fst_CompletedJobs = completed\<rparr>\<rparr>) s2 of
                (Inl err, s3) \<Rightarrow> (Inl err, s3)
              | (Inr _, s3) \<Rightarrow> (Inr 0, s3)))"

definition AgentFleetReconcile ::
    "'w kclient \<Rightarrow> 'w os \<Rightarrow> key \<Rightarrow> 'w kstate \<Rightarrow> Result res \<times> 'w kstate" where
  "AgentFleetReconcile kc os req = ObserveReconcile os ''agentfleet'' (reconcile_fleet kc req)"

definition AgentFleetManaged ::
    "'w kclient \<Rightarrow> 'w os \<Rightarrow> key \<Rightarrow> 'w kstate \<Rightarrow> Result res \<times> 'w kstate" where
  "AgentFleetManaged kc os = WrapReconciler ''AgentFleetReconciler.Reconcile'' (AgentFleetReconcile kc os)"

section \<open>The contract of a reconciler\<close>

lemma metric_step_count_jobs: "count_jobs kc ns refs c s = (d, s') \<Longrightarrow> metric_step s s'"
proof (induction kc ns refs c s rule: count_jobs.induct)
  case (1 kc ns tot running completed s)
  then show ?case by simp
next
  case (2 kc ns ref refs tot running completed s)
  obtain x s1 where g: "k_GetJob kc (ns, ref) s = (x, s1)" by fastforce
  have "metric_step s1 s'"
    by (cases x) (use 2 g in \<open>auto split: if_splits\<close>)
  with metric_step_api [OF g] show ?case by (rule metric_step_trans)
qed

lemma reconcile_fleet_steps:
  assumes "reconcile_fleet kc req s = (r, s')"
  obtains e s1 where "k_GetFleet kc req s = (e, s1)" and "metric_step s1 s'"
proof -
  obtain x s1 where 1: "k_GetFleet kc req s = (x, s1)" by fastforce
  have "metric_step s1 s'"
    using assms 1 unfolding reconcile_fleet_def Let_def
    by (auto split: sum.splits option.splits prod.splits dest!: metric_step_count_jobs metric_steps)
       (meson metric_step_trans)+
  with that 1 show ?thesis by blast
qed

interpretation fleet: reconciler "''agentfleet''" FleetK "AgentFleetReconcile kc os" for kc os
  unfolding AgentFleetReconcile_def [abs_def]
proof (rule reconciler_ObserveReconcile)
  fix req s r s'
  assume "reconcile_fleet kc req s = (r, s')"
  then obtain e s1 where 1: "k_GetFleet kc req s = (e, s1)" and 2: "metric_step s1 s'"
    by (rule reconcile_fleet_steps)
  then show "metric_step s s'" by (meson metric_step_api metric_step_trans)
  show "\<exists>e cs. calls (trace s') = calls (trace s) @ (KGet FleetK req, e) # cs"
    using metric_step_calls [OF 2] api_trace [OF 1] by fastforce
qed

section \<open>The counts\<close>

lemma count_jobs_spec:
  assumes "\<And>k w. kc_GetJob kc k w = (look k, w)"
  shows "\<exists>s'. count_jobs kc ns refs (tot, running, completed) s =
    ((tot + of_nat (length (filter (\<lambda>ref. \<exists>j. look (ns, ref) = Inr j) refs)),
      running + of_nat (length (filter (\<lambda>ref. \<exists>j. look (ns, ref) = Inr j
        \<and> jst_Phase (aj_Status j) = PhaseRunning) refs)),
      completed + of_nat (length (filter (\<lambda>ref. \<exists>j. look (ns, ref) = Inr j
        \<and> IsTerminal (jst_Phase (aj_Status j))) refs))), s')"
proof (induction refs arbitrary: tot running completed s)
  case Nil
  then show ?case by simp
next
  case (Cons ref refs)
  show ?case
  proof (cases "look (ns, ref)")
    case (Inl e)
    then show ?thesis using Cons.IH by (simp add: api_def assms)
  next
    case (Inr j)
    let ?s = "emit (Call (KGet JobK (ns, ref)) None) s"
    let ?ph = "jst_Phase (aj_Status j)"
    obtain s' where "count_jobs kc ns refs
        (tot + 1, if ?ph = PhaseRunning then running + 1 else running,
         if ?ph = PhaseSucceeded \<or> ?ph = PhaseFailed then completed + 1 else completed) ?s = (
      (tot + 1 + of_nat (length (filter (\<lambda>ref. \<exists>j. look (ns, ref) = Inr j) refs)),
      (if ?ph = PhaseRunning then running + 1 else running) + of_nat (length (filter (\<lambda>ref. \<exists>j. look (ns, ref) = Inr j
        \<and> jst_Phase (aj_Status j) = PhaseRunning) refs)),
      (if ?ph = PhaseSucceeded \<or> ?ph = PhaseFailed then completed + 1 else completed)
        + of_nat (length (filter (\<lambda>ref. \<exists>j. look (ns, ref) = Inr j
        \<and> IsTerminal (jst_Phase (aj_Status j))) refs))), s')"
      using Cons.IH by blast
    then show ?thesis
      using Inr by (auto simp: api_def assms err_of_def IsTerminal_def algebra_simps)
  qed
qed

text \<open>
  The status written for a fleet counts, of the jobs its references name, those that
  could be read, those running and those ended (modulo 2 to the 32), when the server answers
  reads from one snapshot; a reference that cannot be read, for whatever reason, is left out
  of every count, and no job is both running and ended.
\<close>

lemma fleet_status_counts:
  assumes "\<And>k w. kc_GetJob kc k w = (look k, w)"
    and "kc_GetFleet kc (ns, n) (world s) = (Inr fleet, w)"
    and "reconcile_fleet kc (ns, n) s = (r, s')"
  shows "\<exists>st e cs. calls (trace s') = cs @ [(KStatusUpdate (OFleet (fleet\<lparr>af_Status := st\<rparr>)), e)]
    \<and> fst_TotalJobs st = of_nat (length [ref\<leftarrow>fs_JobRefs (af_Spec fleet). \<exists>j. look (ns, ref) = Inr j])
    \<and> fst_RunningJobs st = of_nat (length [ref\<leftarrow>fs_JobRefs (af_Spec fleet).
        \<exists>j. look (ns, ref) = Inr j \<and> jst_Phase (aj_Status j) = ''Running''])
    \<and> fst_CompletedJobs st = of_nat (length [ref\<leftarrow>fs_JobRefs (af_Spec fleet).
        \<exists>j. look (ns, ref) = Inr j \<and> jst_Phase (aj_Status j) \<in> {''Succeeded'', ''Failed''}])"
proof -
  obtain s1 where 1: "k_GetFleet kc (ns, n) s = (Inr fleet, s1)"
    using assms(2) by (auto simp: api_def)
  obtain s2 where 2: "count_jobs kc ns (fs_JobRefs (af_Spec fleet)) (0, 0, 0) s1 =
    ((of_nat (length (filter (\<lambda>ref. \<exists>j. look (ns, ref) = Inr j) (fs_JobRefs (af_Spec fleet)))),
      of_nat (length (filter (\<lambda>ref. \<exists>j. look (ns, ref) = Inr j
        \<and> jst_Phase (aj_Status j) = PhaseRunning) (fs_JobRefs (af_Spec fleet)))),
      of_nat (length (filter (\<lambda>ref. \<exists>j. look (ns, ref) = Inr j
        \<and> IsTerminal (jst_Phase (aj_Status j))) (fs_JobRefs (af_Spec fleet))))), s2)"
    using count_jobs_spec [OF assms(1), of ns "fs_JobRefs (af_Spec fleet)" 0 0 0 s1] by auto
  show ?thesis
    using assms(3) 1 2 unfolding reconcile_fleet_def Let_def
    by (auto simp: phase_simps IsTerminal_def split: prod.splits sum.splits dest!: api_trace)
qed

lemma fleet_status_counts_example:
  "\<exists>e cs. calls (trace (snd (reconcile_fleet
       (bare_client
         \<lparr>kc_GetJob := \<lambda>k w. (if snd k = ''gone'' then Inl no_object else Inr (demo_job (snd k)), w),
          kc_GetFleet := \<lambda>k w. (Inr \<lparr>af_Meta = zero_ObjectMeta,
            af_Spec = \<lparr>fs_TenantRef = ''acme'', fs_JobRefs = [''Running'', ''gone'', ''Failed'']\<rparr>,
            af_Status = \<lparr>fst_TotalJobs = 9, fst_RunningJobs = 9, fst_CompletedJobs = 9\<rparr>\<rparr>, w)\<rparr>)
       (''acme'', ''f'') demo_state)))
     = cs @ [(KStatusUpdate (OFleet \<lparr>af_Meta = zero_ObjectMeta,
            af_Spec = \<lparr>fs_TenantRef = ''acme'', fs_JobRefs = [''Running'', ''gone'', ''Failed'']\<rparr>,
            af_Status = \<lparr>fst_TotalJobs = 2, fst_RunningJobs = 1, fst_CompletedJobs = 1\<rparr>\<rparr>), e)]"
proof -
  let ?fleet = "\<lparr>af_Meta = zero_ObjectMeta,
      af_Spec = \<lparr>fs_TenantRef = ''acme'', fs_JobRefs = [''Running'', ''gone'', ''Failed'']\<rparr>,
      af_Status = \<lparr>fst_TotalJobs = 9, fst_RunningJobs = 9, fst_CompletedJobs = 9\<rparr>\<rparr>"
  let ?look = "\<lambda>k. if snd k = ''gone'' then Inl no_object else Inr (demo_job (snd k))"
  let ?kc = "bare_client\<lparr>kc_GetJob := \<lambda>k w. (?look k, w), kc_GetFleet := \<lambda>k w. (Inr ?fleet, w)\<rparr>"
  let ?f = "reconcile_fleet ?kc (''acme'', ''f'') demo_state"
  have j: "\<And>k w. kc_GetJob ?kc k w = (?look k, w)" by simp
  have f: "kc_GetFleet ?kc (''acme'', ''f'') (world demo_state) = (Inr ?fleet, ())" by simp
  have "\<exists>st e cs. calls (trace (snd ?f)) = cs @ [(KStatusUpdate (OFleet (?fleet\<lparr>af_Status := st\<rparr>)), e)]
     \<and> fst_TotalJobs st = 2 \<and> fst_RunningJobs st = 1 \<and> fst_CompletedJobs st = 1"
    using fleet_status_counts [where r = "fst ?f" and s' = "snd ?f", OF j f]
    by (simp add: demo_job_def)
  then obtain st :: AgentFleetStatus and e cs where
    c: "calls (trace (snd ?f)) = cs @ [(KStatusUpdate (OFleet (?fleet\<lparr>af_Status := st\<rparr>)), e)]"
    and st: "fst_TotalJobs st = 2" "fst_RunningJobs st = 1" "fst_CompletedJobs st = 1" by blast
  have "st = \<lparr>fst_TotalJobs = 2, fst_RunningJobs = 1, fst_CompletedJobs = 1\<rparr>"
    using st by (cases st) simp
  with c show ?thesis by (intro exI [of _ e] exI [of _ cs]) simp
qed

end
