(* ===== verification/Fleet_Convergence.thy ===== *)
theory Fleet_Convergence
  imports Fleet_Reconciler
begin

text \<open>
  The fleet reconciler against a cluster that stores what it is sent: the status it leaves is the
  summary of the fleet's jobs at that moment, it asks for no further reconciliation, and a second
  one changes nothing.
\<close>

section \<open>A cluster that stores a fleet and its jobs\<close>

text \<open>
  The fleet with key \<open>k\<close> and the jobs are read as they are stored, and an update of the stored fleet with
  another status is kept. Nothing is asked of fleets that are not stored, or stored under another key.
\<close>

definition stores_fleet ::
    "'w kclient \<Rightarrow> key \<Rightarrow> ('w \<Rightarrow> key \<rightharpoonup> AgentJob) \<Rightarrow> ('w \<Rightarrow> AgentFleet option) \<Rightarrow> bool" where
  "stores_fleet kc k jobs fleet \<longleftrightarrow>
     (\<forall>w. case fleet w of
         Some f \<Rightarrow> kc_GetFleet kc k w = (Inr f, w)
       | None \<Rightarrow> \<exists>e. kc_GetFleet kc k w = (Inl e, w) \<and> IsNotFound e)
   \<and> (\<forall>i w. case jobs w i of
         Some j \<Rightarrow> kc_GetJob kc i w = (Inr j, w)
       | None \<Rightarrow> \<exists>e. kc_GetJob kc i w = (Inl e, w) \<and> IsNotFound e)
   \<and> (\<forall>f st w. fleet w = Some f \<longrightarrow>
        (\<exists>f' w'. kc_StatusUpdateFleet kc (f\<lparr>af_Status := st\<rparr>) w = (Inr f', w') \<and> af_Spec f' = af_Spec f
           \<and> af_Status f' = st \<and> fleet w' = Some f' \<and> jobs w' = jobs w))"

definition clock_apart :: "'w os \<Rightarrow> ('w \<Rightarrow> key \<rightharpoonup> AgentJob) \<Rightarrow> ('w \<Rightarrow> AgentFleet option) \<Rightarrow> bool" where
  "clock_apart os jobs fleet \<longleftrightarrow> (\<forall>w t w'. os_now os w = (t, w') \<longrightarrow> jobs w' = jobs w \<and> fleet w' = fleet w)"

lemmas gets_fleet = stores_fleet_def [THEN iffD1, THEN conjunct1, rule_format]
  and gets_job = stores_fleet_def [THEN iffD1, THEN conjunct2, THEN conjunct1, rule_format]
  and updates_fleet = stores_fleet_def [THEN iffD1, THEN conjunct2, THEN conjunct2, rule_format]

section \<open>The summary of a fleet\<close>

text \<open>The jobs the references name, in order, those named twice counted twice\<close>

definition named_jobs :: "(key \<rightharpoonup> AgentJob) \<Rightarrow> string \<Rightarrow> string list \<Rightarrow> AgentJob list" where
  "named_jobs jobs ns refs = List.map_filter (\<lambda>ref. jobs (ns, ref)) refs"

definition in_phase :: "Phase set \<Rightarrow> AgentJob \<Rightarrow> bool" where
  "in_phase ps j \<longleftrightarrow> jst_Phase (aj_Status j) \<in> ps"

definition summary :: "AgentJob list \<Rightarrow> AgentFleetStatus" where
  "summary js =
     \<lparr>fst_TotalJobs = of_nat (length js),
      fst_RunningJobs = of_nat (length (filter (in_phase {PhaseRunning}) js)),
      fst_CompletedJobs = of_nat (length (filter (in_phase {PhaseSucceeded, PhaseFailed}) js))\<rparr>"

lemma status_eta [simp]:
  "\<lparr>fst_TotalJobs = fst_TotalJobs st, fst_RunningJobs = fst_RunningJobs st, fst_CompletedJobs = fst_CompletedJobs st\<rparr> = st"
  by (cases st) simp

lemma named_jobs_simps [simp]:
  "named_jobs jobs ns [] = []"
  "named_jobs jobs ns (ref # refs) =
     (case jobs (ns, ref) of None \<Rightarrow> named_jobs jobs ns refs | Some j \<Rightarrow> j # named_jobs jobs ns refs)"
  by (simp_all add: named_jobs_def List.map_filter_def split: option.split)

lemma count_jobs_summary:
  assumes "stores_fleet kc k jobs fleet"
  shows "\<exists>s'. count_jobs kc ns refs (tot, running, completed) s =
     ((tot + fst_TotalJobs (summary (named_jobs (jobs (world s)) ns refs)),
       running + fst_RunningJobs (summary (named_jobs (jobs (world s)) ns refs)),
       completed + fst_CompletedJobs (summary (named_jobs (jobs (world s)) ns refs))), s') \<and> world s' = world s"
proof (induction refs arbitrary: tot running completed s)
  case Nil
  then show ?case by (simp add: summary_def)
next
  case (Cons ref refs)
  show ?case
  proof (cases "jobs (world s) (ns, ref)")
    case None
    then obtain e where "kc_GetJob kc (ns, ref) (world s) = (Inl e, world s)"
      using gets_job [OF assms, of "(ns, ref)" "world s"] by auto
    with None Cons.IH [of tot running completed "emit (Call (KGet JobK (ns, ref)) (Some e)) s"]
    show ?thesis by (simp add: api_def err_of_def)
  next
    case (Some j)
    then have "kc_GetJob kc (ns, ref) (world s) = (Inr j, world s)"
      using gets_job [OF assms, of "(ns, ref)" "world s"] by simp
    with Some Cons.IH [of "tot + 1" "if jst_Phase (aj_Status j) = PhaseRunning then running + 1 else running"
        "if jst_Phase (aj_Status j) = PhaseSucceeded \<or> jst_Phase (aj_Status j) = PhaseFailed
         then completed + 1 else completed" "emit (Call (KGet JobK (ns, ref)) None) s"]
    show ?thesis by (auto simp: api_def err_of_def summary_def in_phase_def algebra_simps)
  qed
qed

text \<open>The counts fit together: no job is running and ended, and none is counted that is not named.\<close>

lemma counts_fit:
  "length (filter (in_phase {PhaseRunning}) js) + length (filter (in_phase {PhaseSucceeded, PhaseFailed}) js) \<le> length js"
  by (induction js) (auto simp: in_phase_def phase_simps)

lemma length_named_jobs: "length (named_jobs jobs ns refs) \<le> length refs"
  by (induction refs) (auto split: option.split)

lemma summary_fits:
  assumes "length js < 2 ^ 31"
  shows "0 \<le> sint (fst_RunningJobs (summary js)) \<and> 0 \<le> sint (fst_CompletedJobs (summary js))
    \<and> sint (fst_RunningJobs (summary js)) + sint (fst_CompletedJobs (summary js)) \<le> sint (fst_TotalJobs (summary js))
    \<and> sint (fst_TotalJobs (summary js)) = int (length js)"
proof -
  have s: "sint (of_nat n :: int32) = int n" if "n < 2 ^ 31" for n
    using that sint_word_of_int32 [of "int n"] by simp
  show ?thesis using counts_fit [of js] assms by (simp add: summary_def s)
qed

section \<open>One reconciliation, and the next\<close>

text \<open>What a reconciliation leaves of the cluster\<close>

definition fleet_goal ::
    "string \<Rightarrow> (key \<rightharpoonup> AgentJob) \<Rightarrow> AgentFleet option \<Rightarrow> AgentFleet option \<Rightarrow> bool" where
  "fleet_goal ns jobs before after \<longleftrightarrow>
     (case before of
        None \<Rightarrow> after = None
      | Some f \<Rightarrow> \<exists>f'. after = Some f' \<and> af_Spec f' = af_Spec f
          \<and> af_Status f' = summary (named_jobs jobs ns (fs_JobRefs (af_Spec f))))"

lemma reconcile_fleet_goal:
  assumes "stores_fleet kc k jobs fleet" and "reconcile_fleet kc k s = (r, s')"
  shows "r = Inr 0 \<and> jobs (world s') = jobs (world s)
    \<and> fleet_goal (fst k) (jobs (world s)) (fleet (world s)) (fleet (world s'))"
proof (cases "fleet (world s)")
  case None
  then obtain e where "kc_GetFleet kc k (world s) = (Inl e, world s)" "IsNotFound e"
    using gets_fleet [OF assms(1), of "world s"] by auto
  with assms(2) None show ?thesis
    by (auto simp: reconcile_fleet_def api_def IgnoreNotFound_def fleet_goal_def)
next
  case (Some f)
  let ?js = "named_jobs (jobs (world s)) (fst k) (fs_JobRefs (af_Spec f))"
  have get: "k_GetFleet kc k s = (Inr f, emit (Call (KGet FleetK k) None) s)"
    using gets_fleet [OF assms(1), of "world s"] Some by (simp add: api_def err_of_def)
  obtain s2 where count: "count_jobs kc (fst k) (fs_JobRefs (af_Spec f)) (0, 0, 0) (emit (Call (KGet FleetK k) None) s) =
      ((fst_TotalJobs (summary ?js), fst_RunningJobs (summary ?js), fst_CompletedJobs (summary ?js)), s2)"
    and same: "world s2 = world s"
    using count_jobs_summary [OF assms(1), of "fst k" "fs_JobRefs (af_Spec f)" 0 0 0 "emit (Call (KGet FleetK k) None) s"]
    by auto
  obtain f' w' where "kc_StatusUpdateFleet kc (f\<lparr>af_Status := summary ?js\<rparr>) (world s2) = (Inr f', w')"
    "af_Spec f' = af_Spec f" "af_Status f' = summary ?js" "fleet w' = Some f'" "jobs w' = jobs (world s2)"
    using updates_fleet [OF assms(1), of "world s2" f "summary ?js"] same Some by auto
  with assms(2) get count same Some show ?thesis
    by (auto simp: reconcile_fleet_def api_def fleet_goal_def)
qed

lemma managed_fleet_goal:
  assumes "stores_fleet kc k jobs fleet" and "clock_apart os jobs fleet"
    and "AgentFleetManaged kc os k s = (r, s')"
  shows "r = Inr 0 \<and> jobs (world s') = jobs (world s)
    \<and> fleet_goal (fst k) (jobs (world s)) (fleet (world s)) (fleet (world s'))"
proof -
  let ?s0 = "emit (SpanStart ''AgentFleetReconciler.Reconcile'') s"
  obtain t1 s1 where 1: "now os ?s0 = (t1, s1)" by fastforce
  obtain x s2 where 2: "reconcile_fleet kc k s1 = (x, s2)" by fastforce
  obtain t2 s3 where 3: "now os s2 = (t2, s3)" by fastforce
  have "r = x" "world s' = world s3"
    using assms(3) by (auto simp: AgentFleetManaged_def WrapReconciler_def WrapWith_def AgentFleetReconcile_def
        ObserveReconcile_def 1 2 3 Let_def RecordReconcile_def split: sum.splits if_splits)
  moreover have "jobs (world s1) = jobs (world s) \<and> fleet (world s1) = fleet (world s)"
    "jobs (world s3) = jobs (world s2) \<and> fleet (world s3) = fleet (world s2)"
    using assms(2) 1 3 by (auto simp: clock_apart_def now_def Let_def split: prod.splits)
  ultimately show ?thesis using reconcile_fleet_goal [OF assms(1) 2] by simp
qed

text \<open>
  C22. One reconciliation of a fleet, on a cluster that stores what it is sent, leaves in its status the
  summary of the jobs its references name at that moment: how many exist, how many are running and how
  many have ended, counts of 32 bits that fit together for fewer than two to the 31 references. It
  asks for no further reconciliation, a second one writes the same status again, and a fleet that does not exist is left alone.
\<close>

theorem fleet_converges:
  assumes "stores_fleet kc k jobs fleet" and "clock_apart os jobs fleet"
    and "AgentFleetManaged kc os k s = (r, s')" and "AgentFleetManaged kc os k s' = (r', s'')"
  shows "r = Inr 0 \<and> r' = Inr 0 \<and> jobs (world s'') = jobs (world s)
    \<and> fleet_goal (fst k) (jobs (world s)) (fleet (world s)) (fleet (world s'))
    \<and> map_option af_Status (fleet (world s'')) = map_option af_Status (fleet (world s'))
    \<and> (\<forall>f st. fleet (world s') = Some f \<and> st = af_Status f \<and> length (fs_JobRefs (af_Spec f)) < 2 ^ 31 \<longrightarrow>
         0 \<le> sint (fst_RunningJobs st) \<and> 0 \<le> sint (fst_CompletedJobs st)
         \<and> sint (fst_RunningJobs st) + sint (fst_CompletedJobs st) \<le> sint (fst_TotalJobs st)
         \<and> sint (fst_TotalJobs st) \<le> int (length (fs_JobRefs (af_Spec f))))"
proof -
  note first = managed_fleet_goal [OF assms(1-3)] and second = managed_fleet_goal [OF assms(1,2,4)]
  have "map_option af_Status (fleet (world s'')) = map_option af_Status (fleet (world s'))"
    using first second by (cases "fleet (world s)") (auto simp: fleet_goal_def)
  moreover have "0 \<le> sint (fst_RunningJobs st) \<and> 0 \<le> sint (fst_CompletedJobs st)
         \<and> sint (fst_RunningJobs st) + sint (fst_CompletedJobs st) \<le> sint (fst_TotalJobs st)
         \<and> sint (fst_TotalJobs st) \<le> int (length (fs_JobRefs (af_Spec f)))"
    if f: "fleet (world s') = Some f" "st = af_Status f" "length (fs_JobRefs (af_Spec f)) < 2 ^ 31" for f st
  proof -
    let ?js = "named_jobs (jobs (world s)) (fst k) (fs_JobRefs (af_Spec f))"
    have "st = summary ?js" using first f(1,2) by (cases "fleet (world s)") (auto simp: fleet_goal_def)
    moreover have "length ?js \<le> length (fs_JobRefs (af_Spec f))" by (rule length_named_jobs)
    ultimately show ?thesis using summary_fits [of ?js] f(3) by simp
  qed
  ultimately show ?thesis using first second by simp
qed

text \<open>An API server with the jobs and the fleets of every key\<close>

type_synonym fleet_world = "(key \<rightharpoonup> AgentJob) \<times> (key \<rightharpoonup> AgentFleet)"

definition stored_fleet :: "key \<Rightarrow> fleet_world \<Rightarrow> AgentFleet option" where
  "stored_fleet k w = map_option (\<lambda>f. f\<lparr>af_Meta := (af_Meta f)\<lparr>om_Namespace := fst k, om_Name := snd k\<rparr>\<rparr>) (snd w k)"

definition fleet_store :: "fleet_world kclient" where
  "fleet_store = bare_client
     \<lparr>kc_GetFleet := \<lambda>k w. (case stored_fleet k w of Some f \<Rightarrow> Inr f | None \<Rightarrow> Inl no_object, w),
      kc_GetJob := \<lambda>k w. (case fst w k of Some j \<Rightarrow> Inr j | None \<Rightarrow> Inl no_object, w),
      kc_StatusUpdateFleet := \<lambda>f w.
        (let k = meta_key (af_Meta f) in
         if snd w k = None then (Inl no_object, w) else (Inr f, fst w, (snd w)(k \<mapsto> f)))\<rparr>"

lemma fleet_store_stores: "stores_fleet fleet_store k fst (stored_fleet k)"
  unfolding stores_fleet_def
  by (intro conjI allI)
     (auto simp: fleet_store_def bare_client_def no_object_def stored_fleet_def meta_key_def Let_def split: option.split)

text \<open>A fleet of three references, one of them to no job, beside a fleet of another key\<close>

definition fleet_of :: "string list \<Rightarrow> AgentFleet" where
  "fleet_of refs = \<lparr>af_Meta = zero_ObjectMeta,
     af_Spec = \<lparr>fs_TenantRef = ''acme'', fs_JobRefs = refs\<rparr>,
     af_Status = \<lparr>fst_TotalJobs = 9, fst_RunningJobs = 9, fst_CompletedJobs = 9\<rparr>\<rparr>"

definition fleet_start :: "fleet_world kstate" where
  "fleet_start = \<lparr>world = ([(''acme'', ''a'') \<mapsto> demo_job ''Running'', (''acme'', ''b'') \<mapsto> demo_job ''Failed''],
       [(''acme'', ''f'') \<mapsto> fleet_of [''a'', ''b'', ''gone''], (''acme'', ''g'') \<mapsto> fleet_of []]),
     trace = [], ctx_next = 0, ctx_done = [], otlp_active = False\<rparr>"

definition fleet_os :: "fleet_world os" where
  "fleet_os = \<lparr>os_now = (\<lambda>w. (0, w)), os_getenv = (\<lambda>k w. []), os_rand = (\<lambda>n w. (Inr (replicate n 0), w))\<rparr>"

theorem fleet_converges_witness:
  "\<exists>s' f. AgentFleetManaged fleet_store fleet_os (''acme'', ''f'') fleet_start = (Inr 0, s')
     \<and> stored_fleet (''acme'', ''f'') (world s') = Some f
     \<and> af_Status f = \<lparr>fst_TotalJobs = 2, fst_RunningJobs = 1, fst_CompletedJobs = 1\<rparr>"
proof -
  let ?R = "AgentFleetManaged fleet_store fleet_os (''acme'', ''f'')" and ?f = "stored_fleet (''acme'', ''f'')"
  obtain r s' where 1: "?R fleet_start = (r, s')" by fastforce
  obtain r' s'' where 2: "?R s' = (r', s'')" by fastforce
  have clock: "clock_apart fleet_os fst ?f" by (simp add: clock_apart_def fleet_os_def)
  from fleet_converges [OF fleet_store_stores clock 1 2]
  have "r = Inr 0" "fleet_goal ''acme'' (fst (world fleet_start)) (?f (world fleet_start)) (?f (world s'))" by simp_all
  with 1 show ?thesis
    by (auto simp: fleet_goal_def fleet_start_def stored_fleet_def fleet_of_def summary_def in_phase_def demo_job_def
        phase_simps)
qed

end
