(* ===== verification/Tenant_Reconciler.thy ===== *)
theory Tenant_Reconciler
  imports Job_Lifecycle
begin

text \<open>
  \<open>platform/k8s/reconcilers/tenant_reconciler.go\<close>: a tenant's namespace, its A2A gateway and
  its finalizer.
\<close>

definition tenantFinalizer :: string where
  "tenantFinalizer = ''muto.io/tenant-cleanup''"

section \<open>Random tokens\<close>

text \<open>\<open>hex.EncodeToString\<close>\<close>

definition hex_byte :: "8 word \<Rightarrow> string" where
  "hex_byte b = [hex_digit (unat b div 16), hex_digit (unat b mod 16)]"

definition hex_encode :: "8 word list \<Rightarrow> string" where
  "hex_encode bs = concat (map hex_byte bs)"

definition generateToken :: "'w os \<Rightarrow> 'w kstate \<Rightarrow> string res \<times> 'w kstate" where
  "generateToken os s =
     (let (r, w) = os_rand os 32 (world s); s1 = s\<lparr>world := w\<rparr> in
      case r of Inl err \<Rightarrow> (Inl err, s1) | Inr b \<Rightarrow> (Inr (hex_encode b), s1))"

section \<open>Creating what is missing\<close>

text \<open>The common shape: get; done if found; create if not found; any other error is returned\<close>

definition ensure ::
    "('w kstate \<Rightarrow> 'a res \<times> 'w kstate) \<Rightarrow> ('w kstate \<Rightarrow> goerror option \<times> 'w kstate)
     \<Rightarrow> 'w kstate \<Rightarrow> goerror option \<times> 'w kstate" where
  "ensure get create s =
     (case get s of
        (Inr _, s1) \<Rightarrow> (None, s1)
      | (Inl err, s1) \<Rightarrow> (if \<not> IsNotFound err then (Some err, s1) else create s1))"

definition ensureNamespace :: "'w kclient \<Rightarrow> KTenant \<Rightarrow> 'w kstate \<Rightarrow> goerror option \<times> 'w kstate" where
  "ensureNamespace kc tenant =
     ensure (k_GetNamespace kc ([], tsp_Namespace (kt_Spec tenant)))
       (k_Create kc (ONamespace \<lparr>ns_Meta = zero_ObjectMeta
          \<lparr>om_Name := tsp_Namespace (kt_Spec tenant),
           om_Labels := [''muto.io/tenant'' \<mapsto> om_Name (kt_Meta tenant)]\<rparr>\<rparr>))"

definition ensureA2ASecret ::
    "'w kclient \<Rightarrow> 'w os \<Rightarrow> string \<Rightarrow> OwnerReference \<Rightarrow> 'w kstate \<Rightarrow> goerror option \<times> 'w kstate" where
  "ensureA2ASecret kc os ns owner =
     ensure (k_GetSecret kc (ns, ''muto-a2a-token''))
       (\<lambda>s. case generateToken os s of
          (Inl err, s1) \<Rightarrow> (Some (Wrapped ''generate a2a token: '' err), s1)
        | (Inr token, s1) \<Rightarrow>
            k_Create kc (OSecret \<lparr>sec_Meta = zero_ObjectMeta
              \<lparr>om_Name := ''muto-a2a-token'', om_Namespace := ns, om_OwnerReferences := [owner]\<rparr>,
              sec_Data = [''token'' \<mapsto> token]\<rparr>) s1)"

definition gateway_labels :: "string \<rightharpoonup> string" where
  "gateway_labels = [''muto.io/component'' \<mapsto> ''a2a-gateway'']"

definition ensureA2ADeployment ::
    "'w kclient \<Rightarrow> 'w os \<Rightarrow> string \<Rightarrow> OwnerReference \<Rightarrow> 'w kstate \<Rightarrow> goerror option \<times> 'w kstate" where
  "ensureA2ADeployment kc os ns owner =
     ensure (k_GetDeployment kc (ns, ''a2a-gateway''))
       (\<lambda>s. let image = getenv os ''MUTO_A2A_GATEWAY_IMAGE'' s in
          if image = [] then
            (Some (Errorf ''MUTO_A2A_GATEWAY_IMAGE env var is required for A2A tenants but is not set''), s)
          else
            k_Create kc (ODeployment \<lparr>dep_Meta = zero_ObjectMeta
              \<lparr>om_Name := ''a2a-gateway'', om_Namespace := ns, om_OwnerReferences := [owner]\<rparr>,
              dep_Replicas = Some 1,
              dep_Selector = gateway_labels,
              dep_TemplateLabels = gateway_labels,
              dep_TemplateSpec = \<lparr>ps_Containers = [zero_Container
                \<lparr>ct_Name := ''a2a-gateway'', ct_Image := image, ct_Ports := [8080]\<rparr>],
                ps_RestartPolicy = []\<rparr>\<rparr>) s)"

definition ensureA2AService ::
    "'w kclient \<Rightarrow> string \<Rightarrow> OwnerReference \<Rightarrow> 'w kstate \<Rightarrow> goerror option \<times> 'w kstate" where
  "ensureA2AService kc ns owner =
     ensure (k_GetService kc (ns, ''a2a-gateway''))
       (k_Create kc (OService \<lparr>svc_Meta = zero_ObjectMeta
          \<lparr>om_Name := ''a2a-gateway'', om_Namespace := ns, om_OwnerReferences := [owner]\<rparr>,
          svc_Selector = gateway_labels, svc_Ports = [(8080, 8080)]\<rparr>))"

definition reconcileA2AGateway ::
    "'w kclient \<Rightarrow> 'w os \<Rightarrow> ctrl_lib \<Rightarrow> KTenant \<Rightarrow> 'w kstate \<Rightarrow> goerror option \<times> 'w kstate" where
  "reconcileA2AGateway kc os cl tenant s =
     (let ns = tsp_Namespace (kt_Spec tenant);
          ownerRef = cl_NewControllerRef cl (kt_Meta tenant) ''Tenant''
      in case ensureA2ASecret kc os ns ownerRef s of
           (Some err, s1) \<Rightarrow> (Some err, s1)
         | (None, s1) \<Rightarrow>
             (case ensureA2ADeployment kc os ns ownerRef s1 of
                (Some err, s2) \<Rightarrow> (Some err, s2)
              | (None, s2) \<Rightarrow> ensureA2AService kc ns ownerRef s2))"

section \<open>Finalizing\<close>

text \<open>One delete: a missing object is a success, an object deleted is logged\<close>

definition delete_logged ::
    "'w kclient \<Rightarrow> kobj \<Rightarrow> string \<Rightarrow> string \<Rightarrow> 'w kstate \<Rightarrow> goerror option \<times> 'w kstate" where
  "delete_logged kc ob failure message s =
     (case k_Delete kc ob s of
        (Some err, s1) \<Rightarrow> (if \<not> IsNotFound err then (Some (Wrapped failure err), s1) else (None, s1))
      | (None, s1) \<Rightarrow> (None, emit (LogInfo message) s1))"

definition gateway_deployment :: "string \<Rightarrow> kobj" where
  "gateway_deployment ns = ODeployment
     \<lparr>dep_Meta = zero_ObjectMeta\<lparr>om_Name := ''a2a-gateway'', om_Namespace := ns\<rparr>, dep_Replicas = None,
      dep_Selector = Map.empty, dep_TemplateLabels = Map.empty,
      dep_TemplateSpec = \<lparr>ps_Containers = [], ps_RestartPolicy = []\<rparr>\<rparr>"

definition gateway_service :: "string \<Rightarrow> kobj" where
  "gateway_service ns = OService
     \<lparr>svc_Meta = zero_ObjectMeta\<lparr>om_Name := ''a2a-gateway'', om_Namespace := ns\<rparr>,
      svc_Selector = Map.empty, svc_Ports = []\<rparr>"

definition gateway_secret :: "string \<Rightarrow> kobj" where
  "gateway_secret ns = OSecret
     \<lparr>sec_Meta = zero_ObjectMeta\<lparr>om_Name := ''muto-a2a-token'', om_Namespace := ns\<rparr>, sec_Data = Map.empty\<rparr>"

definition deleteA2AGatewayResources ::
    "'w kclient \<Rightarrow> string \<Rightarrow> 'w kstate \<Rightarrow> goerror option \<times> 'w kstate" where
  "deleteA2AGatewayResources kc ns s =
     (if ns = [] then (None, s)
      else
        case delete_logged kc (gateway_deployment ns) ''delete a2a-gateway deployment: ''
               ''deleted a2a-gateway deployment'' s of
          (Some err, s1) \<Rightarrow> (Some err, s1)
        | (None, s1) \<Rightarrow>
            (case delete_logged kc (gateway_service ns) ''delete a2a-gateway service: ''
                    ''deleted a2a-gateway service'' s1 of
               (Some err, s2) \<Rightarrow> (Some err, s2)
             | (None, s2) \<Rightarrow>
                 delete_logged kc (gateway_secret ns) ''delete muto-a2a-token secret: ''
                   ''deleted muto-a2a-token secret'' s2))"

definition finalizeTenant ::
    "'w kclient \<Rightarrow> ctrl_lib \<Rightarrow> KTenant \<Rightarrow> 'w kstate \<Rightarrow> Result res \<times> 'w kstate" where
  "finalizeTenant kc cl tenant s =
     (if \<not> cl_ContainsFinalizer cl (kt_Meta tenant) tenantFinalizer then (Inr 0, s)
      else
        (let s1 = emit (LogInfo ''tenant marked for deletion, cleaning up gateway resources'') s in
         case deleteA2AGatewayResources kc (tsp_Namespace (kt_Spec tenant)) s1 of
           (Some err, s2) \<Rightarrow>
             (Inl (Wrapped ''cleanup gateway resources: '' err),
              emit (LogError (Some err) ''failed to clean up gateway resources for tenant'') s2)
         | (None, s2) \<Rightarrow>
             (let s3 = emit (LogInfo ''gateway resources cleaned up, removing tenant finalizer'') s2;
                  tenant' = tenant\<lparr>kt_Meta := cl_RemoveFinalizer cl (kt_Meta tenant) tenantFinalizer\<rparr>
              in case k_UpdateTenant kc tenant' s3 of
                   (Inl err, s4) \<Rightarrow> (Inl (Wrapped ''remove finalizer: '' err), s4)
                 | (Inr _, s4) \<Rightarrow> (Inr 0, s4))))"

section \<open>Reconcile\<close>

text \<open>The finalizer is added on the first reconciliation; the tenant is then the server's.\<close>

definition add_finalizer ::
    "'w kclient \<Rightarrow> ctrl_lib \<Rightarrow> KTenant \<Rightarrow> 'w kstate \<Rightarrow> KTenant res \<times> 'w kstate" where
  "add_finalizer kc cl tenant s =
     (if \<not> cl_ContainsFinalizer cl (kt_Meta tenant) tenantFinalizer then
        (let s1 = emit (LogInfo ''adding tenant finalizer'') s;
             tenant' = tenant\<lparr>kt_Meta := cl_AddFinalizer cl (kt_Meta tenant) tenantFinalizer\<rparr>
         in case k_UpdateTenant kc tenant' s1 of
              (Inl err, s2) \<Rightarrow> (Inl (Wrapped ''add finalizer: '' err), s2)
            | (Inr t, s2) \<Rightarrow> (Inr t, s2))
      else (Inr tenant, s))"

definition provision ::
    "'w kclient \<Rightarrow> 'w os \<Rightarrow> ctrl_lib \<Rightarrow> KTenant \<Rightarrow> 'w kstate \<Rightarrow> Result res \<times> 'w kstate" where
  "provision kc os cl tenant s =
     (case ensureNamespace kc tenant s of
        (Some err, s1) \<Rightarrow> (Inl (Wrapped ''ensure namespace: '' err), s1)
      | (None, s1) \<Rightarrow>
          (case (if tb_Type (tsp_MessageBus (kt_Spec tenant)) = BusTypeA2A
                    \<and> tb_Dedicated (tsp_MessageBus (kt_Spec tenant))
                 then reconcileA2AGateway kc os cl tenant s1 else (None, s1)) of
             (Some err, s2) \<Rightarrow> (Inl (Wrapped ''reconcile a2a gateway: '' err), s2)
           | (None, s2) \<Rightarrow>
               (case k_StatusUpdateTenant kc (tenant\<lparr>kt_Status := (kt_Status tenant)\<lparr>tst_Ready := True\<rparr>\<rparr>) s2 of
                  (Inl err, s3) \<Rightarrow> (Inl err, s3)
                | (Inr _, s3) \<Rightarrow> (Inr 0, s3))))"

definition reconcile_tenant ::
    "'w kclient \<Rightarrow> 'w os \<Rightarrow> ctrl_lib \<Rightarrow> key \<Rightarrow> 'w kstate \<Rightarrow> Result res \<times> 'w kstate" where
  "reconcile_tenant kc os cl req s =
     (case k_GetTenant kc req s of
        (Inl err, s1) \<Rightarrow>
          (case IgnoreNotFound err of None \<Rightarrow> (Inr 0, s1) | Some e \<Rightarrow> (Inl e, s1))
      | (Inr tenant, s1) \<Rightarrow>
          (if \<not> IsZero (om_DeletionTimestamp (kt_Meta tenant)) then finalizeTenant kc cl tenant s1
           else
             (case add_finalizer kc cl tenant s1 of
                (Inl err, s2) \<Rightarrow> (Inl err, s2)
              | (Inr tenant', s2) \<Rightarrow> provision kc os cl tenant' s2)))"

definition TenantReconcile ::
    "'w kclient \<Rightarrow> 'w os \<Rightarrow> ctrl_lib \<Rightarrow> key \<Rightarrow> 'w kstate \<Rightarrow> Result res \<times> 'w kstate" where
  "TenantReconcile kc os cl req = ObserveReconcile os ''tenant'' (reconcile_tenant kc os cl req)"

definition TenantManaged ::
    "'w kclient \<Rightarrow> 'w os \<Rightarrow> ctrl_lib \<Rightarrow> key \<Rightarrow> 'w kstate \<Rightarrow> Result res \<times> 'w kstate" where
  "TenantManaged kc os cl = WrapReconciler ''TenantReconciler.Reconcile'' (TenantReconcile kc os cl)"

end
