(* ===== verification/Tenant_Lifecycle.thy ===== *)
theory Tenant_Lifecycle
  imports Tenant_Reconciler
begin

text \<open>
  What the tenant reconciler promises: nothing is created that exists or before the finalizer
  is in place, Ready is written after everything is provisioned, the finalizer is removed
  after everything is deleted. All of it is read off the requests of one reconciliation,
  for any server.
\<close>

section \<open>Requests of the parts\<close>

type_synonym klog = "(kube_call \<times> goerror option) list"

text \<open>What ensuring an object asks: found; not readable; or missing and then created\<close>

definition ensured :: "kkind \<Rightarrow> key \<Rightarrow> klog \<Rightarrow> goerror option \<Rightarrow> bool" where
  "ensured kd k cs e \<longleftrightarrow>
     cs = [(KGet kd k, None)] \<and> e = None
     \<or> (\<exists>err. cs = [(KGet kd k, Some err)] \<and> e \<noteq> None)
     \<or> (\<exists>err ob. cs = [(KGet kd k, Some err), (KCreate ob, e)] \<and> IsNotFound err \<and> obj_key ob = (kd, k))"

lemma ensure_run:
  assumes get: "\<And>s r s1. get s = (r, s1) \<Longrightarrow> calls (trace s1) = calls (trace s) @ [(KGet kd k, err_of r)]"
    and create: "\<And>s e s1. create s = (e, s1) \<Longrightarrow>
      (\<exists>ob. calls (trace s1) = calls (trace s) @ [(KCreate ob, e)] \<and> obj_key ob = (kd, k))
      \<or> e \<noteq> None \<and> calls (trace s1) = calls (trace s)"
    and run: "ensure get create s = (e, s')"
  shows "\<exists>cs. calls (trace s') = calls (trace s) @ cs \<and> ensured kd k cs e"
proof -
  obtain r s1 where 1: "get s = (r, s1)" by fastforce
  note c1 = get [OF 1]
  show ?thesis
  proof (cases r)
    case (Inr a)
    with run 1 c1 show ?thesis by (auto simp: ensure_def ensured_def err_of_def)
  next
    case (Inl err)
    show ?thesis
    proof (cases "IsNotFound err")
      case False
      with run 1 c1 Inl show ?thesis by (auto simp: ensure_def ensured_def err_of_def)
    next
      case True
      with run 1 Inl have "create s1 = (e, s')" by (simp add: ensure_def)
      from create [OF this] c1 Inl True show ?thesis
        by (auto simp: ensured_def err_of_def)
    qed
  qed
qed

lemma calls_api: "api c f s = (r, s') \<Longrightarrow> calls (trace s') = calls (trace s) @ [(c, err_of r)]"
  by (simp add: api_trace)

lemma calls_api_err: "api_err c f s = (r, s') \<Longrightarrow> calls (trace s') = calls (trace s) @ [(c, r)]"
  by (simp add: api_err_trace)

lemma ensureNamespace_run:
  "ensureNamespace kc tenant s = (e, s') \<Longrightarrow>
     \<exists>cs. calls (trace s') = calls (trace s) @ cs
       \<and> ensured NamespaceK ([], tsp_Namespace (kt_Spec tenant)) cs e"
  unfolding ensureNamespace_def
  by (erule ensure_run [rotated 2, OF _ calls_api])
     (auto simp: meta_key_def zero_ObjectMeta_def dest!: calls_api_err)

lemma generateToken_calls: "generateToken os s = (r, s') \<Longrightarrow> trace s' = trace s"
  by (auto simp: generateToken_def Let_def split: prod.splits sum.splits)

lemma ensureA2ASecret_run:
  "ensureA2ASecret kc os ns owner s = (e, s') \<Longrightarrow>
     \<exists>cs. calls (trace s') = calls (trace s) @ cs \<and> ensured SecretK (ns, ''muto-a2a-token'') cs e"
  unfolding ensureA2ASecret_def
  by (erule ensure_run [rotated 2, OF _ calls_api])
     (auto simp: meta_key_def dest!: calls_api_err generateToken_calls split: prod.splits sum.splits)

lemma ensureA2ADeployment_run:
  "ensureA2ADeployment kc os ns owner s = (e, s') \<Longrightarrow>
     \<exists>cs. calls (trace s') = calls (trace s) @ cs \<and> ensured DeploymentK (ns, ''a2a-gateway'') cs e"
  unfolding ensureA2ADeployment_def
  by (erule ensure_run [rotated 2, OF _ calls_api])
     (auto simp: meta_key_def Let_def dest!: calls_api_err split: if_splits)

lemma ensureA2AService_run:
  "ensureA2AService kc ns owner s = (e, s') \<Longrightarrow>
     \<exists>cs. calls (trace s') = calls (trace s) @ cs \<and> ensured ServiceK (ns, ''a2a-gateway'') cs e"
  unfolding ensureA2AService_def
  by (erule ensure_run [rotated 2, OF _ calls_api])
     (auto simp: meta_key_def dest!: calls_api_err)

section \<open>Readings of a request log\<close>

text \<open>Every create comes right after a get of the same object that did not find it.\<close>

fun guarded :: "(kube_call \<times> goerror option) option \<Rightarrow> klog \<Rightarrow> bool" where
  "guarded prev [] = True"
| "guarded prev ((KCreate ob, e) # cs) =
     ((\<exists>err. prev = Some (KGet (fst (obj_key ob)) (snd (obj_key ob)), Some err) \<and> IsNotFound err)
      \<and> guarded (Some (KCreate ob, e)) cs)"
| "guarded prev (c # cs) = guarded (Some c) cs"

text \<open>The object was found, or was created.\<close>

definition provisioned :: "klog \<Rightarrow> kkind \<times> key \<Rightarrow> bool" where
  "provisioned cs k \<longleftrightarrow>
     (KGet (fst k) (snd k), None) \<in> set cs \<or> (\<exists>ob. (KCreate ob, None) \<in> set cs \<and> obj_key ob = k)"

definition no_create :: "klog \<Rightarrow> bool" where
  "no_create cs \<longleftrightarrow> (\<forall>c\<in>set cs. \<forall>ob. fst c \<noteq> KCreate ob)"

definition no_status :: "klog \<Rightarrow> bool" where
  "no_status cs \<longleftrightarrow> (\<forall>c\<in>set cs. \<forall>ob. fst c \<noteq> KStatusUpdate ob)"

lemma guarded_Cons:
  "guarded p (c # cs) \<longleftrightarrow>
     (\<forall>ob e. c = (KCreate ob, e) \<longrightarrow>
        (\<exists>err. p = Some (KGet (fst (obj_key ob)) (snd (obj_key ob)), Some err) \<and> IsNotFound err))
     \<and> guarded (Some c) cs"
  by (cases c; cases "fst c") auto

lemma guarded_append:
  "guarded prev (xs @ ys) \<longleftrightarrow> guarded prev xs \<and> guarded (if xs = [] then prev else Some (last xs)) ys"
  by (induction prev xs rule: guarded.induct) auto

lemma provisioned_append [simp]:
  "provisioned (xs @ ys) k \<longleftrightarrow> provisioned xs k \<or> provisioned ys k"
  by (auto simp: provisioned_def)

lemma no_status_append [simp]: "no_status (xs @ ys) \<longleftrightarrow> no_status xs \<and> no_status ys"
  by (auto simp: no_status_def)

lemma ensured_readings:
  assumes "ensured kd k cs e"
  shows "guarded p cs" "no_status cs" "e = None \<Longrightarrow> provisioned cs (kd, k)"
    "cs \<noteq> []"
  using assms by (auto simp: ensured_def no_status_def provisioned_def)

text \<open>The gateway of a namespace, all of it\<close>

definition gateway_ready :: "klog \<Rightarrow> string \<Rightarrow> bool" where
  "gateway_ready cs ns \<longleftrightarrow>
     provisioned cs (SecretK, (ns, ''muto-a2a-token''))
     \<and> provisioned cs (DeploymentK, (ns, ''a2a-gateway''))
     \<and> provisioned cs (ServiceK, (ns, ''a2a-gateway''))"

lemma gateway_ready_append1: "gateway_ready ys ns \<Longrightarrow> gateway_ready (xs @ ys) ns"
  by (simp add: gateway_ready_def)

lemma reconcileA2AGateway_run:
  assumes "reconcileA2AGateway kc os cl tenant s = (e, s')"
  shows "\<exists>cs. calls (trace s') = calls (trace s) @ cs \<and> (\<forall>p. guarded p cs) \<and> no_status cs
    \<and> (e = None \<longrightarrow> gateway_ready cs (tsp_Namespace (kt_Spec tenant)))"
proof -
  let ?ns = "tsp_Namespace (kt_Spec tenant)"
  let ?own = "cl_NewControllerRef cl (kt_Meta tenant) ''Tenant''"
  obtain e1 s1 where 1: "ensureA2ASecret kc os ?ns ?own s = (e1, s1)" by fastforce
  obtain e2 s2 where 2: "ensureA2ADeployment kc os ?ns ?own s1 = (e2, s2)" by fastforce
  obtain e3 s3 where 3: "ensureA2AService kc ?ns ?own s2 = (e3, s3)" by fastforce
  obtain c1 where c1: "calls (trace s1) = calls (trace s) @ c1" "ensured SecretK (?ns, ''muto-a2a-token'') c1 e1"
    using ensureA2ASecret_run [OF 1] by blast
  obtain c2 where c2: "calls (trace s2) = calls (trace s1) @ c2" "ensured DeploymentK (?ns, ''a2a-gateway'') c2 e2"
    using ensureA2ADeployment_run [OF 2] by blast
  obtain c3 where c3: "calls (trace s3) = calls (trace s2) @ c3" "ensured ServiceK (?ns, ''a2a-gateway'') c3 e3"
    using ensureA2AService_run [OF 3] by blast
  note rs = ensured_readings [OF c1(2)] ensured_readings [OF c2(2)] ensured_readings [OF c3(2)]
  consider "e1 \<noteq> None" "e = e1" "s' = s1" | "e1 = None" "e2 \<noteq> None" "e = e2" "s' = s2"
    | "e1 = None" "e2 = None" "e = e3" "s' = s3"
    using assms 1 2 3 by (cases e1; cases e2) (auto simp: reconcileA2AGateway_def Let_def)
  then show ?thesis
  proof cases
    case 1
    then show ?thesis using c1 rs by (intro exI [of _ c1]) auto
  next
    case 2
    then show ?thesis using c1 c2 rs by (intro exI [of _ "c1 @ c2"]) (auto simp: guarded_append)
  next
    case 3
    then show ?thesis using c1 c2 c3 rs
      by (intro exI [of _ "c1 @ c2 @ c3"]) (simp add: guarded_append gateway_ready_def)
  qed
qed

text \<open>What a reconciliation has done when it writes Ready\<close>

definition ready_log :: "KTenant \<Rightarrow> klog \<Rightarrow> bool" where
  "ready_log t cs \<longleftrightarrow>
     provisioned cs (NamespaceK, ([], tsp_Namespace (kt_Spec t)))
     \<and> (tb_Type (tsp_MessageBus (kt_Spec t)) = BusTypeA2A \<and> tb_Dedicated (tsp_MessageBus (kt_Spec t))
        \<longrightarrow> gateway_ready cs (tsp_Namespace (kt_Spec t)))"

text \<open>The gateway is reconciled for a dedicated a2a bus only.\<close>

definition with_gateway :: "KTenant \<Rightarrow> bool" where
  "with_gateway tenant \<longleftrightarrow>
     tb_Type (tsp_MessageBus (kt_Spec tenant)) = BusTypeA2A \<and> tb_Dedicated (tsp_MessageBus (kt_Spec tenant))"

lemma gateway_part_run:
  assumes "(if with_gateway tenant then reconcileA2AGateway kc os cl tenant s else (None, s)) = (e, s')"
  obtains cs where "calls (trace s') = calls (trace s) @ cs" and "\<forall>p. guarded p cs" and "no_status cs"
    and "e = None \<and> with_gateway tenant \<longrightarrow> gateway_ready cs (tsp_Namespace (kt_Spec tenant))"
proof (cases "with_gateway tenant")
  case True
  with assms reconcileA2AGateway_run [of kc os cl tenant s e s'] that show ?thesis by auto
next
  case False
  with assms that [of "[]"] show ?thesis by (simp add: no_status_def)
qed

lemma provision_run:
  assumes "provision kc os cl tenant s = (r, s')"
  shows "\<exists>cs. calls (trace s') = calls (trace s) @ cs \<and> (\<forall>p. guarded p cs) \<and>
    ((\<exists>err. r = Inl err) \<and> no_status cs \<or>
     (\<exists>cs1 e. cs = cs1 @ [(KStatusUpdate (OTenant (tenant\<lparr>kt_Status := (kt_Status tenant)\<lparr>tst_Ready := True\<rparr>\<rparr>)), e)]
        \<and> no_status cs1 \<and> ready_log tenant cs1))"
proof -
  let ?ns = "tsp_Namespace (kt_Spec tenant)"
  let ?t = "tenant\<lparr>kt_Status := (kt_Status tenant)\<lparr>tst_Ready := True\<rparr>\<rparr>"
  obtain e1 s1 where 1: "ensureNamespace kc tenant s = (e1, s1)" by fastforce
  obtain e2 s2 where 2: "(if with_gateway tenant then reconcileA2AGateway kc os cl tenant s1 else (None, s1)) = (e2, s2)"
    by fastforce
  obtain x s3 where 3: "k_StatusUpdateTenant kc ?t s2 = (x, s3)" by fastforce
  obtain c1 where c1: "calls (trace s1) = calls (trace s) @ c1" "ensured NamespaceK ([], ?ns) c1 e1"
    using ensureNamespace_run [OF 1] by blast
  obtain c2 where c2: "calls (trace s2) = calls (trace s1) @ c2" "\<forall>p. guarded p c2" "no_status c2"
    "e2 = None \<and> with_gateway tenant \<longrightarrow> gateway_ready c2 ?ns" by (rule gateway_part_run [OF 2])
  note rs = ensured_readings [OF c1(2)]
  have run: "(r, s') = (case e1 of Some err \<Rightarrow> (Inl (Wrapped ''ensure namespace: '' err), s1)
    | None \<Rightarrow> (case e2 of Some err \<Rightarrow> (Inl (Wrapped ''reconcile a2a gateway: '' err), s2)
      | None \<Rightarrow> (case x of Inl err \<Rightarrow> (Inl err, s3) | Inr _ \<Rightarrow> (Inr 0, s3))))"
    using assms 2 unfolding provision_def 1 by (simp add: 3 with_gateway_def split: option.splits if_splits)
  consider "e1 \<noteq> None" "\<exists>err. r = Inl err" "s' = s1"
    | "e1 = None" "e2 \<noteq> None" "\<exists>err. r = Inl err" "s' = s2" | "e1 = None" "e2 = None" "s' = s3"
    using run by (cases e1; cases e2; cases x) auto
  then show ?thesis
  proof cases
    case 1
    then show ?thesis using c1 rs by (intro exI [of _ c1]) auto
  next
    case 2
    then show ?thesis using c1 c2 rs by (intro exI [of _ "c1 @ c2"]) (auto simp: guarded_append)
  next
    case 3
    have "ready_log tenant (c1 @ c2)"
      using 3 rs(3) c2(4) gateway_ready_append1 by (auto simp: ready_log_def with_gateway_def)
    then show ?thesis
      using 3 c1(1) c2(1-3) rs calls_api [OF \<open>k_StatusUpdateTenant kc ?t s2 = (x, s3)\<close>]
      by (intro exI [of _ "(c1 @ c2) @ [(KStatusUpdate (OTenant ?t), err_of x)]"])
         (auto simp: guarded_append)
  qed
qed

section \<open>Finalizing\<close>

lemma delete_logged_run:
  assumes "delete_logged kc ob f m s = (r, s')"
  shows "\<exists>e. calls (trace s') = calls (trace s) @ [(KDelete ob, e)] \<and> (r = None \<longleftrightarrow> tolerated KNotFound e)"
  using assms
  by (auto simp: delete_logged_def tolerated_def split: prod.splits option.splits if_splits
      dest!: calls_api_err)

text \<open>The deletes of a namespace's gateway, in order, with the answers so far\<close>

definition gateway_deletes :: "string \<Rightarrow> goerror option list \<Rightarrow> klog" where
  "gateway_deletes ns es =
     zip (map KDelete [gateway_deployment ns, gateway_service ns, gateway_secret ns]) es"

lemma deleteA2AGatewayResources_run:
  assumes "deleteA2AGatewayResources kc ns s = (r, s')" and "ns \<noteq> []"
  shows "\<exists>es. calls (trace s') = calls (trace s) @ gateway_deletes ns es \<and> length es \<le> 3
    \<and> (r = None \<longrightarrow> length es = 3 \<and> (\<forall>e\<in>set es. tolerated KNotFound e))"
proof -
  let ?f1 = "''delete a2a-gateway deployment: ''" and ?m1 = "''deleted a2a-gateway deployment''"
  let ?f2 = "''delete a2a-gateway service: ''" and ?m2 = "''deleted a2a-gateway service''"
  let ?f3 = "''delete muto-a2a-token secret: ''" and ?m3 = "''deleted muto-a2a-token secret''"
  obtain r1 s1 where 1: "delete_logged kc (gateway_deployment ns) ?f1 ?m1 s = (r1, s1)" by fastforce
  obtain r2 s2 where 2: "delete_logged kc (gateway_service ns) ?f2 ?m2 s1 = (r2, s2)" by fastforce
  obtain r3 s3 where 3: "delete_logged kc (gateway_secret ns) ?f3 ?m3 s2 = (r3, s3)" by fastforce
  obtain e1 where e1: "calls (trace s1) = calls (trace s) @ [(KDelete (gateway_deployment ns), e1)]"
    "r1 = None \<longleftrightarrow> tolerated KNotFound e1" using delete_logged_run [OF 1] by blast
  obtain e2 where e2: "calls (trace s2) = calls (trace s1) @ [(KDelete (gateway_service ns), e2)]"
    "r2 = None \<longleftrightarrow> tolerated KNotFound e2" using delete_logged_run [OF 2] by blast
  obtain e3 where e3: "calls (trace s3) = calls (trace s2) @ [(KDelete (gateway_secret ns), e3)]"
    "r3 = None \<longleftrightarrow> tolerated KNotFound e3" using delete_logged_run [OF 3] by blast
  consider "r1 \<noteq> None" "r = r1" "s' = s1" | "r1 = None" "r2 \<noteq> None" "r = r2" "s' = s2"
    | "r1 = None" "r2 = None" "r = r3" "s' = s3"
    using assms 1 2 3 by (cases r1; cases r2) (auto simp: deleteA2AGatewayResources_def)
  then show ?thesis
  proof cases
    case 1
    then show ?thesis using e1 by (intro exI [of _ "[e1]"]) (simp add: gateway_deletes_def)
  next
    case 2
    then show ?thesis using e1 e2 by (intro exI [of _ "[e1, e2]"]) (simp add: gateway_deletes_def)
  next
    case 3
    then show ?thesis using e1 e2 e3 by (intro exI [of _ "[e1, e2, e3]"]) (auto simp: gateway_deletes_def)
  qed
qed

text \<open>
  C4. The finalizer of a tenant is removed only after its gateway is gone. Finalizing a
  tenant that has the finalizer deletes the gateway's deployment, service and secret, in
  this order; it stops with an error at the first delete that fails, the finalizer in place;
  only when each was deleted or already gone is the tenant updated without the finalizer,
  and the finalization succeeds exactly when that update does.
\<close>

theorem finalizer_removed_after_cleanup:
  assumes "cl_ContainsFinalizer cl (kt_Meta tenant) tenantFinalizer"
    and "tsp_Namespace (kt_Spec tenant) \<noteq> []"
    and "finalizeTenant kc cl tenant s = (r, s')"
  shows "\<exists>es. length es \<le> 3 \<and>
    (let ns = tsp_Namespace (kt_Spec tenant);
         deletes = zip (map KDelete [gateway_deployment ns, gateway_service ns, gateway_secret ns]) es
     in calls (trace s') = calls (trace s) @ deletes \<and> (\<exists>err. r = Inl err)
        \<or> length es = 3 \<and> (\<forall>e\<in>set es. e = None \<or> (\<exists>x. e = Some x \<and> IsNotFound x))
          \<and> (\<exists>e. calls (trace s') = calls (trace s) @ deletes
                @ [(KUpdate (OTenant (tenant\<lparr>kt_Meta := cl_RemoveFinalizer cl (kt_Meta tenant) tenantFinalizer\<rparr>)), e)]
              \<and> (r = Inr 0 \<longleftrightarrow> e = None)))"
proof -
  let ?ns = "tsp_Namespace (kt_Spec tenant)"
  let ?s1 = "emit (LogInfo ''tenant marked for deletion, cleaning up gateway resources'') s"
  let ?t = "tenant\<lparr>kt_Meta := cl_RemoveFinalizer cl (kt_Meta tenant) tenantFinalizer\<rparr>"
  obtain x s2 where 2: "deleteA2AGatewayResources kc ?ns ?s1 = (x, s2)" by fastforce
  let ?s3 = "emit (LogInfo ''gateway resources cleaned up, removing tenant finalizer'') s2"
  obtain u s4 where 4: "k_UpdateTenant kc ?t ?s3 = (u, s4)" by fastforce
  obtain es where es: "calls (trace s2) = calls (trace ?s1) @ gateway_deletes ?ns es" "length es \<le> 3"
    "x = None \<longrightarrow> length es = 3 \<and> (\<forall>e\<in>set es. tolerated KNotFound e)"
    using deleteA2AGatewayResources_run [OF 2 assms(2)] by blast
  show ?thesis
  proof (cases x)
    case (Some err)
    then have "(\<exists>err. r = Inl err) \<and> calls (trace s') = calls (trace s2)"
      using assms(1,3) 2 by (auto simp: finalizeTenant_def Let_def)
    with es show ?thesis by (intro exI [of _ es]) (simp add: gateway_deletes_def Let_def)
  next
    case None
    then have "s' = s4 \<and> (r = Inr 0 \<longleftrightarrow> err_of u = None)"
      using assms(1,3) 2 4 by (auto simp: finalizeTenant_def Let_def err_of_def split: sum.splits)
    then show ?thesis
      using es None calls_api [OF 4]
      by (intro exI [of _ es]) (simp add: gateway_deletes_def Let_def tolerated_iff)
  qed
qed

section \<open>A whole reconciliation\<close>

lemma finalizeTenant_quiet:
  assumes "finalizeTenant kc cl tenant s = (r, s')"
  shows "\<exists>cs. calls (trace s') = calls (trace s) @ cs \<and> no_create cs \<and> no_status cs"
proof -
  have del: "\<exists>es. calls (trace s2) = calls (trace s1) @ gateway_deletes ns es"
    if "deleteA2AGatewayResources kc ns s1 = (x, s2)" for ns s1 x s2
  proof (cases "ns = []")
    case True
    with that show ?thesis by (intro exI [of _ "[]"]) (simp add: deleteA2AGatewayResources_def gateway_deletes_def)
  next
    case False
    then show ?thesis using deleteA2AGatewayResources_run [OF that] by blast
  qed
  have quiet: "no_create (gateway_deletes ns es)" "no_status (gateway_deletes ns es)" for ns es
    by (auto simp: gateway_deletes_def no_create_def no_status_def dest!: set_zip_leftD)
  have nc: "no_create (cs @ [(KUpdate ob, e)]) \<longleftrightarrow> no_create cs"
    "no_status (cs @ [(KUpdate ob, e)]) \<longleftrightarrow> no_status cs" for cs ob e
    by (auto simp: no_create_def no_status_def)
  let ?s1 = "emit (LogInfo ''tenant marked for deletion, cleaning up gateway resources'') s"
  obtain x s2 where 2: "deleteA2AGatewayResources kc (tsp_Namespace (kt_Spec tenant)) ?s1 = (x, s2)"
    by fastforce
  obtain es where es: "calls (trace s2) = calls (trace s) @ gateway_deletes (tsp_Namespace (kt_Spec tenant)) es"
    using del [OF 2] by auto
  consider "calls (trace s') = calls (trace s)" | "calls (trace s') = calls (trace s2)"
    | ob e where "calls (trace s') = calls (trace s2) @ [(KUpdate ob, e)]"
    using assms 2
    by (auto simp: finalizeTenant_def Let_def split: if_splits option.splits prod.splits sum.splits
        dest!: calls_api)
  then show ?thesis
  proof cases
    case 1
    then show ?thesis by (intro exI [of _ "[]"]) (simp add: no_create_def no_status_def)
  next
    case 2
    then show ?thesis using es quiet by metis
  next
    case 3
    then show ?thesis using es quiet nc by (metis append_assoc)
  qed
qed

text \<open>
  The log of a reconciliation: it reads the tenant; then it either creates nothing and
  writes no status, or it has the finalizer in place, freshly added or found, and provisions.
\<close>

definition provisioning_log :: "ctrl_lib \<Rightarrow> KTenant \<Rightarrow> klog \<Rightarrow> bool" where
  "provisioning_log cl tenant cs \<longleftrightarrow>
     (\<exists>t u cs' cs1 e.
        cs = u @ cs'
        \<and> (u = [] \<and> cl_ContainsFinalizer cl (kt_Meta tenant) tenantFinalizer
           \<or> u = [(KUpdate (OTenant (tenant\<lparr>kt_Meta :=
                cl_AddFinalizer cl (kt_Meta tenant) tenantFinalizer\<rparr>)), None)])
        \<and> (\<forall>p. guarded p cs')
        \<and> (no_status cs' \<or>
           cs' = cs1 @ [(KStatusUpdate (OTenant (t\<lparr>kt_Status := (kt_Status t)\<lparr>tst_Ready := True\<rparr>\<rparr>)), e)]
           \<and> no_status cs1 \<and> ready_log t cs1))"

lemma add_finalizer_run:
  assumes "add_finalizer kc cl tenant s = (y, s')"
  obtains u where "calls (trace s') = calls (trace s) @ u"
    and "case y of Inl e \<Rightarrow> no_create u \<and> no_status u
      | Inr t \<Rightarrow> u = [] \<and> cl_ContainsFinalizer cl (kt_Meta tenant) tenantFinalizer
          \<or> u = [(KUpdate (OTenant (tenant\<lparr>kt_Meta := cl_AddFinalizer cl (kt_Meta tenant) tenantFinalizer\<rparr>)), None)]"
  using assms
  by (auto simp: add_finalizer_def Let_def no_create_def no_status_def err_of_def
      split: if_splits prod.splits sum.splits dest!: calls_api)

lemma reconcile_tenant_run:
  assumes "reconcile_tenant kc os cl req s = (r, s')"
  shows "\<exists>ge cs. calls (trace s') = calls (trace s) @ (KGet TenantK req, ge) # cs \<and>
    (no_create cs \<and> no_status cs \<or>
     (\<exists>tenant w. kc_GetTenant kc req (world s) = (Inr tenant, w)
        \<and> IsZero (om_DeletionTimestamp (kt_Meta tenant)) \<and> provisioning_log cl tenant cs))"
proof -
  obtain x s1 where 1: "k_GetTenant kc req s = (x, s1)" by fastforce
  note c1 = calls_api [OF 1]
  have nil: "no_create []" "no_status []" by (simp_all add: no_create_def no_status_def)
  show ?thesis
  proof (cases x)
    case (Inl err)
    with assms 1 have "s' = s1" by (auto simp: reconcile_tenant_def split: option.splits)
    with c1 nil show ?thesis by auto
  next
    case (Inr tenant)
    then obtain w where get: "kc_GetTenant kc req (world s) = (Inr tenant, w)"
      using 1 by (auto simp: api_def split: prod.splits)
    show ?thesis
    proof (cases "IsZero (om_DeletionTimestamp (kt_Meta tenant))")
      case False
      with assms 1 Inr have "finalizeTenant kc cl tenant s1 = (r, s')" by (simp add: reconcile_tenant_def)
      from finalizeTenant_quiet [OF this] c1 show ?thesis by auto
    next
      case zero: True
      let ?t = "tenant\<lparr>kt_Meta := cl_AddFinalizer cl (kt_Meta tenant) tenantFinalizer\<rparr>"
      obtain y s2 where 2: "add_finalizer kc cl tenant s1 = (y, s2)" by fastforce
      obtain u where u: "calls (trace s2) = calls (trace s1) @ u"
        "case y of Inl e \<Rightarrow> no_create u \<and> no_status u
         | Inr t \<Rightarrow> u = [] \<and> cl_ContainsFinalizer cl (kt_Meta tenant) tenantFinalizer
             \<or> u = [(KUpdate (OTenant ?t), None)]" by (rule add_finalizer_run [OF 2])
      show ?thesis
      proof (cases y)
        case (Inl e)
        with assms 1 2 Inr zero have "s' = s2" by (simp add: reconcile_tenant_def)
        with u c1 Inl show ?thesis by auto
      next
        case y: (Inr t)
        with assms 1 2 Inr zero have "provision kc os cl t s2 = (r, s')" by (simp add: reconcile_tenant_def)
        from provision_run [OF this] obtain cs' where cs': "calls (trace s') = calls (trace s2) @ cs'"
          "\<forall>p. guarded p cs'"
          "no_status cs' \<or> (\<exists>cs1 e. cs' = cs1 @ [(KStatusUpdate (OTenant (t\<lparr>kt_Status := (kt_Status t)\<lparr>tst_Ready := True\<rparr>\<rparr>)), e)]
           \<and> no_status cs1 \<and> ready_log t cs1)" by blast
        have "provisioning_log cl tenant (u @ cs')"
          unfolding provisioning_log_def using u(2) [unfolded y sum.case] cs'(2,3) by blast
        moreover have "calls (trace s') = calls (trace s) @ (KGet TenantK req, err_of x) # (u @ cs')"
          using c1 u(1) cs'(1) by simp
        ultimately show ?thesis using get zero by blast
      qed
    qed
  qed
qed

lemma no_create_guarded: "no_create cs \<Longrightarrow> guarded p cs"
  by (induction p cs rule: guarded.induct) (auto simp: no_create_def)

text \<open>
  C21. The tenant reconciler creates nothing that exists: in every reconciliation, whatever
  the server answers, each create request comes immediately after a get of the same kind,
  namespace and name that reported the object missing.
\<close>

theorem tenant_creates_only_missing:
  assumes "reconcile_tenant kc os cl req s = (r, s')"
  shows "\<exists>cs. calls (trace s') = calls (trace s) @ cs \<and>
    (\<forall>xs ob e ys. cs = xs @ (KCreate ob, e) # ys \<longrightarrow>
      (\<exists>zs err. xs = zs @ [(KGet (fst (obj_key ob)) (snd (obj_key ob)), Some err)] \<and> IsNotFound err))"
proof -
  obtain ge cs where cs: "calls (trace s') = calls (trace s) @ (KGet TenantK req, ge) # cs"
    and alt: "no_create cs \<and> no_status cs \<or> (\<exists>tenant w. kc_GetTenant kc req (world s) = (Inr tenant, w)
        \<and> IsZero (om_DeletionTimestamp (kt_Meta tenant)) \<and> provisioning_log cl tenant cs)"
    using reconcile_tenant_run [OF assms] by blast
  from alt have "guarded (Some (KGet TenantK req, ge)) cs"
    by (auto simp: provisioning_log_def guarded_append intro: no_create_guarded)
  then have g: "guarded None ((KGet TenantK req, ge) # cs)" by simp
  have "\<exists>zs err. xs = zs @ [(KGet (fst (obj_key ob)) (snd (obj_key ob)), Some err)] \<and> IsNotFound err"
    if "(KGet TenantK req, ge) # cs = xs @ (KCreate ob, e) # ys" for xs ob e ys
  proof -
    have "guarded None (xs @ (KCreate ob, e) # ys)" using g that by simp
    then show ?thesis by (cases xs rule: rev_cases) (auto simp: guarded_append guarded_Cons)
  qed
  with cs show ?thesis by blast
qed

text \<open>A log with one status update, at its end\<close>

lemma no_status_last:
  assumes "no_status pre" and "pre @ [(KStatusUpdate (OTenant t'), e')] = xs @ (KStatusUpdate (OTenant t), e) # ys"
  shows "ys = [] \<and> xs = pre \<and> t = t'"
proof (cases ys rule: rev_cases)
  case (snoc ys' y)
  with assms(2) have "pre = xs @ (KStatusUpdate (OTenant t), e) # ys'" by simp
  then have "(KStatusUpdate (OTenant t), e) \<in> set pre" by (metis in_set_conv_decomp)
  with assms(1) show ?thesis unfolding no_status_def by (metis fst_conv)
qed (use assms(2) in simp)

text \<open>
  C20. A tenant is reported Ready only after it has been provisioned: when a reconciliation
  writes a tenant status, it is the last request, the status is Ready, and in the same
  reconciliation the tenant's namespace was found or created, and for a dedicated A2A bus
  the gateway's secret, deployment and service too. This is all that Ready stands for: a
  dedicated bus of another type is asked for in the same way (\<open>tenant_types.go\<close>), is not created,
  and the tenant is ready without it (\<open>dedicated_bus_not_created\<close>).
\<close>

theorem tenant_ready_after_provisioning:
  assumes "reconcile_tenant kc os cl req s = (r, s')"
  shows "\<exists>cs. calls (trace s') = calls (trace s) @ cs \<and>
    (\<forall>xs t e ys. cs = xs @ (KStatusUpdate (OTenant t), e) # ys \<longrightarrow>
      ys = [] \<and> tst_Ready (kt_Status t)
      \<and> provisioned xs (NamespaceK, ([], tsp_Namespace (kt_Spec t)))
      \<and> (tb_Type (tsp_MessageBus (kt_Spec t)) = ''a2a'' \<and> tb_Dedicated (tsp_MessageBus (kt_Spec t)) \<longrightarrow>
          provisioned xs (SecretK, (tsp_Namespace (kt_Spec t), ''muto-a2a-token''))
          \<and> provisioned xs (DeploymentK, (tsp_Namespace (kt_Spec t), ''a2a-gateway''))
          \<and> provisioned xs (ServiceK, (tsp_Namespace (kt_Spec t), ''a2a-gateway''))))"
proof -
  obtain ge cs where cs: "calls (trace s') = calls (trace s) @ (KGet TenantK req, ge) # cs"
    and alt: "no_status cs \<or> (\<exists>tenant. provisioning_log cl tenant cs)"
    using reconcile_tenant_run [OF assms] by blast
  let ?all = "(KGet TenantK req, ge) # cs"
  have goal: "ys = [] \<and> tst_Ready (kt_Status t) \<and> ready_log t xs"
    if eq: "?all = xs @ (KStatusUpdate (OTenant t), e) # ys" for xs t e ys
  proof -
    have "\<not> no_status ?all" unfolding eq by (auto simp: no_status_def)
    then have "\<not> no_status cs" by (auto simp: no_status_def)
    with alt obtain tenant where "provisioning_log cl tenant cs" by blast
    then obtain t0 u cs'' cs1 e0 where all: "cs = u @ cs''"
      and u0: "u = [] \<or> (\<exists>ob e. u = [(KUpdate ob, e)])"
      and last: "no_status cs'' \<or> cs'' = cs1
        @ [(KStatusUpdate (OTenant (t0\<lparr>kt_Status := (kt_Status t0)\<lparr>tst_Ready := True\<rparr>\<rparr>)), e0)]
        \<and> no_status cs1 \<and> ready_log t0 cs1"
      unfolding provisioning_log_def by blast
    from u0 have u: "no_status u" by (auto simp: no_status_def)
    with \<open>\<not> no_status cs\<close> all last have last: "cs'' = cs1
        @ [(KStatusUpdate (OTenant (t0\<lparr>kt_Status := (kt_Status t0)\<lparr>tst_Ready := True\<rparr>\<rparr>)), e0)]"
      and cs1: "no_status cs1" and ready: "ready_log t0 cs1" by auto
    let ?pre = "(KGet TenantK req, ge) # u @ cs1"
    let ?t = "t0\<lparr>kt_Status := (kt_Status t0)\<lparr>tst_Ready := True\<rparr>\<rparr>"
    have pre: "no_status ?pre" using u cs1 by (auto simp: no_status_def)
    have "?pre @ [(KStatusUpdate (OTenant ?t), e0)] = xs @ (KStatusUpdate (OTenant t), e) # ys"
      using eq all last by simp
    from no_status_last [OF pre this] ready show ?thesis
      by (auto simp: ready_log_def gateway_ready_def provisioned_def)
  qed
  show ?thesis
    by (intro exI [of _ ?all] conjI cs allI impI)
       (use goal in \<open>auto simp: ready_log_def gateway_ready_def BusTypeA2A_def\<close>)
qed

lemma dedicated_bus_not_created:
  assumes "tb_Type (tsp_MessageBus (kt_Spec tenant)) \<noteq> ''a2a''"
  shows "provision kc os cl tenant s =
    (case ensureNamespace kc tenant s of
       (Some err, s1) \<Rightarrow> (Inl (Wrapped ''ensure namespace: '' err), s1)
     | (None, s1) \<Rightarrow>
         (case k_StatusUpdateTenant kc (tenant\<lparr>kt_Status := (kt_Status tenant)\<lparr>tst_Ready := True\<rparr>\<rparr>) s1 of
            (Inl err, s2) \<Rightarrow> (Inl err, s2) | (Inr _, s2) \<Rightarrow> (Inr 0, s2)))"
  using assms by (simp add: provision_def BusTypeA2A_def split: prod.split option.split)

text \<open>
  Nothing is created for a tenant that does not carry the finalizer: when a
  reconciliation creates an object, the tenant it read is not being deleted, and it has the
  finalizer, or the update that adds it was accepted before the first create.
\<close>

theorem finalizer_before_creates:
  assumes "reconcile_tenant kc os cl req s = (r, s')"
    and "calls (trace s') = calls (trace s) @ cs" and "(KCreate ob, e) \<in> set cs"
  shows "\<exists>tenant w. kc_GetTenant kc req (world s) = (Inr tenant, w)
    \<and> IsZero (om_DeletionTimestamp (kt_Meta tenant))
    \<and> (cl_ContainsFinalizer cl (kt_Meta tenant) tenantFinalizer
       \<or> (\<exists>ge ys. cs = (KGet TenantK req, ge)
            # (KUpdate (OTenant (tenant\<lparr>kt_Meta := cl_AddFinalizer cl (kt_Meta tenant) tenantFinalizer\<rparr>)), None)
            # ys))"
proof -
  obtain ge cs' where cs': "calls (trace s') = calls (trace s) @ (KGet TenantK req, ge) # cs'"
    and alt: "no_create cs' \<or> (\<exists>tenant w. kc_GetTenant kc req (world s) = (Inr tenant, w)
        \<and> IsZero (om_DeletionTimestamp (kt_Meta tenant)) \<and> provisioning_log cl tenant cs')"
    using reconcile_tenant_run [OF assms(1)] by blast
  have cs: "cs = (KGet TenantK req, ge) # cs'" using cs' assms(2) by simp
  then have "\<not> no_create cs'" using assms(3) by (force simp: no_create_def)
  with alt show ?thesis unfolding cs provisioning_log_def by auto
qed

section \<open>The contract of a reconciler\<close>

lemma metric_step_ensure:
  assumes "\<And>s r s1. get s = (r, s1) \<Longrightarrow> metric_step s s1"
    and "\<And>s e s1. create s = (e, s1) \<Longrightarrow> metric_step s s1"
    and "ensure get create s = (e, s')"
  shows "metric_step s s'"
proof -
  obtain r s1 where 1: "get s = (r, s1)" by fastforce
  have "metric_step s1 s'"
    using assms(2,3) 1 by (auto simp: ensure_def split: sum.splits if_splits)
  with assms(1) [OF 1] show ?thesis by (rule metric_step_trans)
qed

lemma metric_step_generateToken: "generateToken os s = (r, s') \<Longrightarrow> metric_step s s'"
  by (auto simp: generateToken_def Let_def metric_step_def mirrored_def split: prod.splits sum.splits)

lemma metric_step_ensures:
  "ensureNamespace kc tenant s = (e, s') \<Longrightarrow> metric_step s s'"
  "ensureA2ASecret kc os ns owner s = (e, s') \<Longrightarrow> metric_step s s'"
  "ensureA2ADeployment kc os ns owner s = (e, s') \<Longrightarrow> metric_step s s'"
  "ensureA2AService kc ns owner s = (e, s') \<Longrightarrow> metric_step s s'"
  unfolding ensureNamespace_def ensureA2ASecret_def ensureA2ADeployment_def ensureA2AService_def
  by (erule metric_step_ensure [rotated 2, OF _ metric_step_api];
      auto simp: Let_def dest!: metric_steps metric_step_generateToken split: prod.splits sum.splits if_splits
        intro: metric_step_trans)+

lemma metric_step_gateway: "reconcileA2AGateway kc os cl tenant s = (e, s') \<Longrightarrow> metric_step s s'"
  unfolding reconcileA2AGateway_def Let_def
  by (auto split: prod.splits option.splits dest!: metric_step_ensures) (meson metric_step_trans)+

lemma metric_step_delete_logged: "delete_logged kc ob f m s = (e, s') \<Longrightarrow> metric_step s s'"
  unfolding delete_logged_def
  by (auto split: prod.splits option.splits if_splits dest!: metric_steps)

lemma metric_step_deletes: "deleteA2AGatewayResources kc ns s = (e, s') \<Longrightarrow> metric_step s s'"
  unfolding deleteA2AGatewayResources_def
  by (auto split: if_splits prod.splits option.splits dest!: metric_step_delete_logged)
     (meson metric_step_trans)+

lemma metric_step_provision: "provision kc os cl tenant s = (r, s') \<Longrightarrow> metric_step s s'"
  unfolding provision_def
  by (auto split: if_splits prod.splits option.splits sum.splits
      dest!: metric_steps metric_step_ensures(1) metric_step_gateway)
     (meson metric_step_trans)+

lemma metric_step_add_finalizer: "add_finalizer kc cl tenant s = (r, s') \<Longrightarrow> metric_step s s'"
  unfolding add_finalizer_def Let_def
  by (auto split: if_splits prod.splits sum.splits dest!: metric_steps)
     (meson metric_step_trans metric_step_log)+

lemma metric_step_finalize: "finalizeTenant kc cl tenant s = (r, s') \<Longrightarrow> metric_step s s'"
  unfolding finalizeTenant_def Let_def
  by (auto split: if_splits prod.splits option.splits sum.splits
      dest!: metric_steps metric_step_deletes)
     (meson metric_step_trans metric_step_log)+

lemma reconcile_tenant_steps:
  assumes "reconcile_tenant kc os cl req s = (r, s')"
  obtains e s1 where "k_GetTenant kc req s = (e, s1)" and "metric_step s1 s'"
proof -
  obtain x s1 where 1: "k_GetTenant kc req s = (x, s1)" by fastforce
  have "metric_step s1 s'"
    using assms 1 unfolding reconcile_tenant_def
    by (auto split: sum.splits option.splits prod.splits if_splits
        dest!: metric_step_finalize metric_step_add_finalizer metric_step_provision)
       (meson metric_step_trans)+
  with that 1 show ?thesis by blast
qed

interpretation tenant: reconciler "''tenant''" TenantK "TenantReconcile kc os cl" for kc os cl
  unfolding TenantReconcile_def [abs_def]
proof (rule reconciler_ObserveReconcile)
  fix req s r s'
  assume "reconcile_tenant kc os cl req s = (r, s')"
  then obtain e s1 where 1: "k_GetTenant kc req s = (e, s1)" and 2: "metric_step s1 s'"
    by (rule reconcile_tenant_steps)
  then show "metric_step s s'" by (meson metric_step_api metric_step_trans)
  show "\<exists>e cs. calls (trace s') = calls (trace s) @ (KGet TenantK req, e) # cs"
    using metric_step_calls [OF 2] api_trace [OF 1] by fastforce
qed

section \<open>Tokens\<close>

lemma hex_digits: "list_all (\<lambda>d. hex_digit d \<in> set ''0123456789abcdef'') [0..<16]"
  by code_simp

lemma hex_digits_distinct: "distinct (map hex_digit [0..<16])"
  by code_simp

lemma hex_digit_in: "d < 16 \<Longrightarrow> hex_digit d \<in> set ''0123456789abcdef''"
  using hex_digits by (simp add: list_all_iff)

lemma hex_digit_inject: "d < 16 \<Longrightarrow> e < 16 \<Longrightarrow> hex_digit d = hex_digit e \<Longrightarrow> d = e"
  using hex_digits_distinct by (simp add: distinct_map inj_on_def)

lemma nibbles: "unat (b :: 8 word) div 16 < 16" "unat b mod 16 < 16"
proof -
  have "unat b < 2 ^ LENGTH(8)" by (rule unsigned_less)
  then have "unat b < 256" by simp
  then show "unat b div 16 < 16" "unat b mod 16 < 16" by simp_all
qed

lemma hex_byte_inject:
  assumes "hex_byte b = hex_byte c" shows "b = c"
proof -
  have "unat b div 16 = unat c div 16" "unat b mod 16 = unat c mod 16"
    using assms hex_digit_inject [OF nibbles(1) nibbles(1)] hex_digit_inject [OF nibbles(2) nibbles(2)]
    by (simp_all add: hex_byte_def)
  then have "unat b = unat c" by (metis div_mult_mod_eq)
  then show ?thesis by (simp only: word_unat_eq_iff)
qed

lemma length_hex_encode [simp]: "length (hex_encode bs) = 2 * length bs"
  by (induction bs) (simp_all add: hex_encode_def hex_byte_def)

lemma hex_encode_digits: "x \<in> set (hex_encode bs) \<Longrightarrow> \<exists>d<16. x = hex_digit d"
  by (auto simp: hex_encode_def hex_byte_def) (use nibbles in blast)+

lemma set_hex_encode: "set (hex_encode bs) \<subseteq> set ''0123456789abcdef''"
proof
  fix x
  assume "x \<in> set (hex_encode bs)"
  then obtain d where "d < 16" and "x = hex_digit d" using hex_encode_digits by blast
  then show "x \<in> set ''0123456789abcdef''" by (simp only: hex_digit_in)
qed

lemma hex_encode_inject: "hex_encode bs = hex_encode cs \<Longrightarrow> bs = cs"
proof (induction bs arbitrary: cs)
  case Nil
  then show ?case by (cases cs) (simp_all add: hex_encode_def hex_byte_def)
next
  case (Cons b bs)
  then obtain c cs' where cs: "cs = c # cs'"
    by (cases cs) (simp_all add: hex_encode_def hex_byte_def)
  have "hex_byte b = hex_byte c \<and> hex_encode bs = hex_encode cs'"
    using Cons.prems cs by (simp add: hex_encode_def hex_byte_def)
  then show ?case using Cons.IH cs hex_byte_inject by blast
qed

text \<open>
  A gateway token spells 32 random bytes in 64 lower-case hexadecimal digits and loses
  none of them: the bytes are determined by the token. Without randomness there is no token.
\<close>

theorem generateToken_faithful:
  assumes "os_rand os 32 (world s) = (r, w)" and "\<And>b. r = Inr b \<Longrightarrow> length b = 32"
  shows "case r of
      Inl err \<Rightarrow> generateToken os s = (Inl err, s\<lparr>world := w\<rparr>)
    | Inr b \<Rightarrow> \<exists>token. generateToken os s = (Inr token, s\<lparr>world := w\<rparr>) \<and> length token = 64
        \<and> set token \<subseteq> set ''0123456789abcdef'' \<and> (\<forall>b'. hex_encode b' = token \<longrightarrow> b' = b)"
  using assms set_hex_encode hex_encode_inject
  by (auto simp: generateToken_def Let_def simp del: set_simps split: sum.splits)

theorem generateToken_faithful_witness:
  "\<exists>token. generateToken demo_os demo_state = (Inr token, demo_state) \<and> length token = 64
     \<and> set token \<subseteq> set ''0123456789abcdef''"
proof -
  have "os_rand demo_os 32 (world demo_state) = (Inr (replicate 32 0), ())"
    by (simp add: demo_os_def demo_state_def)
  from generateToken_faithful [OF this] show ?thesis by (auto simp: demo_state_def simp del: set_simps)
qed

section \<open>The properties on a concrete tenant\<close>

text \<open>A tenant with a dedicated A2A gateway, on a cluster that has nothing but the tenant\<close>

definition demo_a2a :: "instant option \<Rightarrow> string list \<Rightarrow> KTenant" where
  "demo_a2a del fins = \<lparr>kt_Meta = zero_ObjectMeta\<lparr>om_Name := ''acme'', om_Finalizers := fins,
       om_DeletionTimestamp := del\<rparr>,
     kt_Spec = \<lparr>tsp_Namespace = ''acme'', tsp_IsolationTier = ''dedicated'',
                tsp_MessageBus = \<lparr>tb_Type = ''a2a'', tb_Dedicated = True\<rparr>\<rparr>,
     kt_Status = \<lparr>tst_Ready = False\<rparr>\<rparr>"

definition tenant_cluster :: "KTenant \<Rightarrow> unit kclient" where
  "tenant_cluster t = bare_client
     \<lparr>kc_GetTenant := \<lambda>k w. (Inr t, w), kc_Create := \<lambda>ob w. (None, w), kc_Delete := \<lambda>ob w. (None, w),
      kc_UpdateTenant := \<lambda>t w. (Inr t, w), kc_StatusUpdateTenant := \<lambda>t w. (Inr t, w)\<rparr>"

definition image_os :: "unit os" where
  "image_os = demo_os\<lparr>os_getenv := \<lambda>k w. ''gateway:1''\<rparr>"

lemmas tenant_demo = tenant_cluster_def demo_a2a_def image_os_def demo_os_def demo_lib_def
  demo_state_def bare_client_def no_object_def

lemma demo_reconcile_tenant:
  "\<exists>s' cs t e. reconcile_tenant (tenant_cluster (demo_a2a None [])) image_os demo_lib ([], ''acme'') demo_state = (Inr 0, s')
     \<and> calls (trace s') = calls (trace demo_state) @ cs @ [(KStatusUpdate (OTenant t), e)]
     \<and> (\<exists>ob. cs ! 3 = (KCreate ob, None)) \<and> length cs = 10"
  by (simp add: reconcile_tenant_def tenant_demo api_def api_err_def err_of_def add_finalizer_def
      IsZero_def provision_def ensureNamespace_def ensure_def reconcileA2AGateway_def ensureA2ASecret_def
      ensureA2ADeployment_def ensureA2AService_def generateToken_def getenv_def BusTypeA2A_def
      zero_ObjectMeta_def Let_def numeral_3_eq_3)

theorem finalizer_removed_after_cleanup_witness:
  "\<exists>es e. length es = 3 \<and> calls (trace (snd (finalizeTenant (tenant_cluster (demo_a2a (Some 5) [tenantFinalizer])) demo_lib
        (demo_a2a (Some 5) [tenantFinalizer]) demo_state)))
     = zip (map KDelete [gateway_deployment ''acme'', gateway_service ''acme'', gateway_secret ''acme'']) es
       @ [(KUpdate (OTenant (demo_a2a (Some 5) [])), e)]"
proof -
  let ?t = "demo_a2a (Some 5) [tenantFinalizer]"
  let ?f = "finalizeTenant (tenant_cluster ?t) demo_lib ?t demo_state"
  have fin: "cl_ContainsFinalizer demo_lib (kt_Meta ?t) tenantFinalizer"
    and ns: "tsp_Namespace (kt_Spec ?t) \<noteq> []" "tsp_Namespace (kt_Spec ?t) = ''acme''"
    and rm: "?t\<lparr>kt_Meta := cl_RemoveFinalizer demo_lib (kt_Meta ?t) tenantFinalizer\<rparr> = demo_a2a (Some 5) []"
    by (simp_all add: demo_lib_def demo_a2a_def)
  have "fst ?f = Inr 0"
    by (simp add: finalizeTenant_def fin ns deleteA2AGatewayResources_def delete_logged_def tenant_cluster_def
        api_def api_err_def Let_def)
  with finalizer_removed_after_cleanup [OF fin ns(1), of "tenant_cluster ?t" demo_state "fst ?f" "snd ?f"]
  show ?thesis by (auto simp: rm ns(2) demo_state_def Let_def)
qed

theorem tenant_creates_only_missing_witness:
  "\<exists>s' xs ob ys zs err. reconcile_tenant (tenant_cluster (demo_a2a None [])) image_os demo_lib ([], ''acme'') demo_state = (Inr 0, s')
     \<and> calls (trace s') = calls (trace demo_state) @ xs @ (KCreate ob, None) # ys
     \<and> xs = zs @ [(KGet (fst (obj_key ob)) (snd (obj_key ob)), Some err)] \<and> IsNotFound err"
proof -
  obtain s' cs t e ob where run: "reconcile_tenant (tenant_cluster (demo_a2a None [])) image_os demo_lib
        ([], ''acme'') demo_state = (Inr 0, s')"
    and cs: "calls (trace s') = calls (trace demo_state) @ cs @ [(KStatusUpdate (OTenant t), e)]"
    and ob: "cs ! 3 = (KCreate ob, None)" "length cs = 10"
    using demo_reconcile_tenant by blast
  have split: "cs @ [(KStatusUpdate (OTenant t), e)]
      = take 3 cs @ (KCreate ob, None) # (drop 4 cs @ [(KStatusUpdate (OTenant t), e)])"
    using id_take_nth_drop [of 3 cs] ob by simp
  from tenant_creates_only_missing [OF run] obtain cs0 where
    c0: "calls (trace s') = calls (trace demo_state) @ cs0"
    and all: "\<forall>xs ob e ys. cs0 = xs @ (KCreate ob, e) # ys \<longrightarrow>
      (\<exists>zs err. xs = zs @ [(KGet (fst (obj_key ob)) (snd (obj_key ob)), Some err)] \<and> IsNotFound err)"
    by blast
  have "cs0 = take 3 cs @ (KCreate ob, None) # (drop 4 cs @ [(KStatusUpdate (OTenant t), e)])"
    using c0 cs split by simp
  with all obtain zs err where
    "take 3 cs = zs @ [(KGet (fst (obj_key ob)) (snd (obj_key ob)), Some err)]" "IsNotFound err"
    by blast
  with run c0 \<open>cs0 = _\<close> show ?thesis by blast
qed

theorem tenant_ready_after_provisioning_witness:
  "\<exists>s' xs t e. reconcile_tenant (tenant_cluster (demo_a2a None [])) image_os demo_lib ([], ''acme'') demo_state = (Inr 0, s')
     \<and> calls (trace s') = calls (trace demo_state) @ xs @ [(KStatusUpdate (OTenant t), e)]
     \<and> tst_Ready (kt_Status t) \<and> provisioned xs (NamespaceK, ([], tsp_Namespace (kt_Spec t)))"
proof -
  obtain s' cs t e where run: "reconcile_tenant (tenant_cluster (demo_a2a None [])) image_os demo_lib
        ([], ''acme'') demo_state = (Inr 0, s')"
    and cs: "calls (trace s') = calls (trace demo_state) @ cs @ [(KStatusUpdate (OTenant t), e)]"
    using demo_reconcile_tenant by blast
  from tenant_ready_after_provisioning [OF run] cs
  have "tst_Ready (kt_Status t) \<and> provisioned cs (NamespaceK, ([], tsp_Namespace (kt_Spec t)))" by auto
  with run cs show ?thesis by blast
qed

theorem finalizer_before_creates_witness:
  "\<exists>tenant w. kc_GetTenant (tenant_cluster (demo_a2a None [])) ([], ''acme'') (world demo_state) = (Inr tenant, w)
     \<and> IsZero (om_DeletionTimestamp (kt_Meta tenant))"
proof -
  obtain s' cs t e ob where run: "reconcile_tenant (tenant_cluster (demo_a2a None [])) image_os demo_lib
        ([], ''acme'') demo_state = (Inr 0, s')"
    and cs: "calls (trace s') = calls (trace demo_state) @ (cs @ [(KStatusUpdate (OTenant t), e)])"
    and ob: "cs ! 3 = (KCreate ob, None)" "length cs = 10"
    using demo_reconcile_tenant by auto
  have "(KCreate ob, None) \<in> set (cs @ [(KStatusUpdate (OTenant t), e)])"
    using ob nth_mem [of 3 cs] by simp
  from finalizer_before_creates [OF run cs this] show ?thesis by blast
qed

end
