(* ===== verification/Tenant_Convergence.thy ===== *)
theory Tenant_Convergence
  imports Tenant_Lifecycle
begin

text \<open>
  The tenant reconciler against a cluster that stores what it is sent: the tenant and the objects
  made for it, seen as a set of kinds and keys. One reconciliation takes the cluster to the state
  the tenant asks for, or cleans up a tenant that is being deleted; a further one changes nothing.
  The cluster is reached through a client that serves the kinds the tenant needs: the one the tests of
  the repository set up serves all of them, the one of the operator all but deployments (\<open>Operator_Tenants\<close>).
\<close>

section \<open>A cluster that stores tenants and their objects\<close>

text \<open>A get finds the objects that exist, and nothing else.\<close>

definition reads ::
    "(key \<Rightarrow> 'w \<Rightarrow> 'a res \<times> 'w) \<Rightarrow> kkind \<Rightarrow> ('w \<Rightarrow> (kkind \<times> key) set) \<Rightarrow> bool" where
  "reads get kd objects \<longleftrightarrow>
     (\<forall>k w. if (kd, k) \<in> objects w then \<exists>x. get k w = (Inr x, w)
            else \<exists>e. get k w = (Inl e, w) \<and> IsNotFound e)"

text \<open>
  A create adds an object that is missing, has a name, and lies in a namespace that exists or in none;
  a delete removes an object or says it is missing. \<open>kinds\<close> are the kinds the client serves.
\<close>

definition writes_objects ::
    "kkind set \<Rightarrow> 'w kclient \<Rightarrow> ('w \<Rightarrow> (kkind \<times> key) set) \<Rightarrow> ('w \<Rightarrow> KTenant option) \<Rightarrow> bool" where
  "writes_objects kinds kc objects tenant \<longleftrightarrow>
     (\<forall>ob kd ns nm w. obj_key ob = (kd, ns, nm) \<and> kd \<in> kinds \<and> nm \<noteq> [] \<and> (kd, ns, nm) \<notin> objects w
        \<and> (kd = NamespaceK \<or> (NamespaceK, ([], ns)) \<in> objects w) \<longrightarrow>
        (\<exists>w'. kc_Create kc ob w = (None, w') \<and> objects w' = insert (kd, ns, nm) (objects w) \<and> tenant w' = tenant w))
   \<and> (\<forall>ob w. fst (obj_key ob) \<in> kinds \<longrightarrow>
        (\<exists>e w'. kc_Delete kc ob w = (e, w') \<and> tolerated KNotFound e \<and> objects w' = objects w - {obj_key ob}
           \<and> tenant w' = tenant w))"

definition stores_objects ::
    "kkind set \<Rightarrow> 'w kclient \<Rightarrow> ('w \<Rightarrow> (kkind \<times> key) set) \<Rightarrow> ('w \<Rightarrow> KTenant option) \<Rightarrow> bool" where
  "stores_objects kinds kc objects tenant \<longleftrightarrow>
     (NamespaceK \<in> kinds \<longrightarrow> reads (kc_GetNamespace kc) NamespaceK objects)
   \<and> (SecretK \<in> kinds \<longrightarrow> reads (kc_GetSecret kc) SecretK objects)
   \<and> (DeploymentK \<in> kinds \<longrightarrow> reads (kc_GetDeployment kc) DeploymentK objects)
   \<and> (ServiceK \<in> kinds \<longrightarrow> reads (kc_GetService kc) ServiceK objects)
   \<and> writes_objects kinds kc objects tenant"

text \<open>What the server keeps of a tenant it is sent\<close>

definition same_tenant :: "KTenant \<Rightarrow> KTenant \<Rightarrow> bool" where
  "same_tenant t t' \<longleftrightarrow> kt_Spec t' = kt_Spec t \<and> om_Finalizers (kt_Meta t') = om_Finalizers (kt_Meta t)
     \<and> om_DeletionTimestamp (kt_Meta t') = om_DeletionTimestamp (kt_Meta t)"

abbreviation finalizers_set :: "KTenant \<Rightarrow> string list \<Rightarrow> KTenant" where
  "finalizers_set t fs \<equiv> t\<lparr>kt_Meta := (kt_Meta t)\<lparr>om_Finalizers := fs\<rparr>\<rparr>"

text \<open>
  The tenant with key \<open>k\<close> is read as it is stored. An update of the stored tenant with other finalizers is
  kept, but the server lets go a tenant that is being deleted when the last one is removed; an update of
  the stored tenant with another status is kept. Nothing is asked of tenants that are not stored, and
  nothing of those with another key.
\<close>

definition stores_tenant ::
    "'w kclient \<Rightarrow> key \<Rightarrow> ('w \<Rightarrow> (kkind \<times> key) set) \<Rightarrow> ('w \<Rightarrow> KTenant option) \<Rightarrow> bool" where
  "stores_tenant kc k objects tenant \<longleftrightarrow>
     (\<forall>w. case tenant w of
         Some t \<Rightarrow> kc_GetTenant kc k w = (Inr t, w)
       | None \<Rightarrow> \<exists>e. kc_GetTenant kc k w = (Inl e, w) \<and> IsNotFound e)
   \<and> (\<forall>t fs w. tenant w = Some t \<longrightarrow>
        (\<exists>t' w'. kc_UpdateTenant kc (finalizers_set t fs) w = (Inr t', w') \<and> same_tenant (finalizers_set t fs) t'
           \<and> objects w' = objects w
           \<and> tenant w' = (if fs = [] \<and> \<not> IsZero (om_DeletionTimestamp (kt_Meta t)) then None else Some t')))
   \<and> (\<forall>t st w. tenant w = Some t \<longrightarrow>
        (\<exists>t' w'. kc_StatusUpdateTenant kc (t\<lparr>kt_Status := st\<rparr>) w = (Inr t', w') \<and> same_tenant t t'
           \<and> kt_Status t' = st \<and> objects w' = objects w \<and> tenant w' = Some t'))"

text \<open>
  The clock and the random source leave the cluster alone, random bytes are to be had, and the image of
  the gateway is configured. \<open>finalizers_kept\<close> is what controller-runtime does with finalizers.
\<close>

definition serving_os :: "'w os \<Rightarrow> ('w \<Rightarrow> (kkind \<times> key) set) \<Rightarrow> ('w \<Rightarrow> KTenant option) \<Rightarrow> bool" where
  "serving_os os objects tenant \<longleftrightarrow>
     (\<forall>w t w'. os_now os w = (t, w') \<longrightarrow> objects w' = objects w \<and> tenant w' = tenant w)
   \<and> (\<forall>n w. \<exists>b w'. os_rand os n w = (Inr b, w') \<and> objects w' = objects w \<and> tenant w' = tenant w)
   \<and> (\<forall>w. os_getenv os ''MUTO_A2A_GATEWAY_IMAGE'' w \<noteq> [])"

definition finalizers_kept :: "ctrl_lib \<Rightarrow> bool" where
  "finalizers_kept cl \<longleftrightarrow>
     (\<forall>m f. cl_ContainsFinalizer cl m f \<longleftrightarrow> f \<in> set (om_Finalizers m))
   \<and> (\<forall>m f. cl_AddFinalizer cl m f = (if f \<in> set (om_Finalizers m) then m
        else m\<lparr>om_Finalizers := om_Finalizers m @ [f]\<rparr>))
   \<and> (\<forall>m f. cl_RemoveFinalizer cl m f = m\<lparr>om_Finalizers := removeAll f (om_Finalizers m)\<rparr>)"

lemmas reads_iff = reads_def [THEN iffD1, rule_format]
  and creates = writes_objects_def [THEN iffD1, THEN conjunct1, rule_format]
  and deletes = writes_objects_def [THEN iffD1, THEN conjunct2, rule_format]
  and gets_tenant = stores_tenant_def [THEN iffD1, THEN conjunct1, rule_format]
  and updates_tenant = stores_tenant_def [THEN iffD1, THEN conjunct2, THEN conjunct1, rule_format]
  and updates_status = stores_tenant_def [THEN iffD1, THEN conjunct2, THEN conjunct2, rule_format]
  and quiet_now = serving_os_def [THEN iffD1, THEN conjunct1, rule_format]
  and quiet_rand = serving_os_def [THEN iffD1, THEN conjunct2, THEN conjunct1, rule_format]
  and image_set = serving_os_def [THEN iffD1, THEN conjunct2, THEN conjunct2, rule_format]

section \<open>Operations that act on the set of objects\<close>

text \<open>
  When the objects \<open>need\<close> are there, \<open>f\<close> succeeds, changes the set of objects by \<open>g\<close> and leaves the tenant alone.
\<close>

definition acts ::
    "('w \<Rightarrow> (kkind \<times> key) set) \<Rightarrow> ('w \<Rightarrow> KTenant option) \<Rightarrow> (kkind \<times> key) set
     \<Rightarrow> ('w kstate \<Rightarrow> goerror option \<times> 'w kstate) \<Rightarrow> ((kkind \<times> key) set \<Rightarrow> (kkind \<times> key) set) \<Rightarrow> bool" where
  "acts objects tenant need f g \<longleftrightarrow>
     (\<forall>s. need \<subseteq> objects (world s) \<longrightarrow>
        (\<exists>s'. f s = (None, s') \<and> objects (world s') = g (objects (world s)) \<and> tenant (world s') = tenant (world s)))"

lemma actsI:
  assumes "\<And>s. need \<subseteq> objects (world s) \<Longrightarrow>
    \<exists>s'. f s = (None, s') \<and> objects (world s') = g (objects (world s)) \<and> tenant (world s') = tenant (world s)"
  shows "acts objects tenant need f g"
  using assms by (simp add: acts_def)

lemma actsE:
  assumes "acts objects tenant need f g" and "need \<subseteq> objects (world s)"
  obtains s' where "f s = (None, s')" "objects (world s') = g (objects (world s))" "tenant (world s') = tenant (world s)"
  using assms unfolding acts_def by blast

lemma acts_seq:
  assumes "acts objects tenant need f g" and "acts objects tenant need f' g'" and "\<And>X. need \<subseteq> X \<Longrightarrow> need \<subseteq> g X"
  shows "acts objects tenant need (\<lambda>s. case f s of (Some err, s1) \<Rightarrow> (Some err, s1) | (None, s1) \<Rightarrow> f' s1) (\<lambda>X. g' (g X))"
proof (rule actsI)
  fix s :: "'a kstate"
  assume need: "need \<subseteq> objects (world s)"
  obtain s1 where 1: "f s = (None, s1)" "objects (world s1) = g (objects (world s))" "tenant (world s1) = tenant (world s)"
    by (rule actsE [OF assms(1) need])
  have "need \<subseteq> objects (world s1)" using assms(3) [OF need] 1(2) by simp
  from actsE [OF assms(2) this]
  obtain s2 where 2: "f' s1 = (None, s2)" "objects (world s2) = g' (objects (world s1))" "tenant (world s2) = tenant (world s1)" .
  from 1 2 show "\<exists>s'. (case f s of (Some err, s1) \<Rightarrow> (Some err, s1) | (None, s1) \<Rightarrow> f' s1) = (None, s')
      \<and> objects (world s') = g' (g (objects (world s))) \<and> tenant (world s') = tenant (world s)"
    by simp
qed

lemma acts_create:
  assumes "writes_objects kinds kc objects tenant" and "obj_key ob = (kd, ns, nm)" "kd \<in> kinds" "nm \<noteq> []"
    and "(kd, ns, nm) \<notin> objects (world s)" and "kd = NamespaceK \<or> (NamespaceK, ([], ns)) \<in> objects (world s)"
  shows "\<exists>s'. k_Create kc ob s = (None, s') \<and> objects (world s') = insert (kd, ns, nm) (objects (world s))
    \<and> tenant (world s') = tenant (world s)"
  using creates [OF assms(1), of ob kd ns nm "world s"] assms(2-6) by (auto simp: api_err_def)

lemma acts_ensure:
  assumes "reads get kd objects"
    and "\<And>s. need \<subseteq> objects (world s) \<Longrightarrow> (kd, k) \<notin> objects (world s) \<Longrightarrow> \<exists>s'. create s = (None, s')
      \<and> objects (world s') = insert (kd, k) (objects (world s)) \<and> tenant (world s') = tenant (world s)"
  shows "acts objects tenant need (ensure (api c (get k)) create) (insert (kd, k))"
proof (rule actsI)
  fix s :: "'a kstate"
  assume need: "need \<subseteq> objects (world s)"
  show "\<exists>s'. ensure (api c (get k)) create s = (None, s')
      \<and> objects (world s') = insert (kd, k) (objects (world s)) \<and> tenant (world s') = tenant (world s)"
  proof (cases "(kd, k) \<in> objects (world s)")
    case True
    with reads_iff [OF assms(1), of k "world s"] show ?thesis
      by (auto simp: ensure_def api_def insert_absorb)
  next
    case False
    with reads_iff [OF assms(1), of k "world s"] obtain e where
      get: "get k (world s) = (Inl e, world s)" "IsNotFound e" by auto
    let ?s = "emit (Call c (Some e)) s"
    have "ensure (api c (get k)) create s = create ?s" using get by (simp add: ensure_def api_def err_of_def)
    with assms(2) [of ?s] need False show ?thesis by simp
  qed
qed

lemma acts_delete_logged:
  assumes "writes_objects kinds kc objects tenant" and "obj_key ob = r" "fst r \<in> kinds"
  shows "acts objects tenant {} (delete_logged kc ob failure message) (\<lambda>X. X - {r})"
proof (rule actsI)
  fix s :: "'a kstate"
  obtain e w' where "kc_Delete kc ob (world s) = (e, w')" "tolerated KNotFound e"
    "objects w' = objects (world s) - {r}" "tenant w' = tenant (world s)"
    using deletes [OF assms(1), of ob "world s"] assms(2,3) by auto
  then show "\<exists>s'. delete_logged kc ob failure message s = (None, s')
      \<and> objects (world s') = objects (world s) - {r} \<and> tenant (world s') = tenant (world s)"
    by (auto simp: delete_logged_def api_err_def tolerated_def split: option.splits)
qed

section \<open>The parts of a reconciliation\<close>

text \<open>What a tenant asks for\<close>

definition gateway_objects :: "string \<Rightarrow> (kkind \<times> key) set" where
  "gateway_objects ns = {(SecretK, (ns, ''muto-a2a-token'')), (DeploymentK, (ns, ''a2a-gateway'')), (ServiceK, (ns, ''a2a-gateway''))}"

definition dedicated_a2a :: "KTenant \<Rightarrow> bool" where
  "dedicated_a2a t \<longleftrightarrow> tb_Type (tsp_MessageBus (kt_Spec t)) = BusTypeA2A \<and> tb_Dedicated (tsp_MessageBus (kt_Spec t))"

definition wanted :: "KTenant \<Rightarrow> (kkind \<times> key) set" where
  "wanted t = insert (NamespaceK, ([], tsp_Namespace (kt_Spec t)))
     (if dedicated_a2a t then gateway_objects (tsp_Namespace (kt_Spec t)) else {})"

text \<open>The kinds the reconciler needs for a tenant, and when it can be served\<close>

definition kinds_needed :: "KTenant \<Rightarrow> kkind set" where
  "kinds_needed t =
     (if IsZero (om_DeletionTimestamp (kt_Meta t)) then
        insert NamespaceK (if dedicated_a2a t then {SecretK, DeploymentK, ServiceK} else {})
      else if tenantFinalizer \<in> set (om_Finalizers (kt_Meta t)) \<and> tsp_Namespace (kt_Spec t) \<noteq> []
      then {SecretK, DeploymentK, ServiceK} else {})"

definition servable :: "kkind set \<Rightarrow> KTenant \<Rightarrow> bool" where
  "servable kinds t \<longleftrightarrow> kinds_needed t \<subseteq> kinds
     \<and> (IsZero (om_DeletionTimestamp (kt_Meta t)) \<longrightarrow> tsp_Namespace (kt_Spec t) \<noteq> [])"

lemma stores_parts:
  assumes "stores_objects kinds kc objects tenant"
  shows "NamespaceK \<in> kinds \<Longrightarrow> reads (kc_GetNamespace kc) NamespaceK objects"
    "SecretK \<in> kinds \<Longrightarrow> reads (kc_GetSecret kc) SecretK objects"
    "DeploymentK \<in> kinds \<Longrightarrow> reads (kc_GetDeployment kc) DeploymentK objects"
    "ServiceK \<in> kinds \<Longrightarrow> reads (kc_GetService kc) ServiceK objects"
    "writes_objects kinds kc objects tenant"
  using assms by (simp_all add: stores_objects_def)

lemma acts_ensureNamespace:
  assumes "stores_objects kinds kc objects tenant" and "NamespaceK \<in> kinds" and "tsp_Namespace (kt_Spec t) \<noteq> []"
  shows "acts objects tenant {} (ensureNamespace kc t) (insert (NamespaceK, ([], tsp_Namespace (kt_Spec t))))"
  unfolding ensureNamespace_def
  by (rule acts_ensure [OF stores_parts(1) [OF assms(1,2)] acts_create [OF stores_parts(5) [OF assms(1)]]])
     (simp_all add: meta_key_def zero_ObjectMeta_def assms)

lemma generateToken_quiet:
  assumes "serving_os os objects tenant"
  shows "\<exists>tok s'. generateToken os s = (Inr tok, s') \<and> objects (world s') = objects (world s)
    \<and> tenant (world s') = tenant (world s)"
  using quiet_rand [OF assms, of 32 "world s"] by (auto simp: generateToken_def Let_def)

lemma acts_ensureA2ASecret:
  assumes "stores_objects kinds kc objects tenant" and os: "serving_os os objects tenant" and "SecretK \<in> kinds"
  shows "acts objects tenant {(NamespaceK, ([], ns))} (ensureA2ASecret kc os ns owner)
    (insert (SecretK, (ns, ''muto-a2a-token'')))"
  unfolding ensureA2ASecret_def
proof (rule acts_ensure [OF stores_parts(2) [OF assms(1,3)]])
  fix s :: "'a kstate"
  assume there: "{(NamespaceK, ([], ns))} \<subseteq> objects (world s)" and new: "(SecretK, (ns, ''muto-a2a-token'')) \<notin> objects (world s)"
  obtain tok s1 where tok: "generateToken os s = (Inr tok, s1)" "objects (world s1) = objects (world s)"
    "tenant (world s1) = tenant (world s)" using generateToken_quiet [OF os] by blast
  let ?ob = "OSecret \<lparr>sec_Meta = zero_ObjectMeta
      \<lparr>om_Name := ''muto-a2a-token'', om_Namespace := ns, om_OwnerReferences := [owner]\<rparr>, sec_Data = [''token'' \<mapsto> tok]\<rparr>"
  have "\<exists>s'. k_Create kc ?ob s1 = (None, s')
      \<and> objects (world s') = insert (SecretK, (ns, ''muto-a2a-token'')) (objects (world s1)) \<and> tenant (world s') = tenant (world s1)"
    by (rule acts_create [OF stores_parts(5) [OF assms(1)]]) (use there new tok assms(3) in \<open>simp_all add: meta_key_def\<close>)
  then show "\<exists>s'. (case generateToken os s of
        (Inl err, s1) \<Rightarrow> (Some (Wrapped ''generate a2a token: '' err), s1)
      | (Inr token, s1) \<Rightarrow> k_Create kc (OSecret \<lparr>sec_Meta = zero_ObjectMeta
          \<lparr>om_Name := ''muto-a2a-token'', om_Namespace := ns, om_OwnerReferences := [owner]\<rparr>,
          sec_Data = [''token'' \<mapsto> token]\<rparr>) s1) = (None, s')
      \<and> objects (world s') = insert (SecretK, (ns, ''muto-a2a-token'')) (objects (world s)) \<and> tenant (world s') = tenant (world s)"
    using tok by simp
qed

lemma acts_ensureA2ADeployment:
  assumes "stores_objects kinds kc objects tenant" and os: "serving_os os objects tenant" and "DeploymentK \<in> kinds"
  shows "acts objects tenant {(NamespaceK, ([], ns))} (ensureA2ADeployment kc os ns owner)
    (insert (DeploymentK, (ns, ''a2a-gateway'')))"
  unfolding ensureA2ADeployment_def
  by (rule acts_ensure [OF stores_parts(3) [OF assms(1,3)]])
     (auto simp: Let_def getenv_def image_set [OF os] meta_key_def assms(3)
       intro!: acts_create [OF stores_parts(5) [OF assms(1)]])

lemma acts_ensureA2AService:
  assumes "stores_objects kinds kc objects tenant" and "ServiceK \<in> kinds"
  shows "acts objects tenant {(NamespaceK, ([], ns))} (ensureA2AService kc ns owner)
    (insert (ServiceK, (ns, ''a2a-gateway'')))"
  unfolding ensureA2AService_def
  by (rule acts_ensure [OF stores_parts(4) [OF assms] acts_create [OF stores_parts(5) [OF assms(1)]]])
     (simp_all add: meta_key_def assms(2))

lemma acts_gateway:
  assumes "stores_objects kinds kc objects tenant" and "serving_os os objects tenant"
    and kinds: "{SecretK, DeploymentK, ServiceK} \<subseteq> kinds"
  shows "acts objects tenant {(NamespaceK, ([], tsp_Namespace (kt_Spec t)))} (reconcileA2AGateway kc os cl t)
    (\<lambda>X. X \<union> gateway_objects (tsp_Namespace (kt_Spec t)))"
proof -
  let ?ns = "tsp_Namespace (kt_Spec t)" and ?o = "cl_NewControllerRef cl (kt_Meta t) ''Tenant''"
  have eq: "reconcileA2AGateway kc os cl t = (\<lambda>s. case ensureA2ASecret kc os ?ns ?o s of (Some err, s1) \<Rightarrow> (Some err, s1)
      | (None, s1) \<Rightarrow> (case ensureA2ADeployment kc os ?ns ?o s1 of (Some err, s2) \<Rightarrow> (Some err, s2)
          | (None, s2) \<Rightarrow> ensureA2AService kc ?ns ?o s2))"
    by (rule ext) (simp add: reconcileA2AGateway_def Let_def)
  have g: "(\<lambda>X. X \<union> gateway_objects ?ns) = (\<lambda>X. insert (ServiceK, (?ns, ''a2a-gateway''))
      (insert (DeploymentK, (?ns, ''a2a-gateway'')) (insert (SecretK, (?ns, ''muto-a2a-token'')) X)))"
    by (auto simp: gateway_objects_def)
  have k: "SecretK \<in> kinds" "DeploymentK \<in> kinds" "ServiceK \<in> kinds" using kinds by simp_all
  show ?thesis
    unfolding eq g
    by (rule acts_seq [OF acts_ensureA2ASecret [OF assms(1,2) k(1)]
          acts_seq [OF acts_ensureA2ADeployment [OF assms(1,2) k(2)] acts_ensureA2AService [OF assms(1) k(3)]]]) auto
qed

lemma gateway_keys [simp]:
  "obj_key (gateway_deployment ns) = (DeploymentK, (ns, ''a2a-gateway''))"
  "obj_key (gateway_service ns) = (ServiceK, (ns, ''a2a-gateway''))"
  "obj_key (gateway_secret ns) = (SecretK, (ns, ''muto-a2a-token''))"
  by (simp_all add: gateway_deployment_def gateway_service_def gateway_secret_def meta_key_def)

lemma acts_deleteA2AGateway:
  assumes "stores_objects kinds kc objects tenant" and kinds: "ns \<noteq> [] \<longrightarrow> {SecretK, DeploymentK, ServiceK} \<subseteq> kinds"
  shows "acts objects tenant {} (deleteA2AGatewayResources kc ns) (\<lambda>X. if ns = [] then X else X - gateway_objects ns)"
proof (cases "ns = []")
  case True
  then show ?thesis by (intro actsI) (simp add: deleteA2AGatewayResources_def)
next
  case False
  have eq: "deleteA2AGatewayResources kc ns = (\<lambda>s. case delete_logged kc (gateway_deployment ns)
        ''delete a2a-gateway deployment: '' ''deleted a2a-gateway deployment'' s of (Some err, s1) \<Rightarrow> (Some err, s1)
      | (None, s1) \<Rightarrow> (case delete_logged kc (gateway_service ns)
          ''delete a2a-gateway service: '' ''deleted a2a-gateway service'' s1 of (Some err, s2) \<Rightarrow> (Some err, s2)
        | (None, s2) \<Rightarrow> delete_logged kc (gateway_secret ns)
            ''delete muto-a2a-token secret: '' ''deleted muto-a2a-token secret'' s2))"
    using False by (intro ext) (simp add: deleteA2AGatewayResources_def)
  have g: "(\<lambda>X. if ns = [] then X else X - gateway_objects ns) = (\<lambda>X. X - {(DeploymentK, (ns, ''a2a-gateway''))}
      - {(ServiceK, (ns, ''a2a-gateway''))} - {(SecretK, (ns, ''muto-a2a-token''))})"
    using False by (auto simp: gateway_objects_def)
  note one = acts_delete_logged [OF stores_parts(5) [OF assms(1)] gateway_keys(1)]
    acts_delete_logged [OF stores_parts(5) [OF assms(1)] gateway_keys(2)]
    acts_delete_logged [OF stores_parts(5) [OF assms(1)] gateway_keys(3)]
  show ?thesis
    unfolding eq g by (rule acts_seq [OF one(1) acts_seq [OF one(2,3)]]) (use kinds False in simp_all)
qed

text \<open>Adding the finalizer, and removing it\<close>

lemma add_finalizer_effect:
  assumes "stores_tenant kc k objects tenant" and lib: "finalizers_kept cl"
    and stored: "tenant (world s) = Some t" and live: "IsZero (om_DeletionTimestamp (kt_Meta t))"
  shows "\<exists>t' s'. add_finalizer kc cl t s = (Inr t', s') \<and> tenant (world s') = Some t'
    \<and> objects (world s') = objects (world s) \<and> kt_Spec t' = kt_Spec t
    \<and> set (om_Finalizers (kt_Meta t')) = insert tenantFinalizer (set (om_Finalizers (kt_Meta t)))
    \<and> om_DeletionTimestamp (kt_Meta t') = om_DeletionTimestamp (kt_Meta t)"
proof (cases "tenantFinalizer \<in> set (om_Finalizers (kt_Meta t))")
  case True
  then show ?thesis
    using lib stored by (auto simp: add_finalizer_def finalizers_kept_def insert_absorb)
next
  case False
  let ?fs = "om_Finalizers (kt_Meta t) @ [tenantFinalizer]"
  obtain t' w' where upd: "kc_UpdateTenant kc (finalizers_set t ?fs) (world s) = (Inr t', w')"
      "same_tenant (finalizers_set t ?fs) t'" "objects w' = objects (world s)" "tenant w' = Some t'"
    using updates_tenant [OF assms(1), of "world s" t ?fs] stored live by auto
  then show ?thesis
    using False lib by (auto simp: add_finalizer_def finalizers_kept_def Let_def api_def same_tenant_def)
qed

lemma provision_effect:
  assumes st: "stores_objects kinds kc objects tenant" and "stores_tenant kc k objects tenant"
    and os: "serving_os os objects tenant" and stored: "tenant (world s) = Some t"
    and live: "IsZero (om_DeletionTimestamp (kt_Meta t))" and kinds: "servable kinds t"
  shows "\<exists>t' s'. provision kc os cl t s = (Inr 0, s') \<and> tenant (world s') = Some t'
    \<and> objects (world s') = objects (world s) \<union> wanted t
    \<and> same_tenant t t' \<and> tst_Ready (kt_Status t')"
proof -
  let ?ns = "tsp_Namespace (kt_Spec t)"
  have ns: "NamespaceK \<in> kinds" "?ns \<noteq> []" and gw: "dedicated_a2a t \<Longrightarrow> {SecretK, DeploymentK, ServiceK} \<subseteq> kinds"
    using kinds live by (auto simp: servable_def kinds_needed_def split: if_splits)
  obtain s1 where 1: "ensureNamespace kc t s = (None, s1)" "objects (world s1) = insert (NamespaceK, ([], ?ns)) (objects (world s))"
    "tenant (world s1) = Some t"
    using actsE [OF acts_ensureNamespace [OF st ns], of s] stored by auto
  obtain s2 where 2: "(if dedicated_a2a t then reconcileA2AGateway kc os cl t s1 else (None, s1)) = (None, s2)"
    "objects (world s2) = objects (world s) \<union> wanted t" "tenant (world s2) = Some t"
  proof (cases "dedicated_a2a t")
    case True
    have "{(NamespaceK, ([], ?ns))} \<subseteq> objects (world s1)" using 1(2) by simp
    from actsE [OF acts_gateway [OF st os gw [OF True]] this, of cl]
    obtain s2 where "reconcileA2AGateway kc os cl t s1 = (None, s2)"
      "objects (world s2) = objects (world s1) \<union> gateway_objects ?ns" "tenant (world s2) = tenant (world s1)" .
    with True 1 that show ?thesis by (simp add: wanted_def)
  next
    case False
    with 1 that [of s1] show ?thesis by (simp add: wanted_def)
  qed
  let ?st = "(kt_Status t)\<lparr>tst_Ready := True\<rparr>"
  obtain t' w' where "kc_StatusUpdateTenant kc (t\<lparr>kt_Status := ?st\<rparr>) (world s2) = (Inr t', w')" "same_tenant t t'"
    "kt_Status t' = ?st" "objects w' = objects (world s2)" "tenant w' = Some t'"
    using updates_status [OF assms(2) 2(3), of ?st] by blast
  then show ?thesis
    using 1(1) 2 by (simp add: provision_def dedicated_a2a_def api_def)
qed

lemma removeAll_empty: "removeAll x xs = [] \<longleftrightarrow> set xs \<subseteq> {x}"
  by (induction xs) auto

lemma finalize_effect:
  assumes st: "stores_objects kinds kc objects tenant" and "stores_tenant kc k objects tenant"
    and lib: "finalizers_kept cl" and fin: "tenantFinalizer \<in> set (om_Finalizers (kt_Meta t))"
    and stored: "tenant (world s) = Some t" and dead: "\<not> IsZero (om_DeletionTimestamp (kt_Meta t))"
    and kinds: "servable kinds t"
  shows "\<exists>s'. finalizeTenant kc cl t s = (Inr 0, s')
    \<and> objects (world s') = (if tsp_Namespace (kt_Spec t) = [] then objects (world s)
        else objects (world s) - gateway_objects (tsp_Namespace (kt_Spec t)))
    \<and> (case tenant (world s') of
         None \<Rightarrow> set (om_Finalizers (kt_Meta t)) = {tenantFinalizer}
       | Some t' \<Rightarrow> set (om_Finalizers (kt_Meta t')) = set (om_Finalizers (kt_Meta t)) - {tenantFinalizer}
           \<and> set (om_Finalizers (kt_Meta t')) \<noteq> {}
           \<and> om_DeletionTimestamp (kt_Meta t') = om_DeletionTimestamp (kt_Meta t))"
proof -
  let ?ns = "tsp_Namespace (kt_Spec t)" and ?s = "emit (LogInfo ''tenant marked for deletion, cleaning up gateway resources'') s"
  have "?ns \<noteq> [] \<longrightarrow> {SecretK, DeploymentK, ServiceK} \<subseteq> kinds"
    using kinds dead fin by (auto simp: servable_def kinds_needed_def)
  from actsE [OF acts_deleteA2AGateway [OF st this], of ?s]
  obtain s1 where 1: "deleteA2AGatewayResources kc ?ns ?s = (None, s1)"
    "objects (world s1) = (if ?ns = [] then objects (world ?s) else objects (world ?s) - gateway_objects ?ns)"
    "tenant (world s1) = Some t"
    using stored by auto
  let ?fs = "removeAll tenantFinalizer (om_Finalizers (kt_Meta t))"
  obtain t' w' where upd: "kc_UpdateTenant kc (finalizers_set t ?fs) (world s1) = (Inr t', w')"
      "same_tenant (finalizers_set t ?fs) t'" "objects w' = objects (world s1)"
      "tenant w' = (if ?fs = [] then None else Some t')"
    using updates_tenant [OF assms(2) 1(3), of ?fs] dead by auto
  have "?fs = [] \<longleftrightarrow> set (om_Finalizers (kt_Meta t)) = {tenantFinalizer}"
    using fin removeAll_empty [of tenantFinalizer "om_Finalizers (kt_Meta t)"] by blast
  moreover have "?fs \<noteq> [] \<Longrightarrow> set ?fs \<noteq> {}" by (simp only: set_empty) simp
  moreover have "finalizeTenant kc cl t s = (Inr 0, snd (k_UpdateTenant kc (finalizers_set t ?fs)
      (emit (LogInfo ''gateway resources cleaned up, removing tenant finalizer'') s1)))"
    using fin lib 1(1) upd(1) by (simp add: finalizeTenant_def finalizers_kept_def Let_def api_def)
  ultimately show ?thesis
    using upd 1(2) by (simp add: api_def same_tenant_def)
qed

section \<open>One reconciliation, and a second\<close>

text \<open>
  What one reconciliation owes the cluster: nothing for a tenant that is gone, or that is being deleted and
  has been cleaned up; the removal of the gateway and of the finalizer for one being deleted;
  otherwise the objects it asks for, its finalizer and its readiness. Nothing else changes.
\<close>

definition tenant_goal ::
    "KTenant option \<Rightarrow> (kkind \<times> key) set \<Rightarrow> KTenant option \<Rightarrow> (kkind \<times> key) set \<Rightarrow> bool" where
  "tenant_goal before X after Y \<longleftrightarrow>
     (case before of
        None \<Rightarrow> after = None \<and> Y = X
      | Some t \<Rightarrow>
          if IsZero (om_DeletionTimestamp (kt_Meta t)) then
            Y = X \<union> wanted t
            \<and> (\<exists>t'. after = Some t' \<and> kt_Spec t' = kt_Spec t \<and> tst_Ready (kt_Status t')
                \<and> set (om_Finalizers (kt_Meta t')) = insert tenantFinalizer (set (om_Finalizers (kt_Meta t)))
                \<and> om_DeletionTimestamp (kt_Meta t') = om_DeletionTimestamp (kt_Meta t))
          else if tenantFinalizer \<in> set (om_Finalizers (kt_Meta t)) then
            Y = (if tsp_Namespace (kt_Spec t) = [] then X else X - gateway_objects (tsp_Namespace (kt_Spec t)))
            \<and> (case after of
                 None \<Rightarrow> set (om_Finalizers (kt_Meta t)) = {tenantFinalizer}
               | Some t' \<Rightarrow> set (om_Finalizers (kt_Meta t')) = set (om_Finalizers (kt_Meta t)) - {tenantFinalizer}
                   \<and> set (om_Finalizers (kt_Meta t')) \<noteq> {}
                   \<and> om_DeletionTimestamp (kt_Meta t') = om_DeletionTimestamp (kt_Meta t))
          else after = before \<and> Y = X)"

lemma reconcile_tenant_goal:
  assumes st: "stores_objects kinds kc objects tenant" and ten: "stores_tenant kc k objects tenant"
    and os: "serving_os os objects tenant" and lib: "finalizers_kept cl"
    and kinds: "\<And>t. tenant (world s) = Some t \<Longrightarrow> servable kinds t"
  shows "\<exists>s'. reconcile_tenant kc os cl k s = (Inr 0, s')
    \<and> tenant_goal (tenant (world s)) (objects (world s)) (tenant (world s')) (objects (world s'))"
proof (cases "tenant (world s)")
  case None
  with gets_tenant [OF ten, of "world s"] show ?thesis
    by (auto simp: reconcile_tenant_def api_def tenant_goal_def IgnoreNotFound_def)
next
  case (Some t)
  have get: "kc_GetTenant kc k (world s) = (Inr t, world s)"
    using gets_tenant [OF ten, of "world s"] Some by simp
  let ?s = "emit (Call (KGet TenantK k) None) s"
  show ?thesis
  proof (cases "IsZero (om_DeletionTimestamp (kt_Meta t))")
    case True
    obtain t1 s1 where 1: "add_finalizer kc cl t ?s = (Inr t1, s1)" "tenant (world s1) = Some t1"
      "objects (world s1) = objects (world s)" "kt_Spec t1 = kt_Spec t"
      "set (om_Finalizers (kt_Meta t1)) = insert tenantFinalizer (set (om_Finalizers (kt_Meta t)))"
      "om_DeletionTimestamp (kt_Meta t1) = om_DeletionTimestamp (kt_Meta t)"
      using add_finalizer_effect [OF ten lib, of ?s t] Some True by auto
    have "servable kinds t1"
      using kinds [OF Some] 1(4-6) True by (auto simp: servable_def kinds_needed_def dedicated_a2a_def)
    then obtain t2 s2 where 2: "provision kc os cl t1 s1 = (Inr 0, s2)" "tenant (world s2) = Some t2"
      "objects (world s2) = objects (world s1) \<union> wanted t1" "same_tenant t1 t2" "tst_Ready (kt_Status t2)"
      using provision_effect [OF st ten os 1(2), of cl] 1(6) True by auto
    have "wanted t1 = wanted t" using 1(4) by (simp add: wanted_def dedicated_a2a_def)
    with 1 2 True get Some show ?thesis
      by (simp add: reconcile_tenant_def api_def err_of_def tenant_goal_def same_tenant_def)
  next
    case False
    show ?thesis
    proof (cases "tenantFinalizer \<in> set (om_Finalizers (kt_Meta t))")
      case True
      have "tenant (world ?s) = Some t" using Some by simp
      from finalize_effect [OF st ten lib True this False kinds [OF Some]] False True get Some show ?thesis
        by (auto simp: reconcile_tenant_def api_def err_of_def tenant_goal_def)
    next
      case unmarked: False
      have "finalizeTenant kc cl t ?s = (Inr 0, ?s)"
        using unmarked lib by (simp add: finalizeTenant_def finalizers_kept_def)
      with False unmarked get Some show ?thesis
        by (simp add: reconcile_tenant_def api_def err_of_def tenant_goal_def)
    qed
  qed
qed

lemma managed_tenant_goal:
  assumes "stores_objects kinds kc objects tenant" and "stores_tenant kc k objects tenant"
    and os: "serving_os os objects tenant" and "finalizers_kept cl"
    and kinds: "\<And>t. tenant (world s) = Some t \<Longrightarrow> servable kinds t"
    and run: "TenantManaged kc os cl k s = (r, s')"
  shows "r = Inr 0" and "tenant_goal (tenant (world s)) (objects (world s)) (tenant (world s')) (objects (world s'))"
proof -
  let ?s = "emit (SpanStart ''TenantReconciler.Reconcile'') s"
  obtain t1 s1 where 1: "now os ?s = (t1, s1)" by fastforce
  obtain s2 where 2: "reconcile_tenant kc os cl k s1 = (Inr 0, s2)"
    "tenant_goal (tenant (world s1)) (objects (world s1)) (tenant (world s2)) (objects (world s2))"
    using reconcile_tenant_goal [OF assms(1-4), of s1] kinds quiet_now [OF os now_world [OF 1]] by auto
  obtain t2 s3 where 3: "now os s2 = (t2, s3)" by fastforce
  have "r = Inr 0" "world s' = world s3"
    using run by (auto simp: TenantManaged_def WrapReconciler_def WrapWith_def TenantReconcile_def
        ObserveReconcile_def Let_def 1 2(1) 3)
  with 2(2) quiet_now [OF os now_world [OF 1]] quiet_now [OF os now_world [OF 3]]
  show "r = Inr 0" and "tenant_goal (tenant (world s)) (objects (world s)) (tenant (world s')) (objects (world s'))"
    by simp_all
qed

text \<open>A second reconciliation finds nothing to do.\<close>

lemma tenant_goal_stable:
  assumes "tenant_goal t X t' Y" and "tenant_goal t' Y t'' Z"
  shows "Z = Y"
proof (cases t)
  case None
  with assms show ?thesis by (simp add: tenant_goal_def)
next
  case (Some x)
  show ?thesis
  proof (cases "IsZero (om_DeletionTimestamp (kt_Meta x))")
    case True
    with Some assms(1) obtain y where y: "t' = Some y" "kt_Spec y = kt_Spec x" "Y = X \<union> wanted x"
      "om_DeletionTimestamp (kt_Meta y) = om_DeletionTimestamp (kt_Meta x)"
      by (auto simp: tenant_goal_def)
    then have "wanted y = wanted x" by (simp add: wanted_def dedicated_a2a_def)
    with assms(2) y True show ?thesis by (auto simp: tenant_goal_def)
  next
    case False
    then have "\<And>y. t' = Some y \<Longrightarrow> \<not> IsZero (om_DeletionTimestamp (kt_Meta y)) \<and> tenantFinalizer \<notin> set (om_Finalizers (kt_Meta y))"
      using Some assms(1) by (auto simp: tenant_goal_def split: if_splits)
    with assms(2) show ?thesis by (cases t') (auto simp: tenant_goal_def)
  qed
qed

lemma tenant_goal_servable:
  assumes "tenant_goal t X t' Y" and "\<And>x. t = Some x \<Longrightarrow> servable kinds x" and "t' = Some y"
  shows "servable kinds y"
proof -
  obtain x where x: "t = Some x" using assms(1,3) by (cases t) (auto simp: tenant_goal_def)
  consider "IsZero (om_DeletionTimestamp (kt_Meta x))" "kt_Spec y = kt_Spec x"
      "om_DeletionTimestamp (kt_Meta y) = om_DeletionTimestamp (kt_Meta x)"
    | "\<not> IsZero (om_DeletionTimestamp (kt_Meta y))" "tenantFinalizer \<notin> set (om_Finalizers (kt_Meta y))"
    using assms(1,3) x by (auto simp: tenant_goal_def split: if_splits)
  then show ?thesis
    using assms(2) [OF x] by cases (auto simp: servable_def kinds_needed_def dedicated_a2a_def)
qed


section \<open>A cluster of stored tenants\<close>

text \<open>An API server with the tenants of every key and the objects that exist, as a set\<close>

type_synonym tenant_world = "(key \<rightharpoonup> KTenant) \<times> (kkind \<times> key) set"

definition stored_tenant :: "key \<Rightarrow> tenant_world \<Rightarrow> KTenant option" where
  "stored_tenant k w = map_option (\<lambda>t. t\<lparr>kt_Meta := (kt_Meta t)\<lparr>om_Namespace := fst k, om_Name := snd k\<rparr>\<rparr>) (fst w k)"

definition lookup_in :: "kkind \<Rightarrow> 'a \<Rightarrow> key \<Rightarrow> tenant_world \<Rightarrow> 'a res \<times> tenant_world" where
  "lookup_in kd x k w = (if (kd, k) \<in> snd w then Inr x else Inl no_object, w)"

text \<open>A tenant is updated under its key, refused when it is not stored, dropped with its last finalizer.\<close>

definition update_in :: "KTenant \<Rightarrow> tenant_world \<Rightarrow> KTenant res \<times> tenant_world" where
  "update_in t w =
     (let k = meta_key (kt_Meta t) in
      if fst w k = None then (Inl no_object, w)
      else (Inr t, (fst w)(k := if om_Finalizers (kt_Meta t) = [] \<and> \<not> IsZero (om_DeletionTimestamp (kt_Meta t))
                                then None else Some t), snd w))"

definition tenant_store :: "tenant_world kclient" where
  "tenant_store = bare_client
     \<lparr>kc_GetTenant := \<lambda>k w. (case stored_tenant k w of Some t \<Rightarrow> Inr t | None \<Rightarrow> Inl no_object, w),
      kc_GetNamespace := lookup_in NamespaceK \<lparr>ns_Meta = zero_ObjectMeta\<rparr>,
      kc_GetSecret := lookup_in SecretK \<lparr>sec_Meta = zero_ObjectMeta, sec_Data = Map.empty\<rparr>,
      kc_GetDeployment := lookup_in DeploymentK \<lparr>dep_Meta = zero_ObjectMeta, dep_Replicas = None,
        dep_Selector = Map.empty, dep_TemplateLabels = Map.empty,
        dep_TemplateSpec = \<lparr>ps_Containers = [], ps_RestartPolicy = []\<rparr>\<rparr>,
      kc_GetService := lookup_in ServiceK \<lparr>svc_Meta = zero_ObjectMeta, svc_Selector = Map.empty, svc_Ports = []\<rparr>,
      kc_Create := \<lambda>ob w.
        (if obj_key ob \<in> snd w then (Some (Leaf KAlreadyExists ''exists''), w)
         else if fst (obj_key ob) \<noteq> NamespaceK \<and> (NamespaceK, ([], fst (snd (obj_key ob)))) \<notin> snd w
         then (Some no_object, w)
         else (None, fst w, insert (obj_key ob) (snd w))),
      kc_Delete := \<lambda>ob w. (if obj_key ob \<in> snd w then None else Some no_object, fst w, snd w - {obj_key ob}),
      kc_UpdateTenant := update_in,
      kc_StatusUpdateTenant := \<lambda>t w.
        (if fst w (meta_key (kt_Meta t)) = None then (Inl no_object, w)
         else (Inr t, (fst w)(meta_key (kt_Meta t) \<mapsto> t), snd w))\<rparr>"

text \<open>The same server through a client that knows no deployments\<close>

definition undeployed_store :: "tenant_world kclient" where
  "undeployed_store = tenant_store
     \<lparr>kc_GetDeployment := \<lambda>k w. (Inl (Errorf ''no kind is registered for the type''), w),
      kc_Delete := \<lambda>ob w. (if fst (obj_key ob) = DeploymentK then (Some (Errorf ''no kind is registered for the type''), w)
        else kc_Delete tenant_store ob w)\<rparr>"

definition tenant_os :: "tenant_world os" where
  "tenant_os = \<lparr>os_now = (\<lambda>w. (0, w)), os_getenv = (\<lambda>k w. ''gateway:1''), os_rand = (\<lambda>n w. (Inr (replicate n 7), w))\<rparr>"

definition tenant_lib :: ctrl_lib where
  "tenant_lib = demo_lib\<lparr>cl_AddFinalizer := \<lambda>m f. if f \<in> set (om_Finalizers m) then m
     else m\<lparr>om_Finalizers := om_Finalizers m @ [f]\<rparr>\<rparr>"

lemma tenant_store_objects: "stores_objects UNIV tenant_store snd (stored_tenant k)"
  unfolding stores_objects_def reads_def writes_objects_def
  by (intro conjI allI impI)
     (auto simp: tenant_store_def lookup_in_def bare_client_def no_object_def tolerated_def stored_tenant_def)

lemma undeployed_store_objects: "stores_objects (- {DeploymentK}) undeployed_store snd (stored_tenant k)"
  unfolding stores_objects_def reads_def writes_objects_def
  by (intro conjI allI impI)
     (auto simp: undeployed_store_def tenant_store_def lookup_in_def bare_client_def no_object_def tolerated_def
       stored_tenant_def)

lemma stores_tenant_cong:
  "kc_GetTenant kc = kc_GetTenant kc' \<Longrightarrow> kc_UpdateTenant kc = kc_UpdateTenant kc' \<Longrightarrow>
   kc_StatusUpdateTenant kc = kc_StatusUpdateTenant kc' \<Longrightarrow>
   stores_tenant kc k objects tenant = stores_tenant kc' k objects tenant"
  by (simp only: stores_tenant_def)

lemma tenant_store_tenant: "stores_tenant tenant_store k snd (stored_tenant k)"
  unfolding stores_tenant_def
  by (intro conjI allI)
     (auto simp: tenant_store_def bare_client_def no_object_def same_tenant_def stored_tenant_def update_in_def
       Let_def meta_key_def split: option.split)

lemma undeployed_store_tenant: "stores_tenant undeployed_store k snd (stored_tenant k)"
  using tenant_store_tenant [of k] stores_tenant_cong [of undeployed_store tenant_store k snd "stored_tenant k"]
  by (simp add: undeployed_store_def)

lemma tenant_os_serves: "serving_os tenant_os snd (stored_tenant k)"
  by (simp add: serving_os_def tenant_os_def)

lemma tenant_lib_finalizers: "finalizers_kept tenant_lib"
  by (simp add: finalizers_kept_def tenant_lib_def demo_lib_def)

definition tenants_at :: "KTenant \<Rightarrow> tenant_world kstate" where
  "tenants_at t = \<lparr>world = ([([], ''acme'') \<mapsto> t, ([], ''other'') \<mapsto> demo_a2a None []], {}),
     trace = [], ctx_next = 0, ctx_done = [], otlp_active = True\<rparr>"

definition demo_nats :: KTenant where
  "demo_nats = (demo_a2a None [])\<lparr>kt_Spec := (kt_Spec (demo_a2a None []))
     \<lparr>tsp_MessageBus := \<lparr>tb_Type = ''nats'', tb_Dedicated = False\<rparr>\<rparr>\<rparr>"


end
