(* ===== verification/Deep_Store.thy ===== *)
theory Deep_Store
  imports K8s_Types
begin

text \<open>
  An explicit store for the values of \<open>platform/k8s/types/v1alpha1\<close> as Go has them: structs with
  pointers and slices. A value is looked at through its footprint (the addresses it reaches)
  and its reading (what a reader sees); the locale \<open>copier\<close> says what a deep copy must do, and
  the combinators build the copier of a type from those of its parts.
\<close>

section \<open>The store\<close>

type_synonym addr = nat

record 'c store =
  lim :: addr
  cells :: "addr \<rightharpoonup> 'c"

definition alloc :: "'c \<Rightarrow> 'c store \<Rightarrow> addr \<times> 'c store" where
  "alloc c s = (lim s, \<lparr>lim = lim s + 1, cells = (cells s)(lim s \<mapsto> c)\<rparr>)"

definition assign :: "addr \<Rightarrow> 'c \<Rightarrow> 'c store \<Rightarrow> 'c store" where
  "assign a c s = s\<lparr>cells := (cells s)(a \<mapsto> c)\<rparr>"

lemma store_sels [simp]:
  "lim (snd (alloc c s)) = lim s + 1" "fst (alloc c s) = lim s"
  "lim (assign a c s) = lim s" "cells (assign a c s) = (cells s)(a \<mapsto> c)"
  "cells (snd (alloc c s)) = (cells s)(lim s \<mapsto> c)"
  by (simp_all add: alloc_def assign_def)

text \<open>What was allocated stays as it is.\<close>

definition grows :: "'c store \<Rightarrow> 'c store \<Rightarrow> bool" where
  "grows s t \<longleftrightarrow> lim s \<le> lim t \<and> (\<forall>a<lim s. cells t a = cells s a)"

lemma grows_refl [simp]: "grows s s"
  by (simp add: grows_def)

lemma grows_trans [trans]: "grows s t \<Longrightarrow> grows t u \<Longrightarrow> grows s u"
  by (auto simp: grows_def)

lemma grows_alloc: "grows s (snd (alloc c s))"
  by (simp add: grows_def)

lemma grows_assign: "grows s t \<Longrightarrow> lim s \<le> a \<Longrightarrow> grows s (assign a c t)"
  by (auto simp: grows_def)

text \<open>A slice: nil, or a window of an array\<close>

datatype slice = NilSlice | Slice addr nat nat

section \<open>Copiers\<close>

locale view =
  fixes fp :: "'v \<Rightarrow> 'c store \<Rightarrow> addr set" and rd :: "'v \<Rightarrow> 'c store \<Rightarrow> 'a"
  assumes frame: "(\<And>a. a \<in> fp v s \<Longrightarrow> cells t a = cells s a) \<Longrightarrow> fp v t = fp v s \<and> rd v t = rd v s"
begin

lemma grown: "fp v s \<subseteq> {..<lim s} \<Longrightarrow> grows s t \<Longrightarrow> fp v t = fp v s \<and> rd v t = rd v s"
  by (rule frame) (auto simp: grows_def)

end

locale copier = view fp rd
  for fp :: "'v \<Rightarrow> 'c store \<Rightarrow> addr set" and rd :: "'v \<Rightarrow> 'c store \<Rightarrow> 'a" +
  fixes copy :: "'v \<Rightarrow> 'c store \<Rightarrow> 'v \<times> 'c store"
  assumes copies: "fp v s \<subseteq> {..<lim s} \<Longrightarrow> copy v s = (v', s') \<Longrightarrow>
      grows s s' \<and> rd v' s' = rd v s \<and> fp v' s' \<subseteq> {lim s..<lim s'}"
begin

text \<open>Nothing done to the cells there were before the copy is seen through the copy.\<close>

lemma copy_unaffected:
  assumes "fp v s \<subseteq> {..<lim s}" and "copy v s = (v', s')" and "\<And>a. lim s \<le> a \<Longrightarrow> cells t a = cells s' a"
  shows "rd v' t = rd v s"
proof -
  note c = copies [OF assms(1,2)]
  have "rd v' t = rd v' s'" by (rule frame [THEN conjunct2]) (use c assms(3) in auto)
  with c show ?thesis by simp
qed

text \<open>Nothing done to the cells of the copy is seen through the original.\<close>

lemma original_unaffected:
  assumes "fp v s \<subseteq> {..<lim s}" and "copy v s = (v', s')" and "\<And>a. a < lim s \<Longrightarrow> cells t a = cells s' a"
  shows "rd v t = rd v s"
proof (rule frame [THEN conjunct2])
  fix a assume "a \<in> fp v s"
  with copies [OF assms(1,2)] assms(1,3) show "cells t a = cells s a" by (auto simp: grows_def)
qed

end

section \<open>Combinators\<close>

lemmas copier_frame = view.frame [OF copier.axioms(1)]
lemmas copier_grown = view.grown [OF copier.axioms(1)]

lemma copierI:
  assumes "\<And>v s t :: 'c store. (\<And>a. a \<in> fp v s \<Longrightarrow> cells t a = cells s a) \<Longrightarrow> fp v t = fp v s \<and> rd v t = rd v s"
    and "\<And>v s v' s'. fp v s \<subseteq> {..<lim s} \<Longrightarrow> copy v s = (v', s') \<Longrightarrow>
      grows s s' \<and> rd v' s' = rd v s \<and> fp v' s' \<subseteq> {lim s..<lim s'}"
  shows "copier fp rd copy"
  by (intro copier.intro view.intro copier_axioms.intro assms)

text \<open>A value without pointers is its own copy.\<close>

lemma copier_pure: "copier (\<lambda>v s. {}) (\<lambda>v s. v) Pair"
  by (rule copierI) auto

text \<open>Two parts, one after the other\<close>

definition fp_two where "fp_two fp1 fp2 = (\<lambda>(x, y) s. fp1 x s \<union> fp2 y s)"
definition rd_two where "rd_two rd1 rd2 = (\<lambda>(x, y) s. (rd1 x s, rd2 y s))"
definition copy_two where
  "copy_two c1 c2 = (\<lambda>(x, y) s. let (x', s1) = c1 x s; (y', s2) = c2 y s1 in ((x', y'), s2))"

lemma copier_two:
  fixes fp1 :: "'v \<Rightarrow> 'c store \<Rightarrow> addr set"
  assumes 1: "copier fp1 rd1 c1" and 2: "copier fp2 rd2 c2"
  shows "copier (fp_two fp1 fp2) (rd_two rd1 rd2) (copy_two c1 c2)"
proof (rule copierI)
  fix v s and t :: "'c store" assume same: "\<And>a. a \<in> fp_two fp1 fp2 v s \<Longrightarrow> cells t a = cells s a"
  obtain x y where v: "v = (x, y)" by (cases v)
  show "fp_two fp1 fp2 v t = fp_two fp1 fp2 v s \<and> rd_two rd1 rd2 v t = rd_two rd1 rd2 v s"
    using copier_frame [OF 1, of x s t] copier_frame [OF 2, of y s t] same by (simp add: v fp_two_def rd_two_def)
next
  fix v s v' s' assume fp: "fp_two fp1 fp2 v s \<subseteq> {..<lim s}" and run: "copy_two c1 c2 v s = (v', s')"
  obtain x y where v: "v = (x, y)" by (cases v)
  obtain x' s1 where c1: "c1 x s = (x', s1)" by fastforce
  obtain y' where c2: "c2 y s1 = (y', s')" and v': "v' = (x', y')"
    using run c1 by (auto simp: copy_two_def v split: prod.splits)
  have f: "fp1 x s \<subseteq> {..<lim s}" "fp2 y s \<subseteq> {..<lim s}" using fp by (auto simp: fp_two_def v)
  note a = copier.copies [OF 1 f(1) c1]
  note y = copier_grown [OF 2 f(2) a [THEN conjunct1]]
  have f2: "fp2 y s1 \<subseteq> {..<lim s1}" using y f(2) a by (auto simp: grows_def)
  note b = copier.copies [OF 2 f2 c2]
  have fx: "fp1 x' s1 \<subseteq> {..<lim s1}" using a by auto
  note x = copier_grown [OF 1 fx b [THEN conjunct1]]
  show "grows s s' \<and> rd_two rd1 rd2 v' s' = rd_two rd1 rd2 v s \<and> fp_two fp1 fp2 v' s' \<subseteq> {lim s..<lim s'}"
    using a b x y grows_trans [of s s1 s'] by (auto simp: v v' fp_two_def rd_two_def grows_def)
qed

text \<open>A struct with one part that holds pointers: its other fields are in \<open>v\<close>.\<close>

lemma copier_struct:
  fixes fp :: "'p \<Rightarrow> 'c store \<Rightarrow> addr set"
  assumes c: "copier fp rd copy" and inv: "\<And>v x. part (put v x) = x"
    and look: "\<And>v x r. look (put v x) r = look v r"
  shows "copier (\<lambda>v. fp (part v)) (\<lambda>v s. look v (rd (part v) s))
    (\<lambda>v s. let (x, s') = copy (part v) s in (put v x, s'))"
proof (rule copierI)
  fix v s and t :: "'c store" assume "\<And>a. a \<in> fp (part v) s \<Longrightarrow> cells t a = cells s a"
  from copier_frame [OF c this] show "fp (part v) t = fp (part v) s \<and> look v (rd (part v) t) = look v (rd (part v) s)"
    by simp
next
  fix v s v' s' assume fp: "fp (part v) s \<subseteq> {..<lim s}"
    and run: "(let (x, s') = copy (part v) s in (put v x, s')) = (v', s')"
  obtain x s1 where 1: "copy (part v) s = (x, s1)" by fastforce
  with run copier.copies [OF c fp 1]
  show "grows s s' \<and> look v' (rd (part v') s') = look v (rd (part v) s) \<and> fp (part v') s' \<subseteq> {lim s..<lim s'}"
    by (auto simp: inv look)
qed

text \<open>A slice: \<open>make\<close> of an array as long as the slice, then its elements, in order\<close>

fun copy_elems :: "('v \<Rightarrow> 'c store \<Rightarrow> 'v \<times> 'c store) \<Rightarrow> 'v list \<Rightarrow> 'c store \<Rightarrow> 'v list \<times> 'c store" where
  "copy_elems copy [] s = ([], s)"
| "copy_elems copy (x # xs) s =
     (let (y, s1) = copy x s; (ys, s2) = copy_elems copy xs s1 in (y # ys, s2))"

definition elems :: "('c \<Rightarrow> 'v list) \<Rightarrow> slice \<Rightarrow> 'c store \<Rightarrow> 'v list" where
  "elems un sl s = (case sl of NilSlice \<Rightarrow> []
     | Slice a off n \<Rightarrow> (case cells s a of Some c \<Rightarrow> take n (drop off (un c)) | None \<Rightarrow> []))"

definition fp_slice where
  "fp_slice un fp sl s = (case sl of NilSlice \<Rightarrow> {} | Slice a off n \<Rightarrow> {a}) \<union> (\<Union>x\<in>set (elems un sl s). fp x s)"

definition rd_slice where
  "rd_slice un rd sl s = (if sl = NilSlice then None else Some (map (\<lambda>x. rd x s) (elems un sl s)))"

definition copy_slice where
  "copy_slice un mk copy sl s =
     (case sl of
        NilSlice \<Rightarrow> (NilSlice, s)
      | Slice a off n \<Rightarrow>
          (let (a', s1) = alloc (mk []) s; (ys, s2) = copy_elems copy (elems un sl s) s1
           in (Slice a' 0 n, assign a' (mk ys) s2)))"

lemma copy_elems_copies:
  assumes c: "copier fp rd copy"
  shows "(\<And>x. x \<in> set xs \<Longrightarrow> fp x s \<subseteq> {..<lim s}) \<Longrightarrow> copy_elems copy xs s = (ys, s') \<Longrightarrow>
    grows s s' \<and> length ys = length xs \<and> map (\<lambda>y. rd y s') ys = map (\<lambda>x. rd x s) xs
    \<and> (\<Union>y\<in>set ys. fp y s') \<subseteq> {lim s..<lim s'}"
proof (induction xs arbitrary: s ys)
  case (Cons x xs)
  obtain y s1 where 1: "copy x s = (y, s1)" by fastforce
  obtain zs where 2: "copy_elems copy xs s1 = (zs, s')" and ys: "ys = y # zs"
    using Cons.prems(2) 1 by (auto split: prod.splits)
  have px: "fp x s \<subseteq> {..<lim s}" by (rule Cons.prems(1)) simp
  from copier.copies [OF c px 1] have g1: "grows s s1" and r1: "rd y s1 = rd x s" and f1: "fp y s1 \<subseteq> {lim s..<lim s1}"
    by simp_all
  have old: "fp x' s1 = fp x' s \<and> rd x' s1 = rd x' s" if "x' \<in> set xs" for x'
    by (rule copier_grown [OF c _ g1], rule Cons.prems(1)) (simp add: that)
  have "fp x' s1 \<subseteq> {..<lim s1}" if "x' \<in> set xs" for x'
    using old [OF that] Cons.prems(1) [of x'] that g1 by (fastforce simp: grows_def)
  from Cons.IH [OF this 2] have g2: "grows s1 s'" and l: "length zs = length xs"
    and r2: "map (\<lambda>y. rd y s') zs = map (\<lambda>x. rd x s1) xs" and f2: "(\<Union>y\<in>set zs. fp y s') \<subseteq> {lim s1..<lim s'}"
    by simp_all
  have "fp y s1 \<subseteq> {..<lim s1}" using f1 by auto
  note y = copier_grown [OF c this g2]
  have "map (\<lambda>x. rd x s1) xs = map (\<lambda>x. rd x s) xs" using old by simp
  moreover have "fp y s' \<subseteq> {lim s..<lim s'}" using f1 y g2 by (fastforce simp: grows_def)
  moreover have "(\<Union>y\<in>set zs. fp y s') \<subseteq> {lim s..<lim s'}" using f2 g1 by (fastforce simp: grows_def)
  ultimately show ?case using grows_trans [OF g1 g2] l r1 r2 y by (simp add: ys)
qed simp

lemma elems_frame:
  "(\<And>a. a \<in> fp_slice un fp sl s \<Longrightarrow> cells t a = cells s a) \<Longrightarrow> elems un sl t = elems un sl s"
  by (simp add: elems_def fp_slice_def split: slice.splits)

text \<open>A copied slice: a new array whose elements are the copies, all of them above the old limit\<close>

lemma copy_slice_elems:
  fixes fp :: "'v \<Rightarrow> 'c store \<Rightarrow> addr set"
  assumes c: "copier fp rd copy" and un: "\<And>ys. un (mk ys) = ys"
    and fp: "fp_slice un fp (Slice a off n) s \<subseteq> {..<lim s}"
    and run: "copy_slice un mk copy (Slice a off n) s = (sl', s')"
  obtains ys where "sl' = Slice (lim s) 0 n" and "elems un sl' s' = ys" and "grows s s'" and "lim s < lim s'"
    and "map (\<lambda>y. rd y s') ys = map (\<lambda>x. rd x s) (elems un (Slice a off n) s)"
    and "(\<Union>y\<in>set ys. fp y s') \<subseteq> {lim s + 1..<lim s'}"
proof -
  let ?xs = "elems un (Slice a off n) s" and ?s1 = "snd (alloc (mk []) s)"
  obtain ys s2 where 2: "copy_elems copy ?xs ?s1 = (ys, s2)" by fastforce
  have sl': "sl' = Slice (lim s) 0 n" and s': "s' = assign (lim s) (mk ys) s2"
    using run 2 by (simp_all add: copy_slice_def alloc_def)
  have g1: "grows s ?s1" by (rule grows_alloc)
  have px: "fp x s \<subseteq> {..<lim s}" if "x \<in> set ?xs" for x using fp that by (auto simp: fp_slice_def)
  note old = copier_grown [OF c px g1]
  have "fp x ?s1 \<subseteq> {..<lim ?s1}" if "x \<in> set ?xs" for x using old [OF that] px [OF that] by auto
  from copy_elems_copies [OF c this 2] have g2: "grows ?s1 s2" and l: "length ys = length ?xs"
    and r: "map (\<lambda>y. rd y s2) ys = map (\<lambda>x. rd x ?s1) ?xs" and f: "(\<Union>y\<in>set ys. fp y s2) \<subseteq> {lim s + 1..<lim s2}"
    by simp_all
  have new: "fp y s' = fp y s2 \<and> rd y s' = rd y s2" if "y \<in> set ys" for y
    by (rule copier_frame [OF c]) (use f that in \<open>auto simp: s'\<close>)
  have "length ys \<le> n" by (simp add: l elems_def split: option.split)
  then have "elems un sl' s' = ys" by (simp add: elems_def sl' s' un)
  moreover have "grows s s'" unfolding s' by (rule grows_assign [OF grows_trans [OF g1 g2]]) simp
  moreover have "lim s < lim s'" using g2 by (simp add: s' grows_def)
  moreover have "map (\<lambda>y. rd y s') ys = map (\<lambda>x. rd x s) ?xs"
  proof -
    have "map (\<lambda>y. rd y s') ys = map (\<lambda>y. rd y s2) ys" using new by simp
    also have "\<dots> = map (\<lambda>x. rd x ?s1) ?xs" by (rule r)
    also have "\<dots> = map (\<lambda>x. rd x s) ?xs" using old by (meson map_eq_conv)
    finally show ?thesis .
  qed
  moreover have "(\<Union>y\<in>set ys. fp y s') \<subseteq> {lim s + 1..<lim s'}" using f new by (simp add: s')
  ultimately show ?thesis using sl' that by blast
qed

lemma copier_slice:
  fixes fp :: "'v \<Rightarrow> 'c store \<Rightarrow> addr set"
  assumes c: "copier fp rd copy" and un: "\<And>ys. un (mk ys) = ys"
  shows "copier (fp_slice un fp) (rd_slice un rd) (copy_slice un mk copy)"
proof (rule copierI)
  fix sl s and t :: "'c store" assume same: "\<And>a. a \<in> fp_slice un fp sl s \<Longrightarrow> cells t a = cells s a"
  have e: "elems un sl t = elems un sl s" by (rule elems_frame [OF same])
  have "fp x t = fp x s \<and> rd x t = rd x s" if "x \<in> set (elems un sl s)" for x
    by (rule copier_frame [OF c], rule same) (use that in \<open>auto simp: fp_slice_def\<close>)
  with e show "fp_slice un fp sl t = fp_slice un fp sl s \<and> rd_slice un rd sl t = rd_slice un rd sl s"
    by (simp add: fp_slice_def rd_slice_def)
next
  fix sl s sl' s' assume fp: "fp_slice un fp sl s \<subseteq> {..<lim s}" and run: "copy_slice un mk copy sl s = (sl', s')"
  show "grows s s' \<and> rd_slice un rd sl' s' = rd_slice un rd sl s \<and> fp_slice un fp sl' s' \<subseteq> {lim s..<lim s'}"
  proof (cases sl)
    case NilSlice
    with run show ?thesis by (simp add: copy_slice_def fp_slice_def rd_slice_def elems_def)
  next
    case (Slice a off n)
    obtain ys where sl': "sl' = Slice (lim s) 0 n" and e: "elems un sl' s' = ys" and g: "grows s s'" "lim s < lim s'"
      and r: "map (\<lambda>y. rd y s') ys = map (\<lambda>x. rd x s) (elems un sl s)"
      and f: "(\<Union>y\<in>set ys. fp y s') \<subseteq> {lim s + 1..<lim s'}"
      using copy_slice_elems [OF c un fp [unfolded Slice] run [unfolded Slice]] unfolding Slice by metis
    have "rd_slice un rd sl' s' = rd_slice un rd sl s" using r by (simp add: rd_slice_def e) (simp add: sl' Slice)
    moreover have "fp_slice un fp sl' s' \<subseteq> {lim s..<lim s'}"
      using f g(2) by (simp add: fp_slice_def e) (auto simp: sl')
    ultimately show ?thesis using g(1) by simp
  qed
qed

text \<open>
  A pointer to a struct: \<open>DeepCopy\<close> of a nil pointer is nil, of any other a new struct, into
  which \<open>DeepCopyInto\<close> copies; its first statement \<open>*out = *in\<close> is the initial value.
\<close>

definition deref :: "('c \<Rightarrow> 'v option) \<Rightarrow> addr option \<Rightarrow> 'c store \<Rightarrow> 'v option" where
  "deref un p s = (case p of None \<Rightarrow> None | Some a \<Rightarrow> (case cells s a of None \<Rightarrow> None | Some c \<Rightarrow> un c))"

definition fp_ptr where
  "fp_ptr un fp p s = (case p of None \<Rightarrow> {} | Some a \<Rightarrow> {a}) \<union> (case deref un p s of None \<Rightarrow> {} | Some v \<Rightarrow> fp v s)"

definition rd_ptr where "rd_ptr un rd p s = map_option (\<lambda>v. rd v s) (deref un p s)"

definition copy_ptr where
  "copy_ptr un mk copy_into p s =
     (case deref un p s of
        None \<Rightarrow> (None, s)
      | Some v \<Rightarrow>
          (let (out, s1) = alloc (mk v) s; (v', s2) = copy_into v s1
           in (Some out, assign out (mk v') s2)))"

lemma copier_ptr:
  fixes fp :: "'v \<Rightarrow> 'c store \<Rightarrow> addr set"
  assumes c: "copier fp rd copy" and un: "\<And>v. un (mk v) = Some v"
  shows "copier (fp_ptr un fp) (rd_ptr un rd) (copy_ptr un mk copy)"
proof (rule copierI)
  fix p s and t :: "'c store" assume same: "\<And>a. a \<in> fp_ptr un fp p s \<Longrightarrow> cells t a = cells s a"
  have d: "deref un p t = deref un p s"
    using same by (simp add: deref_def fp_ptr_def split: option.splits)
  have "fp v t = fp v s \<and> rd v t = rd v s" if "deref un p s = Some v" for v
    by (rule copier_frame [OF c], rule same) (use that in \<open>auto simp: fp_ptr_def\<close>)
  with d show "fp_ptr un fp p t = fp_ptr un fp p s \<and> rd_ptr un rd p t = rd_ptr un rd p s"
    by (simp add: fp_ptr_def rd_ptr_def split: option.split)
next
  fix p s p' s' assume fp: "fp_ptr un fp p s \<subseteq> {..<lim s}" and run: "copy_ptr un mk copy p s = (p', s')"
  show "grows s s' \<and> rd_ptr un rd p' s' = rd_ptr un rd p s \<and> fp_ptr un fp p' s' \<subseteq> {lim s..<lim s'}"
  proof (cases "deref un p s")
    case None
    with run have "p' = None" "s' = s" by (simp_all add: copy_ptr_def)
    then show ?thesis using None by (simp add: rd_ptr_def fp_ptr_def) (simp add: deref_def)
  next
    case (Some v)
    let ?s1 = "snd (alloc (mk v) s)"
    obtain v' s2 where 2: "copy v ?s1 = (v', s2)" by fastforce
    have p': "p' = Some (lim s)" and s': "s' = assign (lim s) (mk v') s2"
      using run 2 by (simp_all add: copy_ptr_def Some alloc_def)
    have g1: "grows s ?s1" by (rule grows_alloc)
    have pv: "fp v s \<subseteq> {..<lim s}" using fp Some by (auto simp: fp_ptr_def)
    note old = copier_grown [OF c pv g1]
    have "fp v ?s1 \<subseteq> {..<lim ?s1}" using old pv by auto
    from copier.copies [OF c this 2] have g2: "grows ?s1 s2" and r: "rd v' s2 = rd v ?s1"
      and f: "fp v' s2 \<subseteq> {lim s + 1..<lim s2}" by simp_all
    have new: "fp v' s' = fp v' s2 \<and> rd v' s' = rd v' s2"
      by (rule copier_frame [OF c]) (use f in \<open>auto simp: s'\<close>)
    have d: "deref un p' s' = Some v'" by (simp add: deref_def p' s' un)
    have "grows s s'" unfolding s' by (rule grows_assign [OF grows_trans [OF g1 g2]]) simp
    moreover have "fp_ptr un fp p' s' \<subseteq> {lim s..<lim s'}"
      using f new g2 by (auto simp: fp_ptr_def d) (auto simp: p' s' grows_def)
    ultimately show ?thesis using r new old by (simp add: rd_ptr_def d Some)
  qed
qed

end
