(* ===== verification/Deep_Copy.thy ===== *)
theory Deep_Copy
  imports Deep_Store
begin

text \<open>
  The generated methods of \<open>platform/k8s/types/v1alpha1/zz_generated.deepcopy.go\<close>, on the structs as Go has
  them: \<open>Agents\<close>, \<open>JobRefs\<close> and \<open>Items\<close> are slices, the times of a job's status pointers. A
  \<open>DeepCopyInto\<close> is called with an \<open>out\<close> that does not overlap \<open>in\<close>; it is the function from what \<open>in\<close> points
  to to what it writes to \<open>out\<close>. The copies of \<open>ObjectMeta\<close>, \<open>ListMeta\<close> and \<open>Time\<close> belong to the API
  machinery and are parameters. The reading of a Go value is the value of \<open>K8s_Types\<close> the
  reconcilers are modelled on.
\<close>

section \<open>The structs\<close>

record TypeMeta =
  tm_Kind :: string
  tm_APIVersion :: string

record goAgentJobSpec =
  gjs_TenantRef :: string
  gjs_Trigger :: TriggerSpec
  gjs_Agents :: slice
  gjs_MessageBus :: JobBusSpec
  gjs_TTLAfterCompletion :: int32

record goAgentJobStatus =
  gjst_Phase :: string
  gjst_ActiveAgents :: int32
  gjst_StartedAt :: "addr option"
  gjst_CompletedAt :: "addr option"

record 'm goAgentJob =
  gaj_Type :: TypeMeta
  gaj_Meta :: 'm
  gaj_Spec :: goAgentJobSpec
  gaj_Status :: goAgentJobStatus

record goAgentFleetSpec =
  gfs_TenantRef :: string
  gfs_JobRefs :: slice

record 'm goAgentFleet =
  gaf_Type :: TypeMeta
  gaf_Meta :: 'm
  gaf_Spec :: goAgentFleetSpec
  gaf_Status :: AgentFleetStatus

record 'm goTenant =
  gt_Type :: TypeMeta
  gt_Meta :: 'm
  gt_Spec :: TenantSpec
  gt_Status :: TenantStatus

text \<open>\<open>AgentJobList\<close>, \<open>AgentFleetList\<close> and \<open>TenantList\<close> differ in the type of their items only.\<close>

record 'l goList =
  gl_Type :: TypeMeta
  gl_Meta :: 'l
  gl_Items :: slice

text \<open>What an address can hold: an array, a struct that is pointed to, a cell of the library\<close>

datatype ('m, 'l, 'x) cell =
    CRoles "AgentRoleSpec list" | CStrings "string list"
  | CJobs "'m goAgentJob list" | CFleets "'m goAgentFleet list" | CTenants "'m goTenant list"
  | is_PTime: PTime (of_PTime: instant)
  | is_PJob: PJob (of_PJob: "'m goAgentJob") | is_PJobList: PJobList (of_PJobList: "'l goList")
  | is_PJobSpec: PJobSpec (of_PJobSpec: goAgentJobSpec) | is_PJobStatus: PJobStatus (of_PJobStatus: goAgentJobStatus)
  | is_PFleet: PFleet (of_PFleet: "'m goAgentFleet") | is_PFleetList: PFleetList (of_PFleetList: "'l goList")
  | is_PFleetSpec: PFleetSpec (of_PFleetSpec: goAgentFleetSpec)
  | is_PFleetStatus: PFleetStatus (of_PFleetStatus: AgentFleetStatus)
  | is_PTenant: PTenant (of_PTenant: "'m goTenant") | is_PTenantList: PTenantList (of_PTenantList: "'l goList")
  | is_PTenantSpec: PTenantSpec (of_PTenantSpec: TenantSpec) | is_PTenantStatus: PTenantStatus (of_PTenantStatus: TenantStatus)
  | is_PTenantBus: PTenantBus (of_PTenantBus: TenantBusSpec) | is_PRole: PRole (of_PRole: AgentRoleSpec)
  | is_PJobBus: PJobBus (of_PJobBus: JobBusSpec) | is_PTrigger: PTrigger (of_PTrigger: TriggerSpec)
  | CLib 'x

definition pick :: "('c \<Rightarrow> bool) \<Rightarrow> ('c \<Rightarrow> 'v) \<Rightarrow> 'c \<Rightarrow> 'v option" where
  "pick is_P of_P c = (if is_P c then Some (of_P c) else None)"

definition roles_in :: "('m, 'l, 'x) cell \<Rightarrow> AgentRoleSpec list" where
  "roles_in c = (case c of CRoles xs \<Rightarrow> xs | _ \<Rightarrow> [])"

definition strings_in :: "('m, 'l, 'x) cell \<Rightarrow> string list" where
  "strings_in c = (case c of CStrings xs \<Rightarrow> xs | _ \<Rightarrow> [])"

definition jobs_in :: "('m, 'l, 'x) cell \<Rightarrow> 'm goAgentJob list" where
  "jobs_in c = (case c of CJobs xs \<Rightarrow> xs | _ \<Rightarrow> [])"

definition fleets_in :: "('m, 'l, 'x) cell \<Rightarrow> 'm goAgentFleet list" where
  "fleets_in c = (case c of CFleets xs \<Rightarrow> xs | _ \<Rightarrow> [])"

definition tenants_in :: "('m, 'l, 'x) cell \<Rightarrow> 'm goTenant list" where
  "tenants_in c = (case c of CTenants xs \<Rightarrow> xs | _ \<Rightarrow> [])"

lemma arrays_in [simp]:
  "roles_in (CRoles rs) = rs" "strings_in (CStrings ss) = ss" "jobs_in (CJobs js) = js"
  "fleets_in (CFleets fs) = fs" "tenants_in (CTenants ts) = ts"
  by (simp_all add: roles_in_def strings_in_def jobs_in_def fleets_in_def tenants_in_def)

type_synonym ('m, 'l, 'x) heap = "('m, 'l, 'x) cell store"

text \<open>\<open>ObjectMeta.DeepCopyInto\<close>, \<open>ListMeta.DeepCopyInto\<close> and \<open>(*Time).DeepCopy\<close>\<close>

record ('m, 'l, 'x) meta_lib =
  ml_ObjectMeta :: "'m \<Rightarrow> ('m, 'l, 'x) heap \<Rightarrow> 'm \<times> ('m, 'l, 'x) heap"
  ml_ListMeta :: "'l \<Rightarrow> ('m, 'l, 'x) heap \<Rightarrow> 'l \<times> ('m, 'l, 'x) heap"
  ml_Time :: "addr option \<Rightarrow> ('m, 'l, 'x) heap \<Rightarrow> addr option \<times> ('m, 'l, 'x) heap"

section \<open>DeepCopyInto\<close>

definition AgentFleetStatus_DeepCopyInto :: "AgentFleetStatus \<Rightarrow> 'c store \<Rightarrow> AgentFleetStatus \<times> 'c store" where
  "AgentFleetStatus_DeepCopyInto v s = (v, s)"

definition AgentRoleSpec_DeepCopyInto :: "AgentRoleSpec \<Rightarrow> 'c store \<Rightarrow> AgentRoleSpec \<times> 'c store" where
  "AgentRoleSpec_DeepCopyInto v s = (v, s)"

definition JobBusSpec_DeepCopyInto :: "JobBusSpec \<Rightarrow> 'c store \<Rightarrow> JobBusSpec \<times> 'c store" where
  "JobBusSpec_DeepCopyInto v s = (v, s)"

definition TenantBusSpec_DeepCopyInto :: "TenantBusSpec \<Rightarrow> 'c store \<Rightarrow> TenantBusSpec \<times> 'c store" where
  "TenantBusSpec_DeepCopyInto v s = (v, s)"

definition TenantStatus_DeepCopyInto :: "TenantStatus \<Rightarrow> 'c store \<Rightarrow> TenantStatus \<times> 'c store" where
  "TenantStatus_DeepCopyInto v s = (v, s)"

definition TriggerSpec_DeepCopyInto :: "TriggerSpec \<Rightarrow> 'c store \<Rightarrow> TriggerSpec \<times> 'c store" where
  "TriggerSpec_DeepCopyInto v s = (v, s)"

definition TenantSpec_DeepCopyInto :: "TenantSpec \<Rightarrow> 'c store \<Rightarrow> TenantSpec \<times> 'c store" where
  "TenantSpec_DeepCopyInto v s = (v\<lparr>tsp_MessageBus := tsp_MessageBus v\<rparr>, s)"

definition AgentJobSpec_DeepCopyInto ::
    "goAgentJobSpec \<Rightarrow> ('m, 'l, 'x) heap \<Rightarrow> goAgentJobSpec \<times> ('m, 'l, 'x) heap" where
  "AgentJobSpec_DeepCopyInto v s =
     (let (agents, s1) = copy_slice roles_in CRoles Pair (gjs_Agents v) s
      in (v\<lparr>gjs_Trigger := gjs_Trigger v, gjs_Agents := agents, gjs_MessageBus := gjs_MessageBus v\<rparr>, s1))"

definition copy_time ::
    "('m, 'l, 'x) meta_lib \<Rightarrow> addr option \<Rightarrow> ('m, 'l, 'x) heap \<Rightarrow> addr option \<times> ('m, 'l, 'x) heap" where
  "copy_time lib p s = (if p \<noteq> None then ml_Time lib p s else (p, s))"

definition AgentJobStatus_DeepCopyInto ::
    "('m, 'l, 'x) meta_lib \<Rightarrow> goAgentJobStatus \<Rightarrow> ('m, 'l, 'x) heap \<Rightarrow> goAgentJobStatus \<times> ('m, 'l, 'x) heap" where
  "AgentJobStatus_DeepCopyInto lib v s =
     (let (started, s1) = copy_time lib (gjst_StartedAt v) s;
          (completed, s2) = copy_time lib (gjst_CompletedAt v) s1
      in (v\<lparr>gjst_StartedAt := started, gjst_CompletedAt := completed\<rparr>, s2))"

definition AgentJob_DeepCopyInto ::
    "('m, 'l, 'x) meta_lib \<Rightarrow> 'm goAgentJob \<Rightarrow> ('m, 'l, 'x) heap \<Rightarrow> 'm goAgentJob \<times> ('m, 'l, 'x) heap" where
  "AgentJob_DeepCopyInto lib v s =
     (let (m, s1) = ml_ObjectMeta lib (gaj_Meta v) s;
          (spec, s2) = AgentJobSpec_DeepCopyInto (gaj_Spec v) s1;
          (status, s3) = AgentJobStatus_DeepCopyInto lib (gaj_Status v) s2
      in (v\<lparr>gaj_Type := gaj_Type v, gaj_Meta := m, gaj_Spec := spec, gaj_Status := status\<rparr>, s3))"

definition AgentFleetSpec_DeepCopyInto ::
    "goAgentFleetSpec \<Rightarrow> ('m, 'l, 'x) heap \<Rightarrow> goAgentFleetSpec \<times> ('m, 'l, 'x) heap" where
  "AgentFleetSpec_DeepCopyInto v s =
     (let (refs, s1) = copy_slice strings_in CStrings Pair (gfs_JobRefs v) s
      in (v\<lparr>gfs_JobRefs := refs\<rparr>, s1))"

definition AgentFleet_DeepCopyInto ::
    "('m, 'l, 'x) meta_lib \<Rightarrow> 'm goAgentFleet \<Rightarrow> ('m, 'l, 'x) heap \<Rightarrow> 'm goAgentFleet \<times> ('m, 'l, 'x) heap" where
  "AgentFleet_DeepCopyInto lib v s =
     (let (m, s1) = ml_ObjectMeta lib (gaf_Meta v) s;
          (spec, s2) = AgentFleetSpec_DeepCopyInto (gaf_Spec v) s1
      in (v\<lparr>gaf_Type := gaf_Type v, gaf_Meta := m, gaf_Spec := spec, gaf_Status := gaf_Status v\<rparr>, s2))"

definition Tenant_DeepCopyInto ::
    "('m, 'l, 'x) meta_lib \<Rightarrow> 'm goTenant \<Rightarrow> ('m, 'l, 'x) heap \<Rightarrow> 'm goTenant \<times> ('m, 'l, 'x) heap" where
  "Tenant_DeepCopyInto lib v s =
     (let (m, s1) = ml_ObjectMeta lib (gt_Meta v) s
      in (v\<lparr>gt_Type := gt_Type v, gt_Meta := m, gt_Spec := gt_Spec v, gt_Status := gt_Status v\<rparr>, s1))"

definition AgentJobList_DeepCopyInto ::
    "('m, 'l, 'x) meta_lib \<Rightarrow> 'l goList \<Rightarrow> ('m, 'l, 'x) heap \<Rightarrow> 'l goList \<times> ('m, 'l, 'x) heap" where
  "AgentJobList_DeepCopyInto lib v s =
     (let (m, s1) = ml_ListMeta lib (gl_Meta v) s;
          (items, s2) = copy_slice jobs_in CJobs (AgentJob_DeepCopyInto lib) (gl_Items v) s1
      in (v\<lparr>gl_Type := gl_Type v, gl_Meta := m, gl_Items := items\<rparr>, s2))"

definition AgentFleetList_DeepCopyInto ::
    "('m, 'l, 'x) meta_lib \<Rightarrow> 'l goList \<Rightarrow> ('m, 'l, 'x) heap \<Rightarrow> 'l goList \<times> ('m, 'l, 'x) heap" where
  "AgentFleetList_DeepCopyInto lib v s =
     (let (m, s1) = ml_ListMeta lib (gl_Meta v) s;
          (items, s2) = copy_slice fleets_in CFleets (AgentFleet_DeepCopyInto lib) (gl_Items v) s1
      in (v\<lparr>gl_Type := gl_Type v, gl_Meta := m, gl_Items := items\<rparr>, s2))"

definition TenantList_DeepCopyInto ::
    "('m, 'l, 'x) meta_lib \<Rightarrow> 'l goList \<Rightarrow> ('m, 'l, 'x) heap \<Rightarrow> 'l goList \<times> ('m, 'l, 'x) heap" where
  "TenantList_DeepCopyInto lib v s =
     (let (m, s1) = ml_ListMeta lib (gl_Meta v) s;
          (items, s2) = copy_slice tenants_in CTenants (Tenant_DeepCopyInto lib) (gl_Items v) s1
      in (v\<lparr>gl_Type := gl_Type v, gl_Meta := m, gl_Items := items\<rparr>, s2))"

section \<open>DeepCopy and DeepCopyObject\<close>

type_synonym ('m, 'l, 'x) deep_copy = "addr option \<Rightarrow> ('m, 'l, 'x) heap \<Rightarrow> addr option \<times> ('m, 'l, 'x) heap"

definition AgentFleetStatus_DeepCopy :: "('m, 'l, 'x) deep_copy" where
  "AgentFleetStatus_DeepCopy = copy_ptr (pick is_PFleetStatus of_PFleetStatus) PFleetStatus AgentFleetStatus_DeepCopyInto"

definition AgentRoleSpec_DeepCopy :: "('m, 'l, 'x) deep_copy" where
  "AgentRoleSpec_DeepCopy = copy_ptr (pick is_PRole of_PRole) PRole AgentRoleSpec_DeepCopyInto"

definition JobBusSpec_DeepCopy :: "('m, 'l, 'x) deep_copy" where
  "JobBusSpec_DeepCopy = copy_ptr (pick is_PJobBus of_PJobBus) PJobBus JobBusSpec_DeepCopyInto"

definition TenantBusSpec_DeepCopy :: "('m, 'l, 'x) deep_copy" where
  "TenantBusSpec_DeepCopy = copy_ptr (pick is_PTenantBus of_PTenantBus) PTenantBus TenantBusSpec_DeepCopyInto"

definition TenantStatus_DeepCopy :: "('m, 'l, 'x) deep_copy" where
  "TenantStatus_DeepCopy = copy_ptr (pick is_PTenantStatus of_PTenantStatus) PTenantStatus TenantStatus_DeepCopyInto"

definition TriggerSpec_DeepCopy :: "('m, 'l, 'x) deep_copy" where
  "TriggerSpec_DeepCopy = copy_ptr (pick is_PTrigger of_PTrigger) PTrigger TriggerSpec_DeepCopyInto"

definition TenantSpec_DeepCopy :: "('m, 'l, 'x) deep_copy" where
  "TenantSpec_DeepCopy = copy_ptr (pick is_PTenantSpec of_PTenantSpec) PTenantSpec TenantSpec_DeepCopyInto"

definition AgentJobSpec_DeepCopy :: "('m, 'l, 'x) deep_copy" where
  "AgentJobSpec_DeepCopy = copy_ptr (pick is_PJobSpec of_PJobSpec) PJobSpec AgentJobSpec_DeepCopyInto"

definition AgentFleetSpec_DeepCopy :: "('m, 'l, 'x) deep_copy" where
  "AgentFleetSpec_DeepCopy = copy_ptr (pick is_PFleetSpec of_PFleetSpec) PFleetSpec AgentFleetSpec_DeepCopyInto"

definition AgentJobStatus_DeepCopy :: "('m, 'l, 'x) meta_lib \<Rightarrow> ('m, 'l, 'x) deep_copy" where
  "AgentJobStatus_DeepCopy lib = copy_ptr (pick is_PJobStatus of_PJobStatus) PJobStatus (AgentJobStatus_DeepCopyInto lib)"

definition AgentJob_DeepCopy :: "('m, 'l, 'x) meta_lib \<Rightarrow> ('m, 'l, 'x) deep_copy" where
  "AgentJob_DeepCopy lib = copy_ptr (pick is_PJob of_PJob) PJob (AgentJob_DeepCopyInto lib)"

definition AgentJobList_DeepCopy :: "('m, 'l, 'x) meta_lib \<Rightarrow> ('m, 'l, 'x) deep_copy" where
  "AgentJobList_DeepCopy lib = copy_ptr (pick is_PJobList of_PJobList) PJobList (AgentJobList_DeepCopyInto lib)"

definition AgentFleet_DeepCopy :: "('m, 'l, 'x) meta_lib \<Rightarrow> ('m, 'l, 'x) deep_copy" where
  "AgentFleet_DeepCopy lib = copy_ptr (pick is_PFleet of_PFleet) PFleet (AgentFleet_DeepCopyInto lib)"

definition AgentFleetList_DeepCopy :: "('m, 'l, 'x) meta_lib \<Rightarrow> ('m, 'l, 'x) deep_copy" where
  "AgentFleetList_DeepCopy lib = copy_ptr (pick is_PFleetList of_PFleetList) PFleetList (AgentFleetList_DeepCopyInto lib)"

definition Tenant_DeepCopy :: "('m, 'l, 'x) meta_lib \<Rightarrow> ('m, 'l, 'x) deep_copy" where
  "Tenant_DeepCopy lib = copy_ptr (pick is_PTenant of_PTenant) PTenant (Tenant_DeepCopyInto lib)"

definition TenantList_DeepCopy :: "('m, 'l, 'x) meta_lib \<Rightarrow> ('m, 'l, 'x) deep_copy" where
  "TenantList_DeepCopy lib = copy_ptr (pick is_PTenantList of_PTenantList) PTenantList (TenantList_DeepCopyInto lib)"

text \<open>\<open>runtime.Object\<close>: an interface value holds the type and the pointer\<close>

datatype runtime_object =
    JobObject addr | JobListObject addr | FleetObject addr | FleetListObject addr | TenantObject addr | TenantListObject addr

definition AgentJob_DeepCopyObject ::
    "('m, 'l, 'x) meta_lib \<Rightarrow> addr option \<Rightarrow> ('m, 'l, 'x) heap \<Rightarrow> runtime_object option \<times> ('m, 'l, 'x) heap" where
  "AgentJob_DeepCopyObject lib p s =
     (case AgentJob_DeepCopy lib p s of (Some c, s1) \<Rightarrow> (Some (JobObject c), s1) | (None, s1) \<Rightarrow> (None, s1))"

definition AgentJobList_DeepCopyObject ::
    "('m, 'l, 'x) meta_lib \<Rightarrow> addr option \<Rightarrow> ('m, 'l, 'x) heap \<Rightarrow> runtime_object option \<times> ('m, 'l, 'x) heap" where
  "AgentJobList_DeepCopyObject lib p s =
     (case AgentJobList_DeepCopy lib p s of (Some c, s1) \<Rightarrow> (Some (JobListObject c), s1) | (None, s1) \<Rightarrow> (None, s1))"

definition AgentFleet_DeepCopyObject ::
    "('m, 'l, 'x) meta_lib \<Rightarrow> addr option \<Rightarrow> ('m, 'l, 'x) heap \<Rightarrow> runtime_object option \<times> ('m, 'l, 'x) heap" where
  "AgentFleet_DeepCopyObject lib p s =
     (case AgentFleet_DeepCopy lib p s of (Some c, s1) \<Rightarrow> (Some (FleetObject c), s1) | (None, s1) \<Rightarrow> (None, s1))"

definition AgentFleetList_DeepCopyObject ::
    "('m, 'l, 'x) meta_lib \<Rightarrow> addr option \<Rightarrow> ('m, 'l, 'x) heap \<Rightarrow> runtime_object option \<times> ('m, 'l, 'x) heap" where
  "AgentFleetList_DeepCopyObject lib p s =
     (case AgentFleetList_DeepCopy lib p s of (Some c, s1) \<Rightarrow> (Some (FleetListObject c), s1) | (None, s1) \<Rightarrow> (None, s1))"

definition Tenant_DeepCopyObject ::
    "('m, 'l, 'x) meta_lib \<Rightarrow> addr option \<Rightarrow> ('m, 'l, 'x) heap \<Rightarrow> runtime_object option \<times> ('m, 'l, 'x) heap" where
  "Tenant_DeepCopyObject lib p s =
     (case Tenant_DeepCopy lib p s of (Some c, s1) \<Rightarrow> (Some (TenantObject c), s1) | (None, s1) \<Rightarrow> (None, s1))"

definition TenantList_DeepCopyObject ::
    "('m, 'l, 'x) meta_lib \<Rightarrow> addr option \<Rightarrow> ('m, 'l, 'x) heap \<Rightarrow> runtime_object option \<times> ('m, 'l, 'x) heap" where
  "TenantList_DeepCopyObject lib p s =
     (case TenantList_DeepCopy lib p s of (Some c, s1) \<Rightarrow> (Some (TenantListObject c), s1) | (None, s1) \<Rightarrow> (None, s1))"

end
