(* ===== verification/Deep_Copy_Laws.thy ===== *)
theory Deep_Copy_Laws
  imports Deep_Copy
begin

text \<open>
  What the generated copies are for: a copy reads as its original and shares no cell with
  anything there was before, so that neither is changed through the other. A reconciler that
  writes to the object it got from the cache's copy does not write to the cache.
\<close>

section \<open>Footprints and readings\<close>

definition items_of :: "'a list option \<Rightarrow> 'a list" where
  "items_of r = (case r of None \<Rightarrow> [] | Some xs \<Rightarrow> xs)"

abbreviation no_fp :: "'v \<Rightarrow> 'c store \<Rightarrow> addr set" where "no_fp v s \<equiv> {}"
abbreviation itself :: "'v \<Rightarrow> 'c store \<Rightarrow> 'v" where "itself v s \<equiv> v"

definition time_fp :: "addr option \<Rightarrow> ('m, 'l, 'x) heap \<Rightarrow> addr set" where
  "time_fp = fp_ptr (pick is_PTime of_PTime) no_fp"

definition time_rd :: "addr option \<Rightarrow> ('m, 'l, 'x) heap \<Rightarrow> instant option" where
  "time_rd = rd_ptr (pick is_PTime of_PTime) itself"

definition jobspec_fp :: "goAgentJobSpec \<Rightarrow> ('m, 'l, 'x) heap \<Rightarrow> addr set" where
  "jobspec_fp v = fp_slice roles_in no_fp (gjs_Agents v)"

text \<open>The flag says that the slice is nil, which the list does not.\<close>

definition jobspec_look :: "goAgentJobSpec \<Rightarrow> AgentRoleSpec list option \<Rightarrow> AgentJobSpec \<times> bool" where
  "jobspec_look v r =
     (\<lparr>js_TenantRef = gjs_TenantRef v, js_Trigger = gjs_Trigger v, js_Agents = items_of r,
       js_MessageBus = gjs_MessageBus v, js_TTLAfterCompletion = gjs_TTLAfterCompletion v\<rparr>, r = None)"

definition jobspec_rd :: "goAgentJobSpec \<Rightarrow> ('m, 'l, 'x) heap \<Rightarrow> AgentJobSpec \<times> bool" where
  "jobspec_rd v s = jobspec_look v (rd_slice roles_in itself (gjs_Agents v) s)"

definition jobstatus_fp :: "goAgentJobStatus \<Rightarrow> ('m, 'l, 'x) heap \<Rightarrow> addr set" where
  "jobstatus_fp v = fp_two time_fp time_fp (gjst_StartedAt v, gjst_CompletedAt v)"

definition jobstatus_look :: "goAgentJobStatus \<Rightarrow> instant option \<times> instant option \<Rightarrow> AgentJobStatus" where
  "jobstatus_look v r =
     \<lparr>jst_Phase = gjst_Phase v, jst_ActiveAgents = gjst_ActiveAgents v, jst_StartedAt = fst r, jst_CompletedAt = snd r\<rparr>"

definition jobstatus_rd :: "goAgentJobStatus \<Rightarrow> ('m, 'l, 'x) heap \<Rightarrow> AgentJobStatus" where
  "jobstatus_rd v s = jobstatus_look v (rd_two time_rd time_rd (gjst_StartedAt v, gjst_CompletedAt v) s)"

text \<open>\<open>fm\<close>, \<open>rm\<close>: the footprint and the reading of the metadata\<close>

definition job_fp :: "('m \<Rightarrow> ('m, 'l, 'x) heap \<Rightarrow> addr set) \<Rightarrow> 'm goAgentJob \<Rightarrow> ('m, 'l, 'x) heap \<Rightarrow> addr set" where
  "job_fp fm v = fp_two fm (fp_two jobspec_fp jobstatus_fp) (gaj_Meta v, gaj_Spec v, gaj_Status v)"

definition job_look ::
    "'m goAgentJob \<Rightarrow> ObjectMeta \<times> (AgentJobSpec \<times> bool) \<times> AgentJobStatus \<Rightarrow> TypeMeta \<times> AgentJob \<times> bool" where
  "job_look v = (\<lambda>(m, (spec, nil), status). (gaj_Type v, \<lparr>aj_Meta = m, aj_Spec = spec, aj_Status = status\<rparr>, nil))"

definition job_rd ::
    "('m \<Rightarrow> ('m, 'l, 'x) heap \<Rightarrow> ObjectMeta) \<Rightarrow> 'm goAgentJob \<Rightarrow> ('m, 'l, 'x) heap \<Rightarrow> TypeMeta \<times> AgentJob \<times> bool" where
  "job_rd rm v s = job_look v (rd_two rm (rd_two jobspec_rd jobstatus_rd) (gaj_Meta v, gaj_Spec v, gaj_Status v) s)"

definition fleetspec_fp :: "goAgentFleetSpec \<Rightarrow> ('m, 'l, 'x) heap \<Rightarrow> addr set" where
  "fleetspec_fp v = fp_slice strings_in no_fp (gfs_JobRefs v)"

definition fleetspec_look :: "goAgentFleetSpec \<Rightarrow> string list option \<Rightarrow> AgentFleetSpec \<times> bool" where
  "fleetspec_look v r = (\<lparr>fs_TenantRef = gfs_TenantRef v, fs_JobRefs = items_of r\<rparr>, r = None)"

definition fleetspec_rd :: "goAgentFleetSpec \<Rightarrow> ('m, 'l, 'x) heap \<Rightarrow> AgentFleetSpec \<times> bool" where
  "fleetspec_rd v s = fleetspec_look v (rd_slice strings_in itself (gfs_JobRefs v) s)"

definition fleet_fp :: "('m \<Rightarrow> ('m, 'l, 'x) heap \<Rightarrow> addr set) \<Rightarrow> 'm goAgentFleet \<Rightarrow> ('m, 'l, 'x) heap \<Rightarrow> addr set" where
  "fleet_fp fm v = fp_two fm fleetspec_fp (gaf_Meta v, gaf_Spec v)"

definition fleet_look ::
    "'m goAgentFleet \<Rightarrow> ObjectMeta \<times> AgentFleetSpec \<times> bool \<Rightarrow> TypeMeta \<times> AgentFleet \<times> bool" where
  "fleet_look v = (\<lambda>(m, spec, nil). (gaf_Type v, \<lparr>af_Meta = m, af_Spec = spec, af_Status = gaf_Status v\<rparr>, nil))"

definition fleet_rd ::
    "('m \<Rightarrow> ('m, 'l, 'x) heap \<Rightarrow> ObjectMeta) \<Rightarrow> 'm goAgentFleet \<Rightarrow> ('m, 'l, 'x) heap \<Rightarrow> TypeMeta \<times> AgentFleet \<times> bool" where
  "fleet_rd rm v s = fleet_look v (rd_two rm fleetspec_rd (gaf_Meta v, gaf_Spec v) s)"

definition tenant_look :: "'m goTenant \<Rightarrow> ObjectMeta \<Rightarrow> TypeMeta \<times> KTenant" where
  "tenant_look v m = (gt_Type v, \<lparr>kt_Meta = m, kt_Spec = gt_Spec v, kt_Status = gt_Status v\<rparr>)"

definition tenant_rd :: "('m \<Rightarrow> ('m, 'l, 'x) heap \<Rightarrow> ObjectMeta) \<Rightarrow> 'm goTenant \<Rightarrow> ('m, 'l, 'x) heap \<Rightarrow> TypeMeta \<times> KTenant" where
  "tenant_rd rm v s = tenant_look v (rm (gt_Meta v) s)"

text \<open>Lists, by the footprint \<open>fi\<close> and the reading \<open>ri\<close> of their items\<close>

definition list_fp where
  "list_fp fl un fi v = fp_two fl (fp_slice un fi) (gl_Meta v, gl_Items v)"

definition list_rd where
  "list_rd rl un ri v s = (gl_Type v, rd_two rl (rd_slice un ri) (gl_Meta v, gl_Items v) s)"

section \<open>The methods are copiers\<close>

interpretation jobspec: copier jobspec_fp jobspec_rd AgentJobSpec_DeepCopyInto
  unfolding jobspec_fp_def [abs_def] jobspec_rd_def [abs_def] AgentJobSpec_DeepCopyInto_def [abs_def]
  by (rule copier_struct [OF copier_slice [OF copier_pure]]) (simp_all add: jobspec_look_def)

interpretation fleetspec: copier fleetspec_fp fleetspec_rd AgentFleetSpec_DeepCopyInto
  unfolding fleetspec_fp_def [abs_def] fleetspec_rd_def [abs_def] AgentFleetSpec_DeepCopyInto_def [abs_def]
  by (rule copier_struct [OF copier_slice [OF copier_pure]]) (simp_all add: fleetspec_look_def)

lemma copier_cong: "copier fp rd c \<Longrightarrow> (\<And>v s. c' v s = c v s) \<Longrightarrow> copier fp rd c'"
  by (metis ext)

text \<open>What the API machinery documents of its copies: they are deep\<close>

definition deep_metadata ::
    "('m, 'l, 'x) meta_lib \<Rightarrow> ('m \<Rightarrow> ('m, 'l, 'x) heap \<Rightarrow> addr set) \<Rightarrow> ('m \<Rightarrow> ('m, 'l, 'x) heap \<Rightarrow> ObjectMeta)
     \<Rightarrow> ('l \<Rightarrow> ('m, 'l, 'x) heap \<Rightarrow> addr set) \<Rightarrow> ('l \<Rightarrow> ('m, 'l, 'x) heap \<Rightarrow> 'r) \<Rightarrow> bool" where
  "deep_metadata lib fm rm fl rl \<longleftrightarrow>
     copier fm rm (ml_ObjectMeta lib) \<and> copier fl rl (ml_ListMeta lib) \<and> copier time_fp time_rd (ml_Time lib)"

lemma copier_time:
  assumes c: "copier time_fp time_rd (ml_Time lib)"
  shows "copier time_fp time_rd (copy_time lib)"
proof (rule copierI)
  fix p p' :: "addr option" and s s' assume "time_fp p s \<subseteq> {..<lim s}" and "copy_time lib p s = (p', s')"
  then show "grows s s' \<and> time_rd p' s' = time_rd p s \<and> time_fp p' s' \<subseteq> {lim s..<lim s'}"
    using copier.copies [OF c, of p s p' s']
    by (cases p) (auto simp: copy_time_def time_fp_def fp_ptr_def deref_def)
qed (rule copier_frame [OF c])

lemma copier_jobstatus:
  assumes "copier time_fp time_rd (ml_Time lib)"
  shows "copier jobstatus_fp jobstatus_rd (AgentJobStatus_DeepCopyInto lib)"
  unfolding jobstatus_fp_def [abs_def] jobstatus_rd_def [abs_def]
  by (rule copier_cong, rule copier_struct [OF copier_two [OF copier_time copier_time], OF assms assms,
        where put = "\<lambda>v x. v\<lparr>gjst_StartedAt := fst x, gjst_CompletedAt := snd x\<rparr>"])
     (simp_all add: jobstatus_look_def AgentJobStatus_DeepCopyInto_def copy_two_def Let_def split: prod.split)

lemma copier_job:
  assumes "deep_metadata lib fm rm fl rl"
  shows "copier (job_fp fm) (job_rd rm) (AgentJob_DeepCopyInto lib)"
  unfolding job_fp_def [abs_def] job_rd_def [abs_def]
  by (rule copier_cong, rule copier_struct [OF copier_two [OF _ copier_two [OF jobspec.copier_axioms copier_jobstatus]],
        where put = "\<lambda>v x. v\<lparr>gaj_Meta := fst x, gaj_Spec := fst (snd x), gaj_Status := snd (snd x)\<rparr>"])
     (use assms in \<open>auto simp: deep_metadata_def job_look_def AgentJob_DeepCopyInto_def copy_two_def Let_def split: prod.split\<close>)

lemma copier_fleet:
  assumes "deep_metadata lib fm rm fl rl"
  shows "copier (fleet_fp fm) (fleet_rd rm) (AgentFleet_DeepCopyInto lib)"
  unfolding fleet_fp_def [abs_def] fleet_rd_def [abs_def]
  by (rule copier_cong, rule copier_struct [OF copier_two [OF _ fleetspec.copier_axioms],
        where put = "\<lambda>v x. v\<lparr>gaf_Meta := fst x, gaf_Spec := snd x\<rparr>"])
     (use assms in \<open>auto simp: deep_metadata_def fleet_look_def AgentFleet_DeepCopyInto_def copy_two_def Let_def split: prod.split\<close>)

lemma copier_tenant:
  assumes "deep_metadata lib fm rm fl rl"
  shows "copier (\<lambda>v. fm (gt_Meta v)) (tenant_rd rm) (Tenant_DeepCopyInto lib)"
  unfolding tenant_rd_def [abs_def]
  by (rule copier_cong, rule copier_struct [where copy = "ml_ObjectMeta lib" and put = "\<lambda>v x. v\<lparr>gt_Meta := x\<rparr>"])
     (use assms in \<open>auto simp: deep_metadata_def tenant_look_def Tenant_DeepCopyInto_def Let_def split: prod.split\<close>)

lemma copier_list:
  assumes "copier fl rl (ml_ListMeta lib)" and "copier fi ri copy" and "\<And>ys. un (mk ys) = ys"
  shows "copier (list_fp fl un fi) (list_rd rl un ri)
    (\<lambda>v s. let (m, s1) = ml_ListMeta lib (gl_Meta v) s; (items, s2) = copy_slice un mk copy (gl_Items v) s1
           in (v\<lparr>gl_Type := gl_Type v, gl_Meta := m, gl_Items := items\<rparr>, s2))"
  unfolding list_fp_def [abs_def] list_rd_def [abs_def]
  by (rule copier_cong, rule copier_struct [OF copier_two [OF assms(1) copier_slice [OF assms(2,3)]],
        where put = "\<lambda>v x. v\<lparr>gl_Meta := fst x, gl_Items := snd x\<rparr>"])
     (auto simp: copy_two_def Let_def split: prod.split)

lemma copier_lists:
  assumes "deep_metadata lib fm rm fl rl"
  shows "copier (list_fp fl jobs_in (job_fp fm)) (list_rd rl jobs_in (job_rd rm)) (AgentJobList_DeepCopyInto lib)"
    and "copier (list_fp fl fleets_in (fleet_fp fm)) (list_rd rl fleets_in (fleet_rd rm)) (AgentFleetList_DeepCopyInto lib)"
    and "copier (list_fp fl tenants_in (\<lambda>v. fm (gt_Meta v))) (list_rd rl tenants_in (tenant_rd rm)) (TenantList_DeepCopyInto lib)"
proof -
  have l: "copier fl rl (ml_ListMeta lib)" using assms by (simp add: deep_metadata_def)
  note j = copier_list [OF l copier_job [OF assms], of jobs_in CJobs]
    and f = copier_list [OF l copier_fleet [OF assms], of fleets_in CFleets]
    and t = copier_list [OF l copier_tenant [OF assms], of tenants_in CTenants]
  show "copier (list_fp fl jobs_in (job_fp fm)) (list_rd rl jobs_in (job_rd rm)) (AgentJobList_DeepCopyInto lib)"
    unfolding AgentJobList_DeepCopyInto_def [abs_def] by (rule j) simp
  show "copier (list_fp fl fleets_in (fleet_fp fm)) (list_rd rl fleets_in (fleet_rd rm)) (AgentFleetList_DeepCopyInto lib)"
    unfolding AgentFleetList_DeepCopyInto_def [abs_def] by (rule f) simp
  show "copier (list_fp fl tenants_in (\<lambda>v. fm (gt_Meta v))) (list_rd rl tenants_in (tenant_rd rm)) (TenantList_DeepCopyInto lib)"
    unfolding TenantList_DeepCopyInto_def [abs_def] by (rule t) simp
qed

section \<open>Objects\<close>

text \<open>
  A copy of a pointer: nil for nil; otherwise it reads as the original, which is unchanged,
  whatever is then written to cells that existed before is not seen through the
  copy, and whatever is written to cells of the copy is not seen through the original.
\<close>

definition separate ::
    "(addr option \<Rightarrow> 'c store \<Rightarrow> addr set) \<Rightarrow> (addr option \<Rightarrow> 'c store \<Rightarrow> 'a)
     \<Rightarrow> (addr option \<Rightarrow> 'c store \<Rightarrow> addr option \<times> 'c store) \<Rightarrow> bool" where
  "separate fp rd copy \<longleftrightarrow>
     (\<forall>s. copy None s = (None, s))
   \<and> (\<forall>p s p' s'. fp p s \<subseteq> {..<lim s} \<longrightarrow> copy p s = (p', s') \<longrightarrow>
        rd p' s' = rd p s \<and> rd p s' = rd p s
      \<and> (\<forall>t. (\<forall>a\<ge>lim s. cells t a = cells s' a) \<longrightarrow> rd p' t = rd p s)
      \<and> (\<forall>t. (\<forall>a<lim s. cells t a = cells s' a) \<longrightarrow> rd p t = rd p s))"

lemma separate_ptr:
  fixes fp :: "'v \<Rightarrow> 'c store \<Rightarrow> addr set"
  assumes "copier fp rd copy" and "\<And>v. un (mk v) = Some v"
  shows "separate (fp_ptr un fp) (rd_ptr un rd) (copy_ptr un mk copy)"
proof -
  have c: "copier (fp_ptr un fp) (rd_ptr un rd) (copy_ptr un mk copy)" by (rule copier_ptr [OF assms])
  have "copy_ptr un mk copy None s = (None, s)" for s by (simp add: copy_ptr_def deref_def)
  then show ?thesis
    unfolding separate_def
    using copier.copies [OF c] copier.copy_unaffected [OF c] copier.original_unaffected [OF c] by metis
qed

lemma DeepCopyObject_DeepCopy:
  "AgentJob_DeepCopyObject lib p s = (map_option JobObject (fst (AgentJob_DeepCopy lib p s)), snd (AgentJob_DeepCopy lib p s))"
  "AgentFleet_DeepCopyObject lib p s = (map_option FleetObject (fst (AgentFleet_DeepCopy lib p s)), snd (AgentFleet_DeepCopy lib p s))"
  "Tenant_DeepCopyObject lib p s = (map_option TenantObject (fst (Tenant_DeepCopy lib p s)), snd (Tenant_DeepCopy lib p s))"
  by (simp_all add: AgentJob_DeepCopyObject_def AgentFleet_DeepCopyObject_def Tenant_DeepCopyObject_def
      split: prod.split option.split)

text \<open>
  C36. The generated deep copies of the three resources and of their lists are deep: when those of
  the metadata are, the copy of an object reads as the object, leaves it as it was, and no
  later write through either is seen through the other; the copy of a nil pointer is nil.
\<close>

theorem deep_copies_are_separate:
  assumes "deep_metadata lib fm rm fl rl"
  shows "separate (fp_ptr (pick is_PJob of_PJob) (job_fp fm)) (rd_ptr (pick is_PJob of_PJob) (job_rd rm)) (AgentJob_DeepCopy lib)
   \<and> separate (fp_ptr (pick is_PFleet of_PFleet) (fleet_fp fm)) (rd_ptr (pick is_PFleet of_PFleet) (fleet_rd rm)) (AgentFleet_DeepCopy lib)
   \<and> separate (fp_ptr (pick is_PTenant of_PTenant) (\<lambda>v. fm (gt_Meta v))) (rd_ptr (pick is_PTenant of_PTenant) (tenant_rd rm)) (Tenant_DeepCopy lib)
   \<and> separate (fp_ptr (pick is_PJobList of_PJobList) (list_fp fl jobs_in (job_fp fm)))
       (rd_ptr (pick is_PJobList of_PJobList) (list_rd rl jobs_in (job_rd rm))) (AgentJobList_DeepCopy lib)
   \<and> separate (fp_ptr (pick is_PFleetList of_PFleetList) (list_fp fl fleets_in (fleet_fp fm)))
       (rd_ptr (pick is_PFleetList of_PFleetList) (list_rd rl fleets_in (fleet_rd rm))) (AgentFleetList_DeepCopy lib)
   \<and> separate (fp_ptr (pick is_PTenantList of_PTenantList) (list_fp fl tenants_in (\<lambda>v. fm (gt_Meta v))))
       (rd_ptr (pick is_PTenantList of_PTenantList) (list_rd rl tenants_in (tenant_rd rm))) (TenantList_DeepCopy lib)"
  unfolding AgentJob_DeepCopy_def AgentFleet_DeepCopy_def Tenant_DeepCopy_def
    AgentJobList_DeepCopy_def AgentFleetList_DeepCopy_def TenantList_DeepCopy_def
  by (intro conjI separate_ptr copier_job [OF assms] copier_fleet [OF assms] copier_tenant [OF assms] copier_lists [OF assms])
     (simp_all add: pick_def)

section \<open>A job in a store\<close>

text \<open>Metadata behind a pointer, copied by allocating\<close>

definition demo_meta :: "addr \<Rightarrow> (addr, unit, ObjectMeta) heap \<Rightarrow> ObjectMeta" where
  "demo_meta a s = (case cells s a of Some (CLib m) \<Rightarrow> m | _ \<Rightarrow> zero_ObjectMeta)"

definition demo_meta_lib :: "(addr, unit, ObjectMeta) meta_lib" where
  "demo_meta_lib =
     \<lparr>ml_ObjectMeta = (\<lambda>a s. alloc (CLib (demo_meta a s)) s), ml_ListMeta = Pair,
      ml_Time = copy_ptr (pick is_PTime of_PTime) PTime Pair\<rparr>"

definition demo_heap :: "(addr, unit, ObjectMeta) heap" where
  "demo_heap = \<lparr>lim = 4, cells =
     [0 \<mapsto> CLib (zero_ObjectMeta\<lparr>om_Name := ''j''\<rparr>),
      1 \<mapsto> CRoles [\<lparr>rs_Role = ''w'', rs_Image = ''i'', rs_Command = [], rs_MaxReplicas = 2\<rparr>],
      2 \<mapsto> PTime 90,
      3 \<mapsto> PJob \<lparr>gaj_Type = \<lparr>tm_Kind = ''AgentJob'', tm_APIVersion = ''muto.io/v1alpha1''\<rparr>, gaj_Meta = 0,
        gaj_Spec = \<lparr>gjs_TenantRef = ''acme'', gjs_Trigger = \<lparr>ts_Type = ''manual'', ts_Source = []\<rparr>,
          gjs_Agents = Slice 1 0 1, gjs_MessageBus = \<lparr>jb_Topic = []\<rparr>, gjs_TTLAfterCompletion = 60\<rparr>,
        gaj_Status = \<lparr>gjst_Phase = ''Running'', gjst_ActiveAgents = 2, gjst_StartedAt = Some 2, gjst_CompletedAt = None\<rparr>\<rparr>]\<rparr>"

lemmas demo_views = fp_ptr_def rd_ptr_def deref_def pick_def job_fp_def job_rd_def job_look_def fp_two_def rd_two_def
  jobspec_fp_def jobspec_rd_def jobspec_look_def jobstatus_fp_def jobstatus_rd_def time_fp_def time_rd_def
  fp_slice_def rd_slice_def elems_def roles_in_def items_of_def demo_meta_def

lemma demo_deep_metadata: "deep_metadata demo_meta_lib (\<lambda>a s. {a}) demo_meta no_fp itself"
  unfolding deep_metadata_def demo_meta_lib_def time_fp_def time_rd_def
  by (auto intro!: copierI simp: demo_meta_def alloc_def grows_def copier_pure copier_ptr pick_def)

text \<open>The array of roles is overwritten after the copy: the copy still reads two workers of the image i.\<close>

theorem deep_copies_are_separate_witness:
  "\<exists>p' s'. AgentJob_DeepCopy demo_meta_lib (Some 3) demo_heap = (p', s') \<and>
     rd_ptr (pick is_PJob of_PJob) (job_rd demo_meta) p' (assign 1 (CRoles []) s')
       = rd_ptr (pick is_PJob of_PJob) (job_rd demo_meta) (Some 3) demo_heap
   \<and> rd_ptr (pick is_PJob of_PJob) (job_rd demo_meta) (Some 3) demo_heap \<noteq> None
   \<and> rd_ptr (pick is_PJob of_PJob) (job_rd demo_meta) (Some 3) (assign 1 (CRoles []) s')
       \<noteq> rd_ptr (pick is_PJob of_PJob) (job_rd demo_meta) (Some 3) demo_heap"
proof -
  let ?fp = "fp_ptr (pick is_PJob of_PJob) (job_fp (\<lambda>a s. {a}))" and ?rd = "rd_ptr (pick is_PJob of_PJob) (job_rd demo_meta)"
  have sep: "separate ?fp ?rd (AgentJob_DeepCopy demo_meta_lib)"
    using deep_copies_are_separate [OF demo_deep_metadata] by blast
  obtain p' s' where run: "AgentJob_DeepCopy demo_meta_lib (Some 3) demo_heap = (p', s')" by fastforce
  have fp: "?fp (Some 3) demo_heap \<subseteq> {..<lim demo_heap}"
    by (simp add: demo_views demo_heap_def)
  have "copier ?fp ?rd (AgentJob_DeepCopy demo_meta_lib)"
    unfolding AgentJob_DeepCopy_def by (rule copier_ptr [OF copier_job [OF demo_deep_metadata]]) (simp add: pick_def)
  from copier.copies [OF this fp run] have "cells s' a = cells demo_heap a" if "a < 4" for a
    using that by (simp add: grows_def demo_heap_def)
  then have changed: "?rd (Some 3) (assign 1 (CRoles []) s') \<noteq> ?rd (Some 3) demo_heap" and "?rd (Some 3) demo_heap \<noteq> None"
    by (simp_all add: demo_views demo_heap_def)
  moreover have "?rd p' (assign 1 (CRoles []) s') = ?rd (Some 3) demo_heap"
  proof -
    have "\<forall>a\<ge>lim demo_heap. cells (assign 1 (CRoles []) s') a = cells s' a" by (simp add: demo_heap_def)
    with sep fp run show ?thesis unfolding separate_def by blast
  qed
  ultimately show ?thesis using run by blast
qed

end
