(* ===== verification/CF_Cache.thy ===== *)
theory CF_Cache
  imports Telemetry
begin

text \<open>
  \<open>platform/cf/cache.go\<close>: the GUID cache of the Cloud Foundry adapter. \<open>cache_get\<close> and
  \<open>cache_set\<close> take the time the clock showed; the locale states what a user of the cache
  relies on, and derives that a cache filled with right answers stays right.
\<close>

section \<open>The cache\<close>

record cacheEntry =
  ce_guid :: string
  ce_expiry :: instant

record guidCache =
  gc_entries :: "string \<rightharpoonup> cacheEntry"
  gc_ttl :: int64

definition newGUIDCache :: "int64 \<Rightarrow> guidCache" where
  "newGUIDCache ttl = \<lparr>gc_entries = Map.empty, gc_ttl = ttl\<rparr>"

definition cache_get :: "guidCache \<Rightarrow> instant \<Rightarrow> string \<Rightarrow> string option" where
  "cache_get c t key =
     (case gc_entries c key of
        None \<Rightarrow> None
      | Some e \<Rightarrow> (if t > ce_expiry e then None else Some (ce_guid e)))"

definition cache_set :: "guidCache \<Rightarrow> instant \<Rightarrow> string \<Rightarrow> string \<Rightarrow> guidCache" where
  "cache_set c t key guid =
     c\<lparr>gc_entries := (gc_entries c)(key \<mapsto> \<lparr>ce_guid = guid, ce_expiry = t + sint (gc_ttl c)\<rparr>)\<rparr>"

definition orgCacheKey :: "string \<Rightarrow> string" where
  "orgCacheKey name = ''org:'' @ name"

definition spaceCacheKey :: "string \<Rightarrow> string \<Rightarrow> string" where
  "spaceCacheKey orgGUID name = ''space:'' @ orgGUID @ '':'' @ name"

lemma cache_keys_distinct [simp]:
  "orgCacheKey n \<noteq> spaceCacheKey g m" "spaceCacheKey g m \<noteq> orgCacheKey n"
  by (simp_all add: orgCacheKey_def spaceCacheKey_def)

lemma orgCacheKey_inject [simp]: "orgCacheKey m = orgCacheKey n \<longleftrightarrow> m = n"
  by (simp add: orgCacheKey_def)

lemma spaceCacheKey_inject:
  "CHR '':'' \<notin> set g \<Longrightarrow> CHR '':'' \<notin> set h \<Longrightarrow> spaceCacheKey g m = spaceCacheKey h n \<Longrightarrow> g = h \<and> m = n"
  by (auto simp: spaceCacheKey_def dest: append_sep_inject)

section \<open>What a user of the cache relies on\<close>

locale guid_cache =
  fixes get :: "'m \<Rightarrow> instant \<Rightarrow> string \<Rightarrow> string option"
    and set_entry :: "'m \<Rightarrow> instant \<Rightarrow> string \<Rightarrow> string \<Rightarrow> 'm"
    and ttl :: "'m \<Rightarrow> int"
  assumes fresh: "t \<le> t' \<Longrightarrow> t' \<le> t + ttl m \<Longrightarrow> get (set_entry m t k g) t' k = Some g"
    and expired: "t + ttl m < t' \<Longrightarrow> get (set_entry m t k g) t' k = None"
    and other: "k \<noteq> k' \<Longrightarrow> get (set_entry m t k g) t' k' = get m t' k'"
    and only_ages: "t \<le> t' \<Longrightarrow> get m t' k = Some g \<Longrightarrow> get m t k = Some g"
    and set_only: "get (set_entry m t k g) t' k = Some h \<Longrightarrow> h = g"
begin

text \<open>\<open>truth\<close> says which answers are right; whatever the cache returns is one.\<close>

definition coherent :: "(string \<Rightarrow> string \<Rightarrow> bool) \<Rightarrow> 'm \<Rightarrow> bool" where
  "coherent truth m \<longleftrightarrow> (\<forall>t k g. get m t k = Some g \<longrightarrow> truth k g)"

lemma coherent_get: "coherent truth m \<Longrightarrow> get m t k = Some g \<Longrightarrow> truth k g"
  by (simp add: coherent_def)

lemma coherent_set: "coherent truth m \<Longrightarrow> truth k g \<Longrightarrow> coherent truth (set_entry m t k g)"
  unfolding coherent_def by (metis other set_only)

text \<open>An answer lasts for the time to live, and no longer.\<close>

lemma lifetime: "t \<le> t' \<Longrightarrow> (get (set_entry m t k g) t' k = Some g) = (t' \<le> t + ttl m)"
  using fresh expired by (metis linorder_not_le option.distinct(1))

end

interpretation cache: guid_cache cache_get cache_set "\<lambda>c. sint (gc_ttl c)"
  by unfold_locales (auto simp: cache_get_def cache_set_def split: option.splits if_splits)

lemma coherent_new: "cache.coherent truth (newGUIDCache ttl)"
  by (simp add: cache.coherent_def cache_get_def newGUIDCache_def)

end
