(* ===== verification/CF_Client.thy ===== *)
theory CF_Client
  imports CF_Cache Platform_Adapter
begin

text \<open>
  \<open>platform/cf/client.go\<close>: the interface \<open>CFClient\<close> and its implementation on the go-cfclient
  library, whose requests are a parameter (\<open>cf_lib\<close>). The adapter's GUID cache is part of
  the world the adapter runs in, beside the foundation the library talks to, so that no
  library call can touch it. Of the library's resources the model keeps the GUID and the
  state.
\<close>

section \<open>World and requests\<close>

record 'f cf_world =
  cw_foundation :: 'f
  cw_cache :: guidCache

record PushRequest =
  pr_Name :: string
  pr_SpaceGUID :: string
  pr_DockerImage :: string
  pr_Buildpacks :: "string list"
  pr_EnvVars :: "(string \<rightharpoonup> string) option"

record TaskRequest =
  tq_Command :: string
  tq_Name :: string
  tq_MemoryInMB :: int64
  tq_DiskInMB :: int64

text \<open>\<open>resource.AppCreate\<close> and \<open>resource.TaskCreate\<close>\<close>

datatype Lifecycle = NoLifecycle | DockerLifecycle string | BuildpackLifecycle "string list"

record AppCreate =
  ac_Name :: string
  ac_SpaceGUID :: string
  ac_EnvironmentVariables :: "(string \<rightharpoonup> string) option"
  ac_Lifecycle :: Lifecycle

record TaskCreate =
  tc_Command :: string
  tc_Name :: "string option"
  tc_MemoryInMB :: "int64 option"
  tc_DiskInMB :: "int64 option"

datatype cf_call =
    CFirstApp string string
  | CCreateApp AppCreate
  | CCreateTask string TaskCreate
  | CGetTask string
  | CCancelTask string
  | CFirstOrg string
  | CFirstSpace string string

record 'f cf_lib =
  cl_FirstApp :: "string \<Rightarrow> string \<Rightarrow> 'f \<Rightarrow> string res \<times> 'f"
  cl_CreateApp :: "AppCreate \<Rightarrow> 'f \<Rightarrow> string res \<times> 'f"
  cl_CreateTask :: "string \<Rightarrow> TaskCreate \<Rightarrow> 'f \<Rightarrow> string res \<times> 'f"
  cl_GetTask :: "string \<Rightarrow> 'f \<Rightarrow> string res \<times> 'f"
  cl_CancelTask :: "string \<Rightarrow> 'f \<Rightarrow> string res \<times> 'f"
  cl_FirstOrg :: "string \<Rightarrow> 'f \<Rightarrow> string res \<times> 'f"
  cl_FirstSpace :: "string \<Rightarrow> string \<Rightarrow> 'f \<Rightarrow> string res \<times> 'f"

type_synonym 'f cf_state = "('f cf_world, cf_call) io_state"

text \<open>A library request works on the foundation only.\<close>

definition on_foundation :: "('f \<Rightarrow> 'a \<times> 'f) \<Rightarrow> 'f cf_world \<Rightarrow> 'a \<times> 'f cf_world" where
  "on_foundation f w = (let (r, x) = f (cw_foundation w) in (r, w\<lparr>cw_foundation := x\<rparr>))"

definition cf_api :: "cf_call \<Rightarrow> ('f \<Rightarrow> 'a res \<times> 'f) \<Rightarrow> 'f cf_state \<Rightarrow> 'a res \<times> 'f cf_state" where
  "cf_api c f = api c (on_foundation f)"

definition cf_now :: "'f os \<Rightarrow> 'f cf_state \<Rightarrow> instant \<times> 'f cf_state" where
  "cf_now os s = (let (t, w) = on_foundation (os_now os) (world s) in (t, s\<lparr>world := w\<rparr>))"

section \<open>The interface\<close>

record 'f CFClient =
  cf_GetAppByName :: "string \<Rightarrow> string \<Rightarrow> 'f cf_state \<Rightarrow> string res \<times> 'f cf_state"
  cf_PushApp :: "PushRequest \<Rightarrow> 'f cf_state \<Rightarrow> string res \<times> 'f cf_state"
  cf_RunTask :: "string \<Rightarrow> TaskRequest \<Rightarrow> 'f cf_state \<Rightarrow> string res \<times> 'f cf_state"
  cf_GetTask :: "string \<Rightarrow> 'f cf_state \<Rightarrow> string res \<times> 'f cf_state"
  cf_CancelTask :: "string \<Rightarrow> 'f cf_state \<Rightarrow> goerror option \<times> 'f cf_state"
  cf_GetOrgByName :: "string \<Rightarrow> 'f cf_state \<Rightarrow> string res \<times> 'f cf_state"
  cf_GetSpaceByName :: "string \<Rightarrow> string \<Rightarrow> 'f cf_state \<Rightarrow> string res \<times> 'f cf_state"

section \<open>The implementation\<close>

text \<open>\<open>if err != nil { return nil, fmt.Errorf("...: %w", err) }\<close>\<close>

definition wrap_err :: "string \<Rightarrow> 'a res \<Rightarrow> 'a res" where
  "wrap_err p r = (case r of Inl e \<Rightarrow> Inl (Wrapped p e) | Inr x \<Rightarrow> Inr x)"

definition real_GetAppByName :: "'f cf_lib \<Rightarrow> string \<Rightarrow> string \<Rightarrow> 'f cf_state \<Rightarrow> string res \<times> 'f cf_state" where
  "real_GetAppByName lib name spaceGUID s =
     (case cf_api (CFirstApp name spaceGUID) (cl_FirstApp lib name spaceGUID) s of (r, s1) \<Rightarrow>
        (wrap_err (''get app '' @ go_quote name @ '' in space '' @ go_quote spaceGUID @ '': '') r, s1))"

definition app_create :: "PushRequest \<Rightarrow> AppCreate" where
  "app_create req =
     \<lparr>ac_Name = pr_Name req, ac_SpaceGUID = pr_SpaceGUID req,
      ac_EnvironmentVariables = pr_EnvVars req,
      ac_Lifecycle =
        (if pr_DockerImage req \<noteq> [] then DockerLifecycle (pr_DockerImage req)
         else if pr_Buildpacks req \<noteq> [] then BuildpackLifecycle (pr_Buildpacks req)
         else NoLifecycle)\<rparr>"

definition real_PushApp :: "'f cf_lib \<Rightarrow> PushRequest \<Rightarrow> 'f cf_state \<Rightarrow> string res \<times> 'f cf_state" where
  "real_PushApp lib req s =
     (case cf_api (CCreateApp (app_create req)) (cl_CreateApp lib (app_create req)) s of (r, s1) \<Rightarrow>
        (wrap_err (''push app '' @ go_quote (pr_Name req) @ '': '') r, s1))"

definition task_create :: "TaskRequest \<Rightarrow> TaskCreate" where
  "task_create req =
     \<lparr>tc_Command = tq_Command req,
      tc_Name = (if tq_Name req \<noteq> [] then Some (tq_Name req) else None),
      tc_MemoryInMB = (if sint (tq_MemoryInMB req) > 0 then Some (tq_MemoryInMB req) else None),
      tc_DiskInMB = (if sint (tq_DiskInMB req) > 0 then Some (tq_DiskInMB req) else None)\<rparr>"

definition real_RunTask ::
    "'f cf_lib \<Rightarrow> string \<Rightarrow> TaskRequest \<Rightarrow> 'f cf_state \<Rightarrow> string res \<times> 'f cf_state" where
  "real_RunTask lib appGUID req s =
     (case cf_api (CCreateTask appGUID (task_create req)) (cl_CreateTask lib appGUID (task_create req)) s of
        (r, s1) \<Rightarrow> (wrap_err (''run task on app '' @ go_quote appGUID @ '': '') r, s1))"

definition real_GetTask :: "'f cf_lib \<Rightarrow> string \<Rightarrow> 'f cf_state \<Rightarrow> string res \<times> 'f cf_state" where
  "real_GetTask lib taskGUID s =
     (case cf_api (CGetTask taskGUID) (cl_GetTask lib taskGUID) s of (r, s1) \<Rightarrow>
        (wrap_err (''get task '' @ go_quote taskGUID @ '': '') r, s1))"

definition real_CancelTask :: "'f cf_lib \<Rightarrow> string \<Rightarrow> 'f cf_state \<Rightarrow> goerror option \<times> 'f cf_state" where
  "real_CancelTask lib taskGUID s =
     (case cf_api (CCancelTask taskGUID) (cl_CancelTask lib taskGUID) s of (r, s1) \<Rightarrow>
        (err_of (wrap_err (''cancel task '' @ go_quote taskGUID @ '': '') r), s1))"

definition real_GetOrgByName :: "'f cf_lib \<Rightarrow> string \<Rightarrow> 'f cf_state \<Rightarrow> string res \<times> 'f cf_state" where
  "real_GetOrgByName lib name s =
     (case cf_api (CFirstOrg name) (cl_FirstOrg lib name) s of (r, s1) \<Rightarrow>
        (wrap_err (''get org '' @ go_quote name @ '': '') r, s1))"

definition real_GetSpaceByName ::
    "'f cf_lib \<Rightarrow> string \<Rightarrow> string \<Rightarrow> 'f cf_state \<Rightarrow> string res \<times> 'f cf_state" where
  "real_GetSpaceByName lib orgGUID name s =
     (case cf_api (CFirstSpace orgGUID name) (cl_FirstSpace lib orgGUID name) s of (r, s1) \<Rightarrow>
        (wrap_err (''get space '' @ go_quote name @ '' in org '' @ go_quote orgGUID @ '': '') r, s1))"

definition realCFClient :: "'f cf_lib \<Rightarrow> 'f CFClient" where
  "realCFClient lib =
     \<lparr>cf_GetAppByName = real_GetAppByName lib, cf_PushApp = real_PushApp lib,
      cf_RunTask = real_RunTask lib, cf_GetTask = real_GetTask lib, cf_CancelTask = real_CancelTask lib,
      cf_GetOrgByName = real_GetOrgByName lib, cf_GetSpaceByName = real_GetSpaceByName lib\<rparr>"

text \<open>\<open>cfg\<close> and \<open>lib\<close> are what \<open>config.New\<close> and \<open>cfclient.New\<close> return.\<close>

definition NewRealCFClient :: "'cfg res \<Rightarrow> ('cfg \<Rightarrow> 'f cf_lib res) \<Rightarrow> 'f CFClient res" where
  "NewRealCFClient cfg lib =
     (case cfg of
        Inl err \<Rightarrow> Inl (Wrapped ''cf config: '' err)
      | Inr c \<Rightarrow> (case lib c of Inl err \<Rightarrow> Inl (Wrapped ''cf client: '' err) | Inr l \<Rightarrow> Inr (realCFClient l)))"

section \<open>What the adapter relies on\<close>

definition keeps_cache :: "('f cf_state \<Rightarrow> 'a \<times> 'f cf_state) \<Rightarrow> bool" where
  "keeps_cache f \<longleftrightarrow> (\<forall>s. cw_cache (world (snd (f s))) = cw_cache (world s))"

lemma keeps_cacheD: "keeps_cache f \<Longrightarrow> f s = (r, s') \<Longrightarrow> cw_cache (world s') = cw_cache (world s)"
  unfolding keeps_cache_def by (metis snd_conv)

text \<open>An operation of a client neither reads the trace, nor touches contexts or the cache.\<close>

definition tame :: "('f cf_state \<Rightarrow> 'a \<times> 'f cf_state) \<Rightarrow> bool" where
  "tame f \<longleftrightarrow> appending f \<and> keeps_ctx f \<and> keeps_cache f"

lemma keeps_cache_api [simp]: "keeps_cache (cf_api c f)"
  by (simp add: keeps_cache_def cf_api_def api_def on_foundation_def split: prod.splits)

lemma tame_cf_api [simp]: "tame (cf_api c f)"
  by (simp add: tame_def) (simp add: cf_api_def)

lemma tame_post:
  assumes "tame f" shows "tame (\<lambda>s. case f s of (x, s') \<Rightarrow> (h x, s'))"
proof -
  have "keeps_cache (\<lambda>s. case f s of (x, s') \<Rightarrow> (h x, s'))"
    using assms by (simp add: tame_def keeps_cache_def split: prod.splits) (metis snd_conv)
  then show ?thesis
    using assms by (auto simp: tame_def intro: appending_post keeps_ctx_bind)
qed

locale cf_client =
  fixes C :: "'f CFClient"
  assumes tame_GetAppByName: "tame (cf_GetAppByName C name spaceGUID)"
    and tame_PushApp: "tame (cf_PushApp C req)"
    and tame_RunTask: "tame (cf_RunTask C appGUID treq)"
    and tame_CancelTask: "tame (cf_CancelTask C taskGUID)"
    and tame_GetOrgByName: "tame (cf_GetOrgByName C org)"
    and tame_GetSpaceByName: "tame (cf_GetSpaceByName C orgGUID space)"

interpretation real: cf_client "realCFClient lib" for lib
  by unfold_locales
     (simp_all add: realCFClient_def real_GetAppByName_def [abs_def] real_PushApp_def [abs_def]
       real_RunTask_def [abs_def] real_CancelTask_def [abs_def] real_GetOrgByName_def [abs_def]
       real_GetSpaceByName_def [abs_def] tame_post)

end
