(* ===== verification/CF_Adapter.thy ===== *)
theory CF_Adapter
  imports CF_Client Scheduler
begin

text \<open>
  \<open>platform/cf/adapter.go\<close>: agents as one-off tasks of a runner app in the tenant's space.
  The adapter keeps the promises of \<open>platform_adapter\<close> over any client that keeps
  \<open>cf_client\<close>.
\<close>

record CFAdapterConfig =
  cfg_IsolationTier :: string
  cfg_SharedOrgName :: string

text \<open>\<open>newGUIDCache(5 * time.Minute)\<close>, the cache a new adapter starts with\<close>

definition adapter_cache :: guidCache where
  "adapter_cache = newGUIDCache (300 * Second)"

section \<open>Resolving the space\<close>

text \<open>\<open>a.cache.get(key)\<close>: the clock is read only when there is an entry\<close>

definition guid_get :: "'f os \<Rightarrow> string \<Rightarrow> 'f cf_state \<Rightarrow> string option \<times> 'f cf_state" where
  "guid_get os key s =
     (case gc_entries (cw_cache (world s)) key of
        None \<Rightarrow> (None, s)
      | Some e \<Rightarrow> (let (t, s1) = cf_now os s in (cache_get (cw_cache (world s)) t key, s1)))"

definition guid_set :: "'f os \<Rightarrow> string \<Rightarrow> string \<Rightarrow> 'f cf_state \<Rightarrow> 'f cf_state" where
  "guid_set os key guid s =
     (let (t, s1) = cf_now os s
      in s1\<lparr>world := (world s1)\<lparr>cw_cache := cache_set (cw_cache (world s1)) t key guid\<rparr>\<rparr>)"

definition org_and_space :: "CFAdapterConfig \<Rightarrow> string \<Rightarrow> string \<times> string" where
  "org_and_space cfg tenantID =
     (if cfg_IsolationTier cfg = ''dedicated'' then (tenantID, ''muto-agents'')
      else (cfg_SharedOrgName cfg, tenantID))"

text \<open>
  A GUID from the cache, or looked up, remembered and returned: the shape both halves of
  \<open>resolveSpaceGUID\<close> have.
\<close>

definition cached ::
    "'f os \<Rightarrow> string \<Rightarrow> ('f cf_state \<Rightarrow> string res \<times> 'f cf_state) \<Rightarrow> string
     \<Rightarrow> 'f cf_state \<Rightarrow> string res \<times> 'f cf_state" where
  "cached os key lookup failure s =
     (case guid_get os key s of
        (Some guid, s1) \<Rightarrow> (Inr guid, s1)
      | (None, s1) \<Rightarrow>
          (case lookup s1 of
             (Inl err, s2) \<Rightarrow> (Inl (Wrapped failure err), s2)
           | (Inr guid, s2) \<Rightarrow> (Inr guid, guid_set os key guid s2)))"

definition resolveSpaceGUID ::
    "'f CFClient \<Rightarrow> 'f os \<Rightarrow> CFAdapterConfig \<Rightarrow> string \<Rightarrow> 'f cf_state \<Rightarrow> string res \<times> 'f cf_state" where
  "resolveSpaceGUID C os cfg tenantID s =
     (let (orgName, spaceName) = org_and_space cfg tenantID in
      case cached os (orgCacheKey orgName) (cf_GetOrgByName C orgName)
             (''get org '' @ go_quote orgName @ '': '') s of
        (Inl err, s1) \<Rightarrow> (Inl err, s1)
      | (Inr orgGUID, s1) \<Rightarrow>
          cached os (spaceCacheKey orgGUID spaceName) (cf_GetSpaceByName C orgGUID spaceName)
            (''get space '' @ go_quote spaceName @ '': '') s1)"

section \<open>Spawning and terminating\<close>

definition runner_push :: "string \<Rightarrow> string \<Rightarrow> string \<Rightarrow> string \<Rightarrow> PushRequest" where
  "runner_push name spaceGUID tenantID role =
     \<lparr>pr_Name = name, pr_SpaceGUID = spaceGUID, pr_DockerImage = [], pr_Buildpacks = [],
      pr_EnvVars = Some [''MUTO_TENANT'' \<mapsto> tenantID, ''MUTO_ROLE'' \<mapsto> role]\<rparr>"

definition ensureRunnerApp ::
    "'f CFClient \<Rightarrow> string \<Rightarrow> string \<Rightarrow> string \<Rightarrow> string \<Rightarrow> 'f cf_state \<Rightarrow> string res \<times> 'f cf_state" where
  "ensureRunnerApp C name spaceGUID tenantID role s =
     (case cf_GetAppByName C name spaceGUID s of
        (Inr app, s1) \<Rightarrow> (Inr app, s1)
      | (Inl _, s1) \<Rightarrow>
          (case cf_PushApp C (runner_push name spaceGUID tenantID role) s1 of
             (Inl err, s2) \<Rightarrow> (Inl (Wrapped ''push runner app: '' err), s2)
           | (Inr pushed, s2) \<Rightarrow> (Inr pushed, s2)))"

definition runner_name :: "string \<Rightarrow> string \<Rightarrow> string" where
  "runner_name tenantRef role = ''muto-'' @ tenantRef @ ''-'' @ role"

definition task_request :: "string \<Rightarrow> AgentRole \<Rightarrow> TaskRequest" where
  "task_request tenantRef role =
     \<lparr>tq_Command = ar_Command role, tq_Name = tenantRef @ ''-'' @ ar_Role role,
      tq_MemoryInMB = 0, tq_DiskInMB = 0\<rparr>"

definition CF_SpawnAgent ::
    "'f CFClient \<Rightarrow> 'f os \<Rightarrow> CFAdapterConfig \<Rightarrow> Spec \<Rightarrow> 'f cf_state \<Rightarrow> string res \<times> 'f cf_state" where
  "CF_SpawnAgent C os cfg spec s =
     (case sp_Agents spec of
        [] \<Rightarrow> (Inl (Errorf ''no agents in spec''), s)
      | role # _ \<Rightarrow>
          (case resolveSpaceGUID C os cfg (sp_TenantRef spec) s of
             (Inl err, s1) \<Rightarrow> (Inl (Wrapped ''resolve space: '' err), s1)
           | (Inr spaceGUID, s1) \<Rightarrow>
               (case ensureRunnerApp C (runner_name (sp_TenantRef spec) (ar_Role role)) spaceGUID
                       (sp_TenantRef spec) (ar_Role role) s1 of
                  (Inl err, s2) \<Rightarrow> (Inl (Wrapped ''ensure runner app: '' err), s2)
                | (Inr app, s2) \<Rightarrow>
                    (case cf_RunTask C app (task_request (sp_TenantRef spec) role) s2 of
                       (Inl err, s3) \<Rightarrow> (Inl (Wrapped ''run task: '' err), s3)
                     | (Inr task, s3) \<Rightarrow> (Inr task, s3)))))"

definition isTerminalTaskError :: "goerror option \<Rightarrow> bool" where
  "isTerminalTaskError e =
     (case e of
        None \<Rightarrow> False
      | Some err \<Rightarrow>
          (let msg = ToLower (err_text err) in Contains msg ''succeeded'' \<or> Contains msg ''failed''))"

definition CF_TerminateAgent ::
    "'f CFClient \<Rightarrow> string \<Rightarrow> 'f cf_state \<Rightarrow> goerror option \<times> 'f cf_state" where
  "CF_TerminateAgent C agentID s =
     (case cf_CancelTask C agentID s of (err, s1) \<Rightarrow>
        (if err \<noteq> None \<and> isTerminalTaskError err then None else err, s1))"

section \<open>Watching\<close>

type_synonym 'f cf_turn = "('f cf_world, cf_call) turn"

definition task_event :: "string \<Rightarrow> EventType \<Rightarrow> string \<Rightarrow> Event" where
  "task_event agentID t msg = \<lparr>ev_AgentID = agentID, ev_Type = t, ev_Message = msg\<rparr>"

text \<open>The loop: each turn begins with \<open>a.client.GetTask(ctx, agentID)\<close>.\<close>

fun cf_watch :: "'f CFClient \<Rightarrow> string \<Rightarrow> 'f cf_turn watchproc" where
  "cf_watch C agentID [] = ([], False)"
| "cf_watch C agentID (p # ps) =
     (case fst (cf_GetTask C agentID (turn_state p)) of
        Inl err \<Rightarrow>
          (if err_is KCanceled err then ([], True)
           else ([task_event agentID EventFailed (err_text err)], True))
      | Inr state \<Rightarrow>
          (if state = ''SUCCEEDED'' then ([task_event agentID EventCompleted []], True)
           else if state = ''FAILED'' \<or> state = ''CANCELING''
           then ([task_event agentID EventFailed []], True)
           else if turn_done p then ([], True)
           else cf_watch C agentID ps))"

definition CF_WatchAgent ::
    "'f CFClient \<Rightarrow> nat \<Rightarrow> string \<Rightarrow> 'f cf_state \<Rightarrow> 'f cf_turn watchproc res \<times> 'f cf_state" where
  "CF_WatchAgent C ctx agentID s = (Inr (cf_watch C agentID), s)"

definition NewCFAdapter ::
    "'f CFClient \<Rightarrow> 'f os \<Rightarrow> CFAdapterConfig \<Rightarrow> ('f cf_world, cf_call, 'f cf_turn) adapter" where
  "NewCFAdapter C os cfg =
     \<lparr>pa_SpawnAgent = CF_SpawnAgent C os cfg, pa_TerminateAgent = CF_TerminateAgent C,
      pa_WatchAgent = CF_WatchAgent C\<rparr>"

lemma NewCFAdapter_sels [simp]:
  "pa_SpawnAgent (NewCFAdapter C os cfg) = CF_SpawnAgent C os cfg"
  "pa_TerminateAgent (NewCFAdapter C os cfg) = CF_TerminateAgent C"
  "pa_WatchAgent (NewCFAdapter C os cfg) = CF_WatchAgent C"
  by (simp_all add: NewCFAdapter_def)

section \<open>The adapter keeps the interface's promises\<close>

lemma cf_watch_events:
  "fst (cf_watch C a ps) = [] \<or>
     snd (cf_watch C a ps) \<and> (\<exists>t m. fst (cf_watch C a ps) = [task_event a t m]
       \<and> (t = EventCompleted \<or> t = EventFailed))"
  by (induction C a ps rule: cf_watch.induct) (auto split: sum.splits)

lemma cf_watch_closed: "snd (cf_watch C a ps) \<Longrightarrow> cf_watch C a (ps @ qs) = cf_watch C a ps"
  by (induction C a ps rule: cf_watch.induct) (auto split: sum.splits)

lemma cf_watch_one_shot: "one_shot a (cf_watch C a)"
  unfolding one_shot_def
proof
  fix ps
  show "length (fst (cf_watch C a ps)) \<le> 1
      \<and> (\<forall>e\<in>set (fst (cf_watch C a ps)). ev_AgentID e = a \<and> terminal_event e)
      \<and> (fst (cf_watch C a ps) \<noteq> [] \<longrightarrow> snd (cf_watch C a ps))
      \<and> (\<forall>qs. snd (cf_watch C a ps) \<longrightarrow> cf_watch C a (ps @ qs) = cf_watch C a ps)"
    using cf_watch_events [of C a ps] cf_watch_closed by (auto simp: terminal_event_def task_event_def)
qed

text \<open>Computations that neither read the trace nor touch contexts, closed under sequencing\<close>

definition calm :: "('f cf_state \<Rightarrow> 'a \<times> 'f cf_state) \<Rightarrow> bool" where
  "calm f \<longleftrightarrow> appending f \<and> keeps_ctx f"

lemma calm_return [simp]: "calm (\<lambda>s. (x, s))"
  by (simp add: calm_def)

lemma calm_tame: "tame f \<Longrightarrow> calm f"
  by (simp add: calm_def tame_def)

lemma calm_bind: "calm f \<Longrightarrow> (\<And>x. calm (g x)) \<Longrightarrow> calm (\<lambda>s. case f s of (x, s') \<Rightarrow> g x s')"
  by (auto simp: calm_def intro: appending_bind keeps_ctx_bind)

lemma calm_res:
  assumes "calm f" and "\<And>e. calm (g e)" and "\<And>x. calm (h x)"
  shows "calm (\<lambda>s. case f s of (Inl e, s') \<Rightarrow> g e s' | (Inr x, s') \<Rightarrow> h x s')"
proof -
  have eq: "(\<lambda>s. case f s of (Inl e, s') \<Rightarrow> g e s' | (Inr x, s') \<Rightarrow> h x s')
      = (\<lambda>s. case f s of (r, s') \<Rightarrow> (case r of Inl e \<Rightarrow> g e | Inr x \<Rightarrow> h x) s')"
    by (rule ext) (auto split: prod.splits sum.splits)
  show ?thesis unfolding eq by (rule calm_bind [OF assms(1)]) (auto split: sum.splits intro: assms)
qed

text \<open>A state change that does not depend on the trace\<close>

lemma calm_pure:
  assumes "\<And>s t. f (with_trace t s) = (fst (f s), with_trace t (snd (f s)))"
    and "\<And>s. ctx_next (snd (f s)) = ctx_next s \<and> ctx_done (snd (f s)) = ctx_done s"
  shows "calm f"
proof -
  have "appending f"
  proof (rule appendingI)
    fix s
    have "\<forall>t. f (with_trace t s) = (fst (f s), with_trace (t @ []) (snd (f s)))"
      by (simp add: assms(1))
    then show "\<exists>r s' es. \<forall>t. f (with_trace t s) = (r, with_trace (t @ es) s')" by blast
  qed
  with assms(2) show ?thesis by (simp add: calm_def keeps_ctx_def)
qed

lemma calm_guid_get: "calm (guid_get os key)"
  by (rule calm_pure)
     (auto simp: guid_get_def cf_now_def on_foundation_def with_trace_def Let_def
       split: option.splits prod.splits)

lemma calm_guid_set: "calm (\<lambda>s. (x, guid_set os key guid s))"
  by (rule calm_pure)
     (auto simp: guid_set_def cf_now_def on_foundation_def with_trace_def Let_def split: prod.splits)

lemma calm_cached: "calm lookup \<Longrightarrow> calm (cached os key lookup failure)"
proof -
  assume l: "calm lookup"
  have eq: "cached os key lookup failure = (\<lambda>s. case guid_get os key s of (g, s1) \<Rightarrow>
      (case g of Some guid \<Rightarrow> (\<lambda>s. (Inr guid, s))
       | None \<Rightarrow> (\<lambda>s. case lookup s of (Inl err, s2) \<Rightarrow> (Inl (Wrapped failure err), s2)
           | (Inr guid, s2) \<Rightarrow> (Inr guid, guid_set os key guid s2))) s1)"
    by (rule ext) (simp add: cached_def split: option.splits prod.splits)
  show ?thesis
    unfolding eq
    by (rule calm_bind [OF calm_guid_get])
       (auto split: option.splits intro: calm_res l calm_guid_set calm_return)
qed

lemma calm_resolve:
  assumes "\<And>org. calm (cf_GetOrgByName C org)" and "\<And>g sp. calm (cf_GetSpaceByName C g sp)"
  shows "calm (resolveSpaceGUID C os cfg tenantID)"
proof -
  obtain org sp where os: "org_and_space cfg tenantID = (org, sp)" by fastforce
  have eq: "resolveSpaceGUID C os cfg tenantID =
    (\<lambda>s. case cached os (orgCacheKey org) (cf_GetOrgByName C org) (''get org '' @ go_quote org @ '': '') s of
        (Inl err, s1) \<Rightarrow> (Inl err, s1)
      | (Inr g, s1) \<Rightarrow> cached os (spaceCacheKey g sp) (cf_GetSpaceByName C g sp)
            (''get space '' @ go_quote sp @ '': '') s1)"
    by (rule ext) (simp add: resolveSpaceGUID_def os)
  show ?thesis unfolding eq by (intro calm_res calm_cached calm_return assms)
qed

context cf_client
begin

lemmas calm_ops = tame_GetAppByName [THEN calm_tame] tame_PushApp [THEN calm_tame]
  tame_RunTask [THEN calm_tame] tame_CancelTask [THEN calm_tame]
  tame_GetOrgByName [THEN calm_tame] tame_GetSpaceByName [THEN calm_tame]

lemma calm_ensureRunnerApp: "calm (ensureRunnerApp C name spaceGUID tenantID role)"
proof -
  have eq: "ensureRunnerApp C name spaceGUID tenantID role = (\<lambda>s. case cf_GetAppByName C name spaceGUID s of
        (Inl e, s1) \<Rightarrow> (case cf_PushApp C (runner_push name spaceGUID tenantID role) s1 of
             (Inl err, s2) \<Rightarrow> (Inl (Wrapped ''push runner app: '' err), s2)
           | (Inr pushed, s2) \<Rightarrow> (Inr pushed, s2))
      | (Inr app, s1) \<Rightarrow> (Inr app, s1))"
    by (rule ext) (simp add: ensureRunnerApp_def split: sum.splits prod.splits)
  show ?thesis unfolding eq by (intro calm_res calm_return calm_ops)
qed

lemma calm_SpawnAgent: "calm (CF_SpawnAgent C os cfg spec)"
proof (cases "sp_Agents spec")
  case Nil
  then show ?thesis by (simp add: CF_SpawnAgent_def [abs_def])
next
  case (Cons role roles)
  show ?thesis
    unfolding CF_SpawnAgent_def [abs_def] Cons list.case
    by (intro calm_res calm_resolve calm_return calm_ops calm_ensureRunnerApp)
qed

lemma calm_TerminateAgent: "calm (CF_TerminateAgent C agentID)"
  unfolding CF_TerminateAgent_def [abs_def] by (intro calm_bind calm_return calm_ops)

end

sublocale cf_client \<subseteq> cf: traced_platform_adapter "NewCFAdapter C os cfg" for os cfg
proof
  fix spec :: Spec and s
  assume "sp_Agents spec = []"
  then show "\<exists>e s'. pa_SpawnAgent (NewCFAdapter C os cfg) spec s = (Inl e, s') \<and> world s' = world s"
    by (simp add: CF_SpawnAgent_def)
next
  fix c agent s h s'
  assume "pa_WatchAgent (NewCFAdapter C os cfg) c agent s = (Inr h, s')"
  then show "one_shot agent h" by (auto simp: CF_WatchAgent_def cf_watch_one_shot)
qed (use calm_SpawnAgent calm_TerminateAgent in \<open>simp_all add: CF_WatchAgent_def [abs_def] calm_def\<close>)

end
