(* ===== verification/CF_Resolution.thy ===== *)
theory CF_Resolution
  imports CF_Adapter Kube_Client
begin

text \<open>
  What the Cloud Foundry adapter does, on top of the contracts of \<open>CF_Cache\<close> and \<open>CF_Client\<close>:
  the cache changes no answer, tenants get different spaces, a failed spawn has started
  nothing, and what the watch and the termination of a task report.
\<close>

section \<open>The cache is transparent\<close>

text \<open>
  The foundation as a pair of functions: the GUID of an organization, of a space in it. A
  cache is right when whatever it returns, at any time, is what the foundation answers.
\<close>

definition right_answer ::
    "(string \<Rightarrow> string res) \<Rightarrow> (string \<Rightarrow> string \<Rightarrow> string res) \<Rightarrow> string \<Rightarrow> string \<Rightarrow> bool" where
  "right_answer org space k g \<longleftrightarrow>
     (\<forall>n. k = orgCacheKey n \<longrightarrow> org n = Inr g)
     \<and> (\<forall>h n. CHR '':'' \<notin> set h \<longrightarrow> k = spaceCacheKey h n \<longrightarrow> space h n = Inr g)"

definition cache_right ::
    "(string \<Rightarrow> string res) \<Rightarrow> (string \<Rightarrow> string \<Rightarrow> string res) \<Rightarrow> guidCache \<Rightarrow> bool" where
  "cache_right org space c \<longleftrightarrow>
     (\<forall>t k g. cache_get c t k = Some g \<longrightarrow> right_answer org space k g)"

lemma cache_right_coherent: "cache_right org space c = cache.coherent (right_answer org space) c"
  by (simp add: cache_right_def cache.coherent_def)

lemma right_answer_org: "org n = Inr g \<Longrightarrow> right_answer org space (orgCacheKey n) g"
  by (auto simp: right_answer_def)

lemma right_answer_space:
  "space h n = Inr g \<Longrightarrow> CHR '':'' \<notin> set h \<Longrightarrow> right_answer org space (spaceCacheKey h n) g"
  by (auto simp: right_answer_def dest: spaceCacheKey_inject)

lemma cf_now_cache: "cf_now os s = (t, s') \<Longrightarrow> cw_cache (world s') = cw_cache (world s)"
  by (auto simp: cf_now_def on_foundation_def Let_def split: prod.splits)

lemma guid_get_cases:
  assumes "guid_get os key s = (r, s')"
  shows "cw_cache (world s') = cw_cache (world s)"
    and "r = Some g \<Longrightarrow> \<exists>t. cache_get (cw_cache (world s)) t key = Some g"
  using assms cf_now_cache
  by (auto simp: guid_get_def Let_def split: option.splits prod.splits)

lemma guid_set_cache:
  "\<exists>t. cw_cache (world (guid_set os key g s)) = cache_set (cw_cache (world s)) t key g"
proof -
  obtain t s1 where 1: "cf_now os s = (t, s1)" by fastforce
  show ?thesis by (intro exI [of _ t]) (simp add: guid_set_def 1 cf_now_cache [OF 1])
qed

lemma cached_run:
  assumes "cache_right org space (cw_cache (world s))"
    and keeps: "keeps_cache lookup" and answer: "\<And>s. fst (lookup s) = ans"
    and right: "\<And>g. ans = Inr g \<Longrightarrow> right_answer org space key g"
    and only: "\<And>g. right_answer org space key g \<Longrightarrow> ans = Inr g"
    and run: "cached os key lookup failure s = (r, s')"
  shows "r = wrap_err failure ans \<and> cache_right org space (cw_cache (world s'))"
proof -
  obtain x s1 where 1: "guid_get os key s = (x, s1)" by fastforce
  note c1 = guid_get_cases(1) [OF 1]
  show ?thesis
  proof (cases x)
    case (Some g)
    with guid_get_cases(2) [OF 1] assms(1) have "right_answer org space key g"
      by (auto simp: cache_right_def)
    with only run 1 Some c1 assms(1) show ?thesis by (auto simp: cached_def wrap_err_def)
  next
    case None
    obtain y s2 where 2: "lookup s1 = (y, s2)" by fastforce
    have y: "y = ans" using answer [of s1] 2 by simp
    have c2: "cache_right org space (cw_cache (world s2))"
      using keeps_cacheD [OF keeps 2] c1 assms(1) by simp
    show ?thesis
    proof (cases ans)
      case (Inl e)
      with run 1 None 2 y c2 show ?thesis by (simp add: cached_def wrap_err_def)
    next
      case (Inr g)
      obtain t where "cw_cache (world (guid_set os key g s2)) = cache_set (cw_cache (world s2)) t key g"
        using guid_set_cache by blast
      then have "cache_right org space (cw_cache (world (guid_set os key g s2)))"
        using c2 right [OF Inr] by (simp add: cache_right_coherent cache.coherent_set)
      with run 1 None 2 y Inr show ?thesis by (auto simp: cached_def wrap_err_def)
    qed
  qed
qed

lemma resolve_run:
  assumes "cf_client C"
    and "\<And>n s. fst (cf_GetOrgByName C n s) = org n"
    and "\<And>g n s. fst (cf_GetSpaceByName C g n s) = space g n"
    and "\<And>n g. org n = Inr g \<Longrightarrow> CHR '':'' \<notin> set g"
    and "cache_right org space (cw_cache (world s))"
    and "org_and_space cfg tenant = (orgName, spaceName)"
    and "resolveSpaceGUID C os cfg tenant s = (r, s')"
  shows "r = (case org orgName of
        Inl e \<Rightarrow> Inl (Wrapped (''get org '' @ go_quote orgName @ '': '') e)
      | Inr g \<Rightarrow> (case space g spaceName of
            Inl e \<Rightarrow> Inl (Wrapped (''get space '' @ go_quote spaceName @ '': '') e)
          | Inr x \<Rightarrow> Inr x))
    \<and> cache_right org space (cw_cache (world s'))"
proof -
  have keeps: "keeps_cache (cf_GetOrgByName C n)" "keeps_cache (cf_GetSpaceByName C g n)" for n g
    using cf_client.tame_GetOrgByName [OF assms(1)] cf_client.tame_GetSpaceByName [OF assms(1)]
    by (auto simp: tame_def)
  let ?f1 = "''get org '' @ go_quote orgName @ '': ''"
  let ?f2 = "''get space '' @ go_quote spaceName @ '': ''"
  obtain x s1 where 1: "cached os (orgCacheKey orgName) (cf_GetOrgByName C orgName) ?f1 s = (x, s1)"
    by fastforce
  have r1: "x = wrap_err ?f1 (org orgName) \<and> cache_right org space (cw_cache (world s1))"
    by (rule cached_run [OF assms(5) keeps(1) assms(2) right_answer_org _ 1]) (auto simp: right_answer_def)
  show ?thesis
  proof (cases "org orgName")
    case (Inl e)
    with r1 1 assms(6,7) show ?thesis by (auto simp: resolveSpaceGUID_def wrap_err_def)
  next
    case (Inr g)
    have colon: "CHR '':'' \<notin> set g" by (rule assms(4) [OF Inr])
    have run: "cached os (spaceCacheKey g spaceName) (cf_GetSpaceByName C g spaceName) ?f2 s1 = (r, s')"
      using r1 1 assms(6,7) Inr by (simp add: resolveSpaceGUID_def wrap_err_def)
    have "r = wrap_err ?f2 (space g spaceName) \<and> cache_right org space (cw_cache (world s'))"
      by (rule cached_run [OF conjunct2 [OF r1] keeps(2) assms(3) right_answer_space [OF _ colon] _ run])
         (use colon in \<open>auto simp: right_answer_def\<close>)
    with Inr show ?thesis by (simp add: wrap_err_def split: sum.splits)
  qed
qed

text \<open>
  C16. The GUID cache never changes an answer: on a foundation whose names keep their GUIDs,
  with any cache that is right so far, resolving the space of a tenant returns exactly what
  the two lookups without a cache return, errors included, and leaves the cache right. The
  GUIDs of organizations are assumed to contain no colon.
\<close>

theorem resolve_space_transparent:
  assumes "cf_client C"
    and "\<And>n s. fst (cf_GetOrgByName C n s) = org n"
    and "\<And>g n s. fst (cf_GetSpaceByName C g n s) = space g n"
    and "\<And>n g. org n = Inr g \<Longrightarrow> CHR '':'' \<notin> set g"
    and "cache_right org space (cw_cache (world s))"
    and "org_and_space cfg tenant = (orgName, spaceName)"
    and "resolveSpaceGUID C os cfg tenant s = (r, s')"
  shows "r = (case org orgName of
        Inl e \<Rightarrow> Inl (Wrapped (''get org '' @ go_quote orgName @ '': '') e)
      | Inr g \<Rightarrow> (case space g spaceName of
            Inl e \<Rightarrow> Inl (Wrapped (''get space '' @ go_quote spaceName @ '': '') e)
          | Inr x \<Rightarrow> Inr x))
    \<and> cache_right org space (cw_cache (world s'))"
  by (rule resolve_run [OF assms])

section \<open>Tenants are kept apart\<close>

text \<open>
  Tenants never share a space: in either isolation tier, when the foundation gives
  different organizations and spaces different GUIDs, resolving two different tenants, each
  with whatever right cache it meets, never yields the same space.
\<close>

lemma tenants_get_different_spaces:
  assumes "cf_client C"
    and "\<And>n s. fst (cf_GetOrgByName C n s) = org n"
    and "\<And>g n s. fst (cf_GetSpaceByName C g n s) = space g n"
    and "\<And>n g. org n = Inr g \<Longrightarrow> CHR '':'' \<notin> set g"
    and "\<And>m n g. org m = Inr g \<Longrightarrow> org n = Inr g \<Longrightarrow> m = n"
    and "\<And>g h m n x. space g m = Inr x \<Longrightarrow> space h n = Inr x \<Longrightarrow> g = h \<and> m = n"
    and "cache_right org space (cw_cache (world s1))" and "cache_right org space (cw_cache (world s2))"
    and "resolveSpaceGUID C os cfg tenant1 s1 = (Inr x1, t1)"
    and "resolveSpaceGUID C os cfg tenant2 s2 = (Inr x2, t2)"
    and "tenant1 \<noteq> tenant2"
  shows "x1 \<noteq> x2"
proof
  assume eq: "x1 = x2"
  have look: "\<exists>o' sp g. org_and_space cfg tenant = (o', sp) \<and> org o' = Inr g \<and> space g sp = Inr x"
    if right: "cache_right org space (cw_cache (world s))"
      and run: "resolveSpaceGUID C os cfg tenant s = (Inr x, t)" for tenant s x t
  proof -
    obtain o' sp where os: "org_and_space cfg tenant = (o', sp)" by fastforce
    show ?thesis
      using resolve_run [OF assms(1-4) right os run] os by (auto split: sum.splits)
  qed
  obtain o1 sp1 g1 where 1: "org_and_space cfg tenant1 = (o1, sp1)" "org o1 = Inr g1" "space g1 sp1 = Inr x1"
    using look [OF assms(7,9)] by blast
  obtain o2 sp2 g2 where 2: "org_and_space cfg tenant2 = (o2, sp2)" "org o2 = Inr g2" "space g2 sp2 = Inr x1"
    using look [OF assms(8,10)] eq by blast
  have "g1 = g2 \<and> sp1 = sp2" using assms(6) 1(3) 2(3) by blast
  with 1(2) 2(2) assms(5) have "o1 = o2" by blast
  with 1(1) 2(1) \<open>g1 = g2 \<and> sp1 = sp2\<close> assms(11) show False
    by (auto simp: org_and_space_def split: if_splits)
qed

section \<open>The cache saves the lookups\<close>

lemma cached_fills:
  assumes "cached os key lookup failure s = (Inr g, s1)"
    and "keeps_cache lookup"
    and fresh: "\<And>w. t0 \<le> fst (os_now os w) \<and> fst (os_now os w) \<le> t0 + sint (gc_ttl (cw_cache (world s)))"
    and empty: "gc_entries (cw_cache (world s)) key = None"
  shows "\<exists>t\<ge>t0. cw_cache (world s1) = cache_set (cw_cache (world s)) t key g"
proof -
  from assms(1) empty obtain s2 where 2: "lookup s = (Inr g, s2)" and s1: "s1 = guid_set os key g s2"
    by (auto simp: cached_def guid_get_def split: prod.splits sum.splits)
  obtain t s3 where 3: "cf_now os s2 = (t, s3)" by fastforce
  then have "t0 \<le> t"
    using fresh by (auto simp: cf_now_def on_foundation_def Let_def split: prod.splits) (metis fst_conv)
  moreover have "cw_cache (world s1) = cache_set (cw_cache (world s)) t key g"
    using keeps_cacheD [OF assms(2) 2] cf_now_cache [OF 3] by (simp add: s1 guid_set_def 3)
  ultimately show ?thesis by blast
qed

lemma cached_hits:
  assumes entry: "gc_entries (cw_cache (world s)) key = Some e"
    and fresh: "\<And>w. fst (os_now os w) \<le> ce_expiry e"
  shows "\<exists>s1. cached os key lookup failure s = (Inr (ce_guid e), s1)
    \<and> trace s1 = trace s \<and> cw_cache (world s1) = cw_cache (world s)"
proof -
  obtain t s1 where 1: "cf_now os s = (t, s1)" by fastforce
  then have "t \<le> ce_expiry e" "trace s1 = trace s"
    using fresh by (auto simp: cf_now_def on_foundation_def Let_def split: prod.splits) (metis fst_conv)
  with entry 1 cf_now_cache [OF 1] show ?thesis
    by (auto simp: cached_def guid_get_def cache_get_def)
qed

text \<open>
  Within five minutes a resolved tenant costs no request: when every reading of the
  clock falls in one window of that length and a new adapter has resolved a tenant, resolving
  it again returns the same space without any call.
\<close>

theorem resolve_again_is_free:
  assumes "cf_client C"
    and "\<And>w. t0 \<le> fst (os_now os w) \<and> fst (os_now os w) \<le> t0 + 300000000000"
    and "cw_cache (world s) = adapter_cache"
    and "resolveSpaceGUID C os cfg tenant s = (Inr g, s1)"
    and "resolveSpaceGUID C os cfg tenant s1 = (r, s2)"
  shows "r = Inr g \<and> trace s2 = trace s1"
proof -
  have keeps: "keeps_cache (cf_GetOrgByName C n)" "keeps_cache (cf_GetSpaceByName C g n)" for n g
    using cf_client.tame_GetOrgByName [OF assms(1)] cf_client.tame_GetSpaceByName [OF assms(1)]
    by (auto simp: tame_def)
  have ttl: "sint (gc_ttl adapter_cache) = 300000000000" and empty: "gc_entries adapter_cache k = None" for k
    by (simp_all add: adapter_cache_def newGUIDCache_def Second_def)
  obtain orgN sp where os: "org_and_space cfg tenant = (orgN, sp)" by fastforce
  let ?f1 = "''get org '' @ go_quote orgN @ '': ''" and ?f2 = "''get space '' @ go_quote sp @ '': ''"
  obtain h u where 1: "cached os (orgCacheKey orgN) (cf_GetOrgByName C orgN) ?f1 s = (Inr h, u)"
    and 2: "cached os (spaceCacheKey h sp) (cf_GetSpaceByName C h sp) ?f2 u = (Inr g, s1)"
    using assms(4) os by (auto simp: resolveSpaceGUID_def split: prod.splits sum.splits)
  obtain t1 where t1: "t0 \<le> t1" "cw_cache (world u) = cache_set adapter_cache t1 (orgCacheKey orgN) h"
    using cached_fills [OF 1 keeps(1), of t0] assms(2,3) ttl empty by auto
  obtain t2 where t2: "t0 \<le> t2"
    "cw_cache (world s1) = cache_set (cache_set adapter_cache t1 (orgCacheKey orgN) h) t2 (spaceCacheKey h sp) g"
    using cached_fills [OF 2 keeps(2), of t0] assms(2) ttl empty t1(2) by (auto simp: cache_set_def)
  let ?e1 = "\<lparr>ce_guid = h, ce_expiry = t1 + 300000000000\<rparr>"
  let ?e2 = "\<lparr>ce_guid = g, ce_expiry = t2 + 300000000000\<rparr>"
  have e1: "gc_entries (cw_cache (world s1)) (orgCacheKey orgN) = Some ?e1"
    and e2: "gc_entries (cw_cache (world s1)) (spaceCacheKey h sp) = Some ?e2"
    using ttl by (simp_all add: t2(2) cache_set_def)
  have now1: "fst (os_now os w) \<le> ce_expiry ?e1" and now2: "fst (os_now os w) \<le> ce_expiry ?e2" for w
    using assms(2) [of w] t1(1) t2(1) by simp_all
  obtain v where v: "cached os (orgCacheKey orgN) (cf_GetOrgByName C orgN) ?f1 s1 = (Inr h, v)"
    "trace v = trace s1" "cw_cache (world v) = cw_cache (world s1)"
    using cached_hits [OF e1 now1] by auto
  have e2v: "gc_entries (cw_cache (world v)) (spaceCacheKey h sp) = Some ?e2" using e2 v(3) by simp
  obtain x where "cached os (spaceCacheKey h sp) (cf_GetSpaceByName C h sp) ?f2 v = (Inr g, x)"
    "trace x = trace v"
    using cached_hits [OF e2v now2] by auto
  with v assms(5) os show ?thesis by (simp add: resolveSpaceGUID_def)
qed

section \<open>A failed spawn has started nothing\<close>

text \<open>The tasks a log has started: create requests that were accepted\<close>

definition started :: "(cf_call \<times> goerror option) list \<Rightarrow> (string \<times> TaskCreate) list" where
  "started cs = concat (map (\<lambda>c. case c of (CCreateTask app t, None) \<Rightarrow> [(app, t)] | _ \<Rightarrow> []) cs)"

lemma started_append [simp]: "started (xs @ ys) = started xs @ started ys"
  by (simp add: started_def)

lemma started_simps [simp]:
  "started [] = []" "started ((CCreateTask app t, None) # cs) = (app, t) # started cs"
  "started ((CCreateTask app t, Some e) # cs) = started cs"
  "started ((CFirstApp n sp, x) # cs) = started cs" "started ((CCreateApp a, x) # cs) = started cs"
  "started ((CFirstOrg n, x) # cs) = started cs" "started ((CFirstSpace g n, x) # cs) = started cs"
  by (auto simp: started_def split: option.splits)

lemma calls_cf_api: "cf_api c f s = (r, s') \<Longrightarrow> calls (trace s') = calls (trace s) @ [(c, err_of r)]"
  by (simp add: cf_api_def api_trace)

lemma calls_cf_now: "cf_now os s = (t, s') \<Longrightarrow> trace s' = trace s"
  by (auto simp: cf_now_def Let_def split: prod.splits)

lemma trace_guid_get: "guid_get os key s = (r, s') \<Longrightarrow> trace s' = trace s"
  by (auto simp: guid_get_def Let_def dest: calls_cf_now split: option.splits prod.splits)

lemma trace_guid_set [simp]: "trace (guid_set os key g s) = trace s"
  using calls_cf_now by (auto simp: guid_set_def Let_def split: prod.splits)

definition quiet :: "('f cf_state \<Rightarrow> 'a \<times> 'f cf_state) \<Rightarrow> bool" where
  "quiet f \<longleftrightarrow> (\<forall>s. \<exists>cs. calls (trace (snd (f s))) = calls (trace s) @ cs \<and> started cs = [])"

lemma quietD: "quiet f \<Longrightarrow> f s = (r, s') \<Longrightarrow> \<exists>cs. calls (trace s') = calls (trace s) @ cs \<and> started cs = []"
  unfolding quiet_def by (metis snd_conv)

lemma quietI:
  "(\<And>s r s'. f s = (r, s') \<Longrightarrow> \<exists>cs. calls (trace s') = calls (trace s) @ cs \<and> started cs = []) \<Longrightarrow> quiet f"
  unfolding quiet_def by (metis prod.collapse)

lemma quiet_real:
  "quiet (cf_GetAppByName (realCFClient lib) name sp)" "quiet (cf_PushApp (realCFClient lib) req)"
  "quiet (cf_GetOrgByName (realCFClient lib) n)" "quiet (cf_GetSpaceByName (realCFClient lib) g n)"
  by (auto simp: realCFClient_def real_GetAppByName_def real_PushApp_def real_GetOrgByName_def
      real_GetSpaceByName_def intro!: quietI dest!: calls_cf_api split: prod.splits)

lemma quiet_cached: 
  assumes "quiet lookup" shows "quiet (cached os key lookup failure)"
proof (rule quietI)
  fix s r s'
  assume run: "cached os key lookup failure s = (r, s')"
  obtain x s1 where 1: "guid_get os key s = (x, s1)" by fastforce
  obtain y s2 where 2: "lookup s1 = (y, s2)" by fastforce
  obtain cs where "calls (trace s2) = calls (trace s1) @ cs" "started cs = []"
    using quietD [OF assms 2] by blast
  with run 1 2 trace_guid_get [OF 1]
  show "\<exists>cs. calls (trace s') = calls (trace s) @ cs \<and> started cs = []"
    by (cases x; cases y) (auto simp: cached_def)
qed

lemma quiet_res:
  assumes "quiet f" and "\<And>e. quiet (g e)" and "\<And>x. quiet (h x)"
  shows "quiet (\<lambda>s. case f s of (Inl e, s') \<Rightarrow> g e s' | (Inr x, s') \<Rightarrow> h x s')"
proof (rule quietI)
  fix s r s'
  assume run: "(case f s of (Inl e, s') \<Rightarrow> g e s' | (Inr x, s') \<Rightarrow> h x s') = (r, s')"
  obtain y s1 where 1: "f s = (y, s1)" by fastforce
  obtain c1 where c1: "calls (trace s1) = calls (trace s) @ c1" "started c1 = []"
    using quietD [OF assms(1) 1] by blast
  have "\<exists>c2. calls (trace s') = calls (trace s1) @ c2 \<and> started c2 = []"
    using run 1 quietD [OF assms(2)] quietD [OF assms(3)] by (cases y) auto
  with c1 show "\<exists>cs. calls (trace s') = calls (trace s) @ cs \<and> started cs = []" by auto
qed

lemma quiet_return [simp]: "quiet (\<lambda>s. (x, s))"
  by (rule quietI) auto

lemma quiet_resolve: "quiet (resolveSpaceGUID (realCFClient lib) os cfg tenant)"
proof -
  obtain org sp where os: "org_and_space cfg tenant = (org, sp)" by fastforce
  have eq: "resolveSpaceGUID (realCFClient lib) os cfg tenant =
    (\<lambda>s. case cached os (orgCacheKey org) (cf_GetOrgByName (realCFClient lib) org)
            (''get org '' @ go_quote org @ '': '') s of
        (Inl err, s1) \<Rightarrow> (Inl err, s1)
      | (Inr g, s1) \<Rightarrow> cached os (spaceCacheKey g sp) (cf_GetSpaceByName (realCFClient lib) g sp)
            (''get space '' @ go_quote sp @ '': '') s1)"
    by (rule ext) (simp add: resolveSpaceGUID_def os)
  show ?thesis unfolding eq by (intro quiet_res quiet_cached quiet_real quiet_return)
qed

lemma quiet_ensureRunnerApp: "quiet (ensureRunnerApp (realCFClient lib) name sp tenantID role)"
proof -
  let ?C = "realCFClient lib"
  have eq: "ensureRunnerApp ?C name sp tenantID role = (\<lambda>s. case cf_GetAppByName ?C name sp s of
        (Inl e, s1) \<Rightarrow> (case cf_PushApp ?C (runner_push name sp tenantID role) s1 of
             (Inl err, s2) \<Rightarrow> (Inl (Wrapped ''push runner app: '' err), s2)
           | (Inr pushed, s2) \<Rightarrow> (Inr pushed, s2))
      | (Inr app, s1) \<Rightarrow> (Inr app, s1))"
    by (rule ext) (simp add: ensureRunnerApp_def split: sum.splits prod.splits)
  show ?thesis unfolding eq by (intro quiet_res quiet_real quiet_return)
qed

text \<open>Running a task makes one request, for the command and the name of the role.\<close>

lemma RunTask_request:
  assumes "cf_RunTask (realCFClient lib) app (task_request t role) s = (z, s')"
  shows "(\<exists>e. calls (trace s') = calls (trace s) @ [(CCreateTask app \<lparr>tc_Command = ar_Command role,
      tc_Name = Some (t @ ''-'' @ ar_Role role), tc_MemoryInMB = None, tc_DiskInMB = None\<rparr>, e)]
    \<and> (e = None \<longleftrightarrow> (\<exists>i. z = Inr i)))"
proof -
  let ?tc = "\<lparr>tc_Command = ar_Command role, tc_Name = Some (t @ ''-'' @ ar_Role role), tc_MemoryInMB = None, tc_DiskInMB = None\<rparr>"
  obtain y s1 where run: "cf_api (CCreateTask app ?tc) (cl_CreateTask lib app ?tc) s = (y, s1)" by fastforce
  have "task_create (task_request t role) = ?tc" by (simp add: task_create_def task_request_def)
  with assms run have "z = wrap_err (''run task on app '' @ go_quote app @ '': '') y" "s' = s1"
    by (simp_all add: realCFClient_def real_RunTask_def)
  with calls_cf_api [OF run] show ?thesis by (cases y) (auto simp: wrap_err_def err_of_def)
qed

text \<open>What it returns is what the foundation answered.\<close>

lemma RunTask_answer:
  assumes "cf_RunTask (realCFClient lib) app (task_request t role) s = (z, s')"
  shows "\<forall>i. z = Inr i \<longrightarrow> (\<exists>f. cl_CreateTask lib app \<lparr>tc_Command = ar_Command role,
      tc_Name = Some (t @ ''-'' @ ar_Role role), tc_MemoryInMB = None, tc_DiskInMB = None\<rparr> f
        = (Inr i, cw_foundation (world s')))"
proof -
  let ?tc = "\<lparr>tc_Command = ar_Command role, tc_Name = Some (t @ ''-'' @ ar_Role role), tc_MemoryInMB = None, tc_DiskInMB = None\<rparr>"
  obtain y f where run: "cl_CreateTask lib app ?tc (cw_foundation (world s)) = (y, f)" by fastforce
  have "task_create (task_request t role) = ?tc" by (simp add: task_create_def task_request_def)
  with assms run have "z = wrap_err (''run task on app '' @ go_quote app @ '': '') y" "cw_foundation (world s') = f"
    by (auto simp: realCFClient_def real_RunTask_def cf_api_def api_def on_foundation_def)
  with run show ?thesis by (auto simp: wrap_err_def split: sum.splits)
qed

text \<open>
  C18. Spawning an agent starts at most one task, and reports it: when it succeeds, exactly
  one task has been accepted, with the role's command and the tenant's and role's name, and the
  identifier it returns is the one the foundation gave this task in its answer to that request, the
  last one made; when it fails, at whatever step, no task has been accepted.
\<close>

theorem spawn_starts_one_task_or_none:
  assumes "CF_SpawnAgent (realCFClient lib) os cfg spec s = (r, s')"
  shows "\<exists>cs. calls (trace s') = calls (trace s) @ cs \<and>
    (case r of
       Inl _ \<Rightarrow> started cs = []
     | Inr _ \<Rightarrow> \<exists>app role rest. sp_Agents spec = role # rest
         \<and> started cs = [(app, \<lparr>tc_Command = ar_Command role,
              tc_Name = Some (sp_TenantRef spec @ ''-'' @ ar_Role role),
              tc_MemoryInMB = None, tc_DiskInMB = None\<rparr>)]
         \<and> (\<exists>f. cl_CreateTask lib app \<lparr>tc_Command = ar_Command role,
              tc_Name = Some (sp_TenantRef spec @ ''-'' @ ar_Role role),
              tc_MemoryInMB = None, tc_DiskInMB = None\<rparr> f = (r, cw_foundation (world s'))))"
proof (cases "sp_Agents spec")
  case Nil
  with assms show ?thesis by (auto simp: CF_SpawnAgent_def)
next
  case (Cons role rest)
  let ?C = "realCFClient lib" and ?t = "sp_TenantRef spec"
  obtain x s1 where 1: "resolveSpaceGUID ?C os cfg ?t s = (x, s1)" by fastforce
  obtain c1 where c1: "calls (trace s1) = calls (trace s) @ c1" "started c1 = []"
    using quietD [OF quiet_resolve 1] by blast
  show ?thesis
  proof (cases x)
    case (Inl e)
    with assms Cons 1 c1 show ?thesis by (auto simp: CF_SpawnAgent_def)
  next
    case (Inr g)
    obtain y s2 where 2: "ensureRunnerApp ?C (runner_name ?t (ar_Role role)) g ?t (ar_Role role) s1 = (y, s2)"
      by fastforce
    obtain c2 where c2: "calls (trace s2) = calls (trace s1) @ c2" "started c2 = []"
      using quietD [OF quiet_ensureRunnerApp 2] by blast
    show ?thesis
    proof (cases y)
      case (Inl e)
      with assms Cons 1 2 c1 c2 Inr show ?thesis
        by (intro exI [of _ "c1 @ c2"]) (auto simp: CF_SpawnAgent_def)
    next
      case app: (Inr app)
      obtain z s3 where 3: "cf_RunTask ?C app (task_request ?t role) s2 = (z, s3)" by fastforce
      from RunTask_request [OF 3] obtain e where e: "calls (trace s3) = calls (trace s2) @ [(CCreateTask app
          \<lparr>tc_Command = ar_Command role, tc_Name = Some (?t @ ''-'' @ ar_Role role), tc_MemoryInMB = None, tc_DiskInMB = None\<rparr>, e)]"
        "e = None \<longleftrightarrow> (\<exists>i. z = Inr i)" by blast
      have "s' = s3 \<and> (\<forall>i. r = Inr i \<longleftrightarrow> z = Inr i)"
        using assms Cons 1 2 3 Inr app by (cases z) (auto simp: CF_SpawnAgent_def)
      with c1 c2 e RunTask_answer [OF 3] Cons show ?thesis
        by (intro exI [of _ "c1 @ c2 @ [(CCreateTask app \<lparr>tc_Command = ar_Command role,
              tc_Name = Some (?t @ ''-'' @ ar_Role role), tc_MemoryInMB = None, tc_DiskInMB = None\<rparr>, e)]"])
           (cases r; cases e; auto)
    qed
  qed
qed

section \<open>Terminating and watching\<close>

text \<open>
  Terminating a task reports success when the cancellation was accepted, and also
  whenever the text of the error, in any capitalization, contains "succeeded" or "failed";
  every other error is returned. The text starts with the identifier of the task, and an
  error such as a failed connection counts as a task that has ended.
\<close>

theorem terminate_result:
  assumes "cl_CancelTask lib agentID (cw_foundation (world s)) = (x, f)"
  shows "fst (CF_TerminateAgent (realCFClient lib) agentID s) =
    (case x of
       Inr _ \<Rightarrow> None
     | Inl err \<Rightarrow>
         (let text = ''cancel task '' @ go_quote agentID @ '': '' @ err_text err
          in if Contains (ToLower text) ''succeeded'' \<or> Contains (ToLower text) ''failed'' then None
             else Some (Wrapped (''cancel task '' @ go_quote agentID @ '': '') err)))"
  using assms
  by (cases x) (auto simp: CF_TerminateAgent_def realCFClient_def real_CancelTask_def cf_api_def api_def
      on_foundation_def wrap_err_def err_of_def isTerminalTaskError_def Let_def)

theorem terminate_result_witness:
  "fst (CF_TerminateAgent (realCFClient
      \<lparr>cl_FirstApp = (\<lambda>n sp f. (Inr ''app'', f)), cl_CreateApp = (\<lambda>a f. (Inr ''app'', f)),
       cl_CreateTask = (\<lambda>a t f. (Inr ''task'', f)), cl_GetTask = (\<lambda>t f. (Inr ''RUNNING'', f)),
       cl_CancelTask = (\<lambda>t f. (Inl (Errorf ''dial failed''), f)),
       cl_FirstOrg = (\<lambda>n f. (Inr ''org'', f)), cl_FirstSpace = (\<lambda>g n f. (Inr ''space'', f))\<rparr>) ''t1''
      \<lparr>world = \<lparr>cw_foundation = (), cw_cache = adapter_cache\<rparr>, trace = [], ctx_next = 0, ctx_done = [],
       otlp_active = False\<rparr>) = None"
proof -
  have "Contains (ToLower ''dial failed'') ''failed''" by code_simp
  then have "Contains (ToLower (''cancel task '' @ go_quote ''t1'' @ '': '' @ ''dial failed'')) ''failed''"
    by (simp only: ToLower_append Contains_appendI1)
  then show ?thesis by (subst terminate_result) (auto simp: Let_def)
qed

text \<open>What the foundation says of a task in a turn is the last word when it is final, or any error.\<close>

definition task_state :: "'f cf_lib \<Rightarrow> string \<Rightarrow> 'f cf_turn \<Rightarrow> string res" where
  "task_state lib taskGUID p = fst (cl_GetTask lib taskGUID (cw_foundation (world (turn_state p))))"

definition cf_decisive :: "'f cf_lib \<Rightarrow> string \<Rightarrow> 'f cf_turn \<Rightarrow> bool" where
  "cf_decisive lib taskGUID p = (case task_state lib taskGUID p of Inl _ \<Rightarrow> True
     | Inr st \<Rightarrow> st \<in> {''SUCCEEDED'', ''FAILED'', ''CANCELING''})"

lemma real_GetTask_state:
  "fst (cf_GetTask (realCFClient lib) i (turn_state p)) = wrap_err (''get task '' @ go_quote i @ '': '') (task_state lib i p)"
  by (simp add: realCFClient_def real_GetTask_def cf_api_def api_def on_foundation_def task_state_def
      split: prod.splits)

text \<open>
  The watch of a task ends at its first verdict: Completed when it has succeeded, Failed
  when it has failed or is being cancelled. Unlike the watch of a pod, any error other than a
  cancellation is a verdict too, a transient one included, and carries the error's text.
\<close>

lemma cf_watch_reports:
  assumes "\<forall>p\<in>set ps. \<not> turn_done p"
  shows "cf_watch (realCFClient lib) a ps =
    (case List.find (cf_decisive lib a) ps of
       None \<Rightarrow> ([], False)
     | Some p \<Rightarrow>
         (case task_state lib a p of
            Inl err \<Rightarrow> (if err_is KCanceled err then []
                        else [\<lparr>ev_AgentID = a, ev_Type = EventFailed,
                          ev_Message = ''get task '' @ go_quote a @ '': '' @ err_text err\<rparr>], True)
          | Inr st \<Rightarrow> ([\<lparr>ev_AgentID = a,
                        ev_Type = (if st = ''SUCCEEDED'' then EventCompleted else EventFailed),
                        ev_Message = []\<rparr>], True)))"
  using assms
  by (induction ps) (auto simp: cf_decisive_def real_GetTask_state wrap_err_def task_event_def split: sum.splits)

section \<open>The properties on a concrete foundation\<close>

text \<open>
  A foundation in which an organization's GUID is its name, a space's the two names, and
  every app and task request is accepted; the clock stands still.
\<close>

definition demo_foundation :: "unit cf_lib" where
  "demo_foundation =
     \<lparr>cl_FirstApp = (\<lambda>n sp f. (Inl (Errorf ''no app''), f)), cl_CreateApp = (\<lambda>a f. (Inr ''app'', f)),
      cl_CreateTask = (\<lambda>a t f. (Inr ''task'', f)), cl_GetTask = (\<lambda>t f. (Inr ''RUNNING'', f)),
      cl_CancelTask = (\<lambda>t f. (Inr t, f)),
      cl_FirstOrg = (\<lambda>n f. (if CHR '':'' \<in> set n then Inl (Errorf ''bad'') else Inr n, f)),
      cl_FirstSpace = (\<lambda>g n f. (if CHR '':'' \<in> set g then Inl (Errorf ''bad'') else Inr (g @ '':'' @ n), f))\<rparr>"

definition still_os :: "unit os" where
  "still_os = \<lparr>os_now = (\<lambda>w. (5, w)), os_getenv = (\<lambda>k w. []), os_rand = (\<lambda>n w. (Inr (replicate n 0), w))\<rparr>"

definition demo_cf :: "unit cf_state" where
  "demo_cf = \<lparr>world = \<lparr>cw_foundation = (), cw_cache = adapter_cache\<rparr>, trace = [], ctx_next = 0,
              ctx_done = [], otlp_active = False\<rparr>"

definition dedicated :: CFAdapterConfig where
  "dedicated = \<lparr>cfg_IsolationTier = ''dedicated'', cfg_SharedOrgName = []\<rparr>"

definition demo_org :: "string \<Rightarrow> string res" where
  "demo_org n = wrap_err (''get org '' @ go_quote n @ '': '')
     (if CHR '':'' \<in> set n then Inl (Errorf ''bad'') else Inr n)"

definition demo_space :: "string \<Rightarrow> string \<Rightarrow> string res" where
  "demo_space g n = wrap_err (''get space '' @ go_quote n @ '' in org '' @ go_quote g @ '': '')
     (if CHR '':'' \<in> set g then Inl (Errorf ''bad'') else Inr (g @ '':'' @ n))"

lemma demo_lookups:
  "fst (cf_GetOrgByName (realCFClient demo_foundation) n s) = demo_org n"
  "fst (cf_GetSpaceByName (realCFClient demo_foundation) g n s) = demo_space g n"
  by (simp_all add: realCFClient_def real_GetOrgByName_def real_GetSpaceByName_def demo_foundation_def
      demo_org_def demo_space_def cf_api_def api_def on_foundation_def)

lemma demo_answers:
  "demo_org n = Inr g \<Longrightarrow> CHR '':'' \<notin> set g \<and> g = n"
  "demo_space g n = Inr x \<Longrightarrow> CHR '':'' \<notin> set g \<and> x = g @ '':'' @ n"
  by (auto simp: demo_org_def demo_space_def wrap_err_def split: if_splits)

lemma demo_colon: "demo_org n = Inr g \<Longrightarrow> CHR '':'' \<notin> set g"
  using demo_answers(1) by blast

lemma demo_cache_right: "cache_right org space (cw_cache (world demo_cf))"
  by (simp add: demo_cf_def adapter_cache_def cache_right_coherent coherent_new)

lemma demo_resolve:
  assumes "CHR '':'' \<notin> set tenant"
  shows "\<exists>t. resolveSpaceGUID (realCFClient demo_foundation) still_os dedicated tenant demo_cf
    = (Inr (tenant @ '':muto-agents''), t)"
proof -
  obtain r t where run: "resolveSpaceGUID (realCFClient demo_foundation) still_os dedicated tenant demo_cf = (r, t)"
    by fastforce
  have os: "org_and_space dedicated tenant = (tenant, ''muto-agents'')"
    by (simp add: org_and_space_def dedicated_def)
  from resolve_run [OF real.cf_client_axioms demo_lookups demo_colon demo_cache_right os run] assms
  have "r = Inr (tenant @ '':muto-agents'')" by (simp add: demo_org_def demo_space_def wrap_err_def)
  with run show ?thesis by simp
qed

theorem resolve_space_transparent_witness:
  "fst (resolveSpaceGUID (realCFClient demo_foundation) still_os dedicated ''acme'' demo_cf)
     = Inr ''acme:muto-agents''"
proof -
  let ?f = "resolveSpaceGUID (realCFClient demo_foundation) still_os dedicated ''acme'' demo_cf"
  have os: "org_and_space dedicated ''acme'' = (''acme'', ''muto-agents'')"
    by (simp add: org_and_space_def dedicated_def)
  from resolve_space_transparent [where r = "fst ?f" and s' = "snd ?f" and os = still_os,
      OF real.cf_client_axioms demo_lookups demo_colon demo_cache_right os]
  show ?thesis by (simp add: demo_org_def demo_space_def wrap_err_def)
qed

lemma tenants_get_different_spaces_example:
  "\<exists>x1 x2 t1 t2. resolveSpaceGUID (realCFClient demo_foundation) still_os dedicated ''acme'' demo_cf = (Inr x1, t1)
     \<and> resolveSpaceGUID (realCFClient demo_foundation) still_os dedicated ''beta'' demo_cf = (Inr x2, t2)
     \<and> x1 \<noteq> x2"
proof -
  obtain x1 t1 where 1: "resolveSpaceGUID (realCFClient demo_foundation) still_os dedicated ''acme'' demo_cf = (Inr x1, t1)"
    using demo_resolve [of "''acme''"] by auto
  obtain x2 t2 where 2: "resolveSpaceGUID (realCFClient demo_foundation) still_os dedicated ''beta'' demo_cf = (Inr x2, t2)"
    using demo_resolve [of "''beta''"] by auto
  have "x1 \<noteq> x2"
  proof (rule tenants_get_different_spaces [OF real.cf_client_axioms demo_lookups demo_colon
        _ _ demo_cache_right demo_cache_right 1 2])
    show "m = n" if "demo_org m = Inr g" "demo_org n = Inr g" for m n g
      using demo_answers(1) [OF that(1)] demo_answers(1) [OF that(2)] by simp
    show "g = h \<and> m = n" if "demo_space g m = Inr x" "demo_space h n = Inr x" for g h m n x
      using demo_answers(2) [OF that(1)] demo_answers(2) [OF that(2)] append_sep_inject [of g "CHR '':''" m h n]
      by auto
    show "''acme'' \<noteq> ''beta''" by simp
  qed
  with 1 2 show ?thesis by blast
qed

theorem resolve_again_is_free_witness:
  "\<exists>g s1. resolveSpaceGUID (realCFClient demo_foundation) still_os dedicated ''acme'' demo_cf = (Inr g, s1)
     \<and> trace (snd (resolveSpaceGUID (realCFClient demo_foundation) still_os dedicated ''acme'' s1)) = trace s1"
proof -
  obtain g s1 where 1: "resolveSpaceGUID (realCFClient demo_foundation) still_os dedicated ''acme'' demo_cf = (Inr g, s1)"
    using demo_resolve [of "''acme''"] by auto
  let ?f = "resolveSpaceGUID (realCFClient demo_foundation) still_os dedicated ''acme'' s1"
  have "fst ?f = Inr g \<and> trace (snd ?f) = trace s1"
    by (rule resolve_again_is_free [OF real.cf_client_axioms _ _ 1, of 0])
       (simp_all add: still_os_def demo_cf_def)
  with 1 show ?thesis by blast
qed

theorem spawn_starts_one_task_or_none_witness:
  "\<exists>cs app s'. CF_SpawnAgent (realCFClient demo_foundation) still_os dedicated
       (role_spec ''acme'' \<lparr>ar_Role = ''w'', ar_Image = [], ar_Command = ''run'', ar_MaxReplicas = 1\<rparr>) demo_cf
       = (Inr ''task'', s')
     \<and> calls (trace s') = cs
     \<and> started cs = [(app, \<lparr>tc_Command = ''run'', tc_Name = Some ''acme-w'', tc_MemoryInMB = None, tc_DiskInMB = None\<rparr>)]"
proof -
  let ?C = "realCFClient demo_foundation"
  let ?role = "\<lparr>ar_Role = ''w'', ar_Image = [], ar_Command = ''run'', ar_MaxReplicas = 1\<rparr>"
  let ?f = "CF_SpawnAgent ?C still_os dedicated (role_spec ''acme'' ?role) demo_cf"
  obtain g s1 where 1: "resolveSpaceGUID ?C still_os dedicated ''acme'' demo_cf = (Inr g, s1)"
    using demo_resolve [of "''acme''"] by auto
  obtain s2 where 2: "ensureRunnerApp ?C (runner_name ''acme'' ''w'') g ''acme'' ''w'' s1 = (Inr ''app'', s2)"
    by (simp add: ensureRunnerApp_def realCFClient_def real_GetAppByName_def real_PushApp_def
        demo_foundation_def cf_api_def api_def on_foundation_def wrap_err_def)
  obtain s3 where 3: "cf_RunTask ?C ''app'' (task_request ''acme'' ?role) s2 = (Inr ''task'', s3)"
    by (simp add: realCFClient_def real_RunTask_def demo_foundation_def cf_api_def api_def
        on_foundation_def wrap_err_def)
  obtain s' where run: "?f = (Inr ''task'', s')"
    by (simp add: CF_SpawnAgent_def role_spec_def 1 2 3)
  from spawn_starts_one_task_or_none [OF this] run
  show ?thesis by (auto simp: role_spec_def demo_cf_def)
qed

end
