(* ===== verification/CF_Isolation.thy ===== *)
theory CF_Isolation
  imports CF_Resolution
begin

text \<open>
  Tenants on Cloud Foundry, from the scheduler down to the foundation: whatever jobs are
  scheduled and cancelled, in whatever order, every task that is started runs on an app in the space
  of its job's tenant, and the spaces of two tenants differ.
\<close>

section \<open>What a computation may do\<close>

text \<open>
  From \<open>s\<close> to \<open>s'\<close> a right cache stayed right, and every task started satisfies \<open>P\<close>.
\<close>

definition confined ::
    "(string \<Rightarrow> string res) \<Rightarrow> (string \<Rightarrow> string \<Rightarrow> string res) \<Rightarrow> (string \<times> TaskCreate \<Rightarrow> bool)
     \<Rightarrow> 'f cf_state \<Rightarrow> 'f cf_state \<Rightarrow> bool" where
  "confined org space P s s' \<longleftrightarrow>
     (cache_right org space (cw_cache (world s)) \<longrightarrow>
        cache_right org space (cw_cache (world s'))
        \<and> (\<exists>cs. calls (trace s') = calls (trace s) @ cs \<and> (\<forall>x\<in>set (started cs). P x)))"

lemma confined_trans:
  "confined org space P s s1 \<Longrightarrow> confined org space P s1 s2 \<Longrightarrow> confined org space P s s2"
  by (fastforce simp: confined_def)

lemma confined_same:
  "calls (trace s') = calls (trace s) \<Longrightarrow> cw_cache (world s') = cw_cache (world s) \<Longrightarrow> confined org space P s s'"
  by (simp add: confined_def)

lemma confined_refl [simp]: "confined org space P s s"
  by (rule confined_same) simp_all

text \<open>Requests that start no task and leave the cache alone\<close>

lemma confined_quiet:
  assumes "quiet f" and "keeps_cache f" and "f s = (r, s')"
  shows "confined org space P s s'"
  using quietD [OF assms(1,3)] keeps_cacheD [OF assms(2,3)] by (auto simp: confined_def)

section \<open>The foundation\<close>

text \<open>
  A foundation whose names keep their GUIDs, seen through the client, and where the app a lookup
  finds in a space, or a creation puts there, is in that space. An organization's GUID holds no colon.
\<close>

definition steady ::
    "'f cf_lib \<Rightarrow> (string \<Rightarrow> string res) \<Rightarrow> (string \<Rightarrow> string \<Rightarrow> string res) \<Rightarrow> (string \<Rightarrow> string) \<Rightarrow> bool" where
  "steady lib org space space_of \<longleftrightarrow>
     (\<forall>n s. fst (cf_GetOrgByName (realCFClient lib) n s) = org n)
     \<and> (\<forall>g n s. fst (cf_GetSpaceByName (realCFClient lib) g n s) = space g n)
     \<and> (\<forall>n g. org n = Inr g \<longrightarrow> CHR '':'' \<notin> set g)
     \<and> (\<forall>n sp f a f'. cl_FirstApp lib n sp f = (Inr a, f') \<longrightarrow> space_of a = sp)
     \<and> (\<forall>req f a f'. cl_CreateApp lib req f = (Inr a, f') \<longrightarrow> space_of a = ac_SpaceGUID req)"

text \<open>No two organizations, and no two spaces, have one GUID.\<close>

definition own_guids :: "(string \<Rightarrow> string res) \<Rightarrow> (string \<Rightarrow> string \<Rightarrow> string res) \<Rightarrow> bool" where
  "own_guids org space \<longleftrightarrow>
     (\<forall>m n g. org m = Inr g \<and> org n = Inr g \<longrightarrow> m = n)
     \<and> (\<forall>g h m n x. space g m = Inr x \<and> space h n = Inr x \<longrightarrow> g = h \<and> m = n)"

text \<open>The space a tenant belongs to, by the names alone\<close>

definition tenant_space ::
    "(string \<Rightarrow> string res) \<Rightarrow> (string \<Rightarrow> string \<Rightarrow> string res) \<Rightarrow> CFAdapterConfig \<Rightarrow> string \<Rightarrow> string \<Rightarrow> bool" where
  "tenant_space org space cfg tenant x \<longleftrightarrow>
     (\<exists>g. org (fst (org_and_space cfg tenant)) = Inr g \<and> space g (snd (org_and_space cfg tenant)) = Inr x)"

lemma tenant_space_apart:
  assumes "own_guids org space" and "tenant_space org space cfg t1 x" and "tenant_space org space cfg t2 x"
  shows "t1 = t2"
proof -
  obtain g h where "org (fst (org_and_space cfg t1)) = Inr g" "space g (snd (org_and_space cfg t1)) = Inr x"
    and "org (fst (org_and_space cfg t2)) = Inr h" "space h (snd (org_and_space cfg t2)) = Inr x"
    using assms(2,3) by (auto simp: tenant_space_def)
  with assms(1) have "org_and_space cfg t1 = org_and_space cfg t2"
    unfolding own_guids_def by (metis prod_eqI)
  then show ?thesis by (auto simp: org_and_space_def split: if_splits)
qed

lemma resolve_confined:
  assumes "steady lib org space space_of"
    and "resolveSpaceGUID (realCFClient lib) os cfg tenant s = (r, s')"
  shows "confined org space P s s'"
    and "cache_right org space (cw_cache (world s)) \<Longrightarrow> r = Inr x \<Longrightarrow> tenant_space org space cfg tenant x"
proof -
  obtain orgN sp where os: "org_and_space cfg tenant = (orgN, sp)" by fastforce
  have look: "fst (cf_GetOrgByName (realCFClient lib) n s) = org n"
    "fst (cf_GetSpaceByName (realCFClient lib) g n s) = space g n"
    "org n = Inr g \<Longrightarrow> CHR '':'' \<notin> set g" for n g s
    using assms(1) by (simp_all add: steady_def)
  note run = resolve_run [OF real.cf_client_axioms look(1,2) look(3) _ os assms(2)]
  from quietD [OF quiet_resolve assms(2)] run show "confined org space P s s'"
    by (auto simp: confined_def)
  assume "cache_right org space (cw_cache (world s))" and "r = Inr x"
  with run show "tenant_space org space cfg tenant x"
    by (auto simp: tenant_space_def os split: sum.splits)
qed

lemma GetAppByName_space:
  assumes "steady lib org space space_of" and "cf_GetAppByName (realCFClient lib) name sp s = (Inr app, s')"
  shows "space_of app = sp"
proof -
  obtain f' where "cl_FirstApp lib name sp (cw_foundation (world s)) = (Inr app, f')"
    using assms(2) by (auto simp: realCFClient_def real_GetAppByName_def cf_api_def api_def on_foundation_def
        wrap_err_def split: prod.splits sum.splits)
  with assms(1) show ?thesis unfolding steady_def by blast
qed

lemma PushApp_space:
  assumes "steady lib org space space_of" and "cf_PushApp (realCFClient lib) req s = (Inr app, s')"
  shows "space_of app = pr_SpaceGUID req"
proof -
  obtain f' where "cl_CreateApp lib (app_create req) (cw_foundation (world s)) = (Inr app, f')"
    using assms(2) by (auto simp: realCFClient_def real_PushApp_def cf_api_def api_def on_foundation_def
        wrap_err_def split: prod.splits sum.splits)
  with assms(1) have "space_of app = ac_SpaceGUID (app_create req)" unfolding steady_def by blast
  then show ?thesis by (simp add: app_create_def)
qed

lemma ensureRunnerApp_space:
  assumes "steady lib org space space_of"
    and "ensureRunnerApp (realCFClient lib) name sp tenant role s = (Inr app, s')"
  shows "space_of app = sp"
  using assms(2) GetAppByName_space [OF assms(1)] PushApp_space [OF assms(1)]
  by (auto simp: ensureRunnerApp_def runner_push_def split: prod.splits sum.splits)

lemma tame_cache: "tame f \<Longrightarrow> keeps_cache f"
  by (simp add: tame_def)

lemmas real_keep_cache = real.tame_GetAppByName [THEN tame_cache] real.tame_PushApp [THEN tame_cache]
  real.tame_RunTask [THEN tame_cache] real.tame_CancelTask [THEN tame_cache]

lemma ensureRunnerApp_confined:
  assumes "ensureRunnerApp (realCFClient lib) name sp tenant role s = (r, s')"
  shows "confined org space P s s'"
proof -
  have "cw_cache (world s') = cw_cache (world s)"
    using assms by (auto simp: ensureRunnerApp_def dest!: keeps_cacheD [OF real_keep_cache(1)]
        keeps_cacheD [OF real_keep_cache(2)] split: prod.splits sum.splits)
  with quietD [OF quiet_ensureRunnerApp assms] show ?thesis by (auto simp: confined_def)
qed

lemma RunTask_confined:
  assumes "cf_RunTask (realCFClient lib) app (task_request t role) s = (r, s')"
    and "\<And>tc. P (app, tc)"
  shows "confined org space P s s'"
  using keeps_cacheD [OF real_keep_cache(3) assms(1)] RunTask_request [OF assms(1)]
  by (auto simp: confined_def started_def assms(2) split: option.splits)

section \<open>The adapter keeps each tenant to its space\<close>

text \<open>
  \<open>spec\<close>'s tasks run in the space of its tenant; nothing else starts a task.
\<close>

definition in_space_of ::
    "(string \<Rightarrow> string res) \<Rightarrow> (string \<Rightarrow> string \<Rightarrow> string res) \<Rightarrow> CFAdapterConfig \<Rightarrow> (string \<Rightarrow> string)
     \<Rightarrow> string \<Rightarrow> string \<times> TaskCreate \<Rightarrow> bool" where
  "in_space_of org space cfg space_of tenant x \<longleftrightarrow> tenant_space org space cfg tenant (space_of (fst x))"

definition confines ::
    "('f cf_world, cf_call, 'p) adapter \<Rightarrow> (string \<Rightarrow> string res) \<Rightarrow> (string \<Rightarrow> string \<Rightarrow> string res)
     \<Rightarrow> (string \<Rightarrow> string \<times> TaskCreate \<Rightarrow> bool) \<Rightarrow> bool" where
  "confines A org space P \<longleftrightarrow>
     (\<forall>spec s. confined org space (P (sp_TenantRef spec)) s (snd (pa_SpawnAgent A spec s)))
     \<and> (\<forall>i s Q. confined org space Q s (snd (pa_TerminateAgent A i s)))
     \<and> (\<forall>c i s Q. confined org space Q s (snd (pa_WatchAgent A c i s)))"

lemma CF_SpawnAgent_confined:
  assumes "steady lib org space space_of"
    and "CF_SpawnAgent (realCFClient lib) os cfg spec s = (r, s')"
  shows "confined org space (in_space_of org space cfg space_of (sp_TenantRef spec)) s s'"
proof (cases "sp_Agents spec")
  case Nil
  with assms(2) show ?thesis by (simp add: CF_SpawnAgent_def)
next
  case (Cons role rest)
  let ?C = "realCFClient lib" and ?t = "sp_TenantRef spec"
  let ?P = "in_space_of org space cfg space_of ?t"
  obtain x s1 where 1: "resolveSpaceGUID ?C os cfg ?t s = (x, s1)" by fastforce
  note c1 = resolve_confined [OF assms(1) 1]
  show ?thesis
  proof (cases x)
    case (Inl e)
    with assms(2) Cons 1 have "s' = s1" by (auto simp: CF_SpawnAgent_def)
    with c1(1) show ?thesis by simp
  next
    case (Inr g)
    obtain y s2 where 2: "ensureRunnerApp ?C (runner_name ?t (ar_Role role)) g ?t (ar_Role role) s1 = (y, s2)"
      by fastforce
    note c2 = confined_trans [OF c1(1) ensureRunnerApp_confined [OF 2]]
    show ?thesis
    proof (cases y)
      case (Inl e)
      with assms(2) Cons 1 2 Inr have "s' = s2" by (auto simp: CF_SpawnAgent_def)
      with c2 show ?thesis by simp
    next
      case app: (Inr app)
      obtain z where 3: "cf_RunTask ?C app (task_request ?t role) s2 = (z, s')"
        using assms(2) Cons 1 2 Inr app by (auto simp: CF_SpawnAgent_def split: prod.splits sum.splits)
      have "space_of app = g" using ensureRunnerApp_space [OF assms(1)] 2 app by blast
      then have "?P (app, tc)" if "cache_right org space (cw_cache (world s))" for tc
        using c1(2) [OF that Inr] by (simp add: in_space_of_def)
      with c2 RunTask_confined [OF 3, of ?P] show ?thesis
        by (meson confined_def confined_trans)
    qed
  qed
qed

lemma CF_confines:
  assumes "steady lib org space space_of"
  shows "confines (NewCFAdapter (realCFClient lib) os cfg) org space (in_space_of org space cfg space_of)"
proof -
  have "quiet (cf_CancelTask (realCFClient lib) i)" for i
    by (auto simp: realCFClient_def real_CancelTask_def started_def intro!: quietI dest!: calls_cf_api split: prod.splits)
  then have "confined org space Q s s'" if "cf_CancelTask (realCFClient lib) i s = (e, s')" for i s e s' Q
    using confined_quiet [OF _ real_keep_cache(4)] that by blast
  then show ?thesis
    unfolding confines_def
    by (auto simp: CF_TerminateAgent_def CF_WatchAgent_def CF_SpawnAgent_confined [OF assms] prod_eq_iff
        split: prod.splits)
qed

text \<open>Spans are not requests, so a traced adapter is confined as well.\<close>

lemma Wrap_calls:
  "f (emit (SpanStart name) s) = (r, s1) \<Longrightarrow> calls (trace (snd (Wrap name f s))) = calls (trace s1)
     \<and> world (snd (Wrap name f s)) = world s1"
  by (simp add: WrapWith_def split: sum.split)

lemma WrapErr_calls:
  "f (emit (SpanStart name) s) = (r, s1) \<Longrightarrow> calls (trace (snd (WrapErr name f s))) = calls (trace s1)
     \<and> world (snd (WrapErr name f s)) = world s1"
  by (cases r) (simp_all add: WrapErrWith_def WrapWith_def res_of_def)

lemma confined_span:
  assumes "\<And>s. confined org space P s (snd (f s))"
    and "\<And>r s1. f (emit (SpanStart name) s) = (r, s1) \<Longrightarrow> calls (trace s') = calls (trace s1) \<and> world s' = world s1"
  shows "confined org space P s s'"
proof -
  obtain r s1 where run: "f (emit (SpanStart name) s) = (r, s1)" by fastforce
  with assms(1) [of "emit (SpanStart name) s"] assms(2) [OF run] show ?thesis by (simp add: confined_def)
qed

lemma traced_confines: "confines A org space P \<Longrightarrow> confines (WrapPlatformAdapter A) org space P"
  by (auto simp: confines_def intro!: confined_span [OF _ Wrap_calls] confined_span [OF _ WrapErr_calls])

lemma role_spec_tenant [simp]: "sp_TenantRef (role_spec t role) = t"
  by (simp add: role_spec_def)

section \<open>The scheduler\<close>

lemma spawn_all_confined:
  assumes "confines A org space P" and "spawn_all A t roles s = (r, s')"
  shows "confined org space (P t) s s'"
  using assms(2)
proof (induction roles arbitrary: s r s')
  case (Cons role roles)
  obtain x s1 where 1: "pa_SpawnAgent A (role_spec t role) s = (x, s1)" by fastforce
  then have c1: "confined org space (P t) s s1"
    using assms(1) unfolding confines_def by (metis role_spec_tenant snd_conv)
  obtain y s2 where 2: "spawn_all A t roles s1 = (y, s2)" by fastforce
  from Cons.prems 1 2 confined_trans [OF c1 Cons.IH [OF 2]] c1 show ?case
    by (auto split: sum.splits)
qed simp

lemma watch_all_confined:
  assumes "confines A org space P" and "watch_all A c ids s = (r, s')"
  shows "confined org space Q s s'"
  using assms(2)
proof (induction ids arbitrary: s r s')
  case (Cons i ids)
  obtain x s1 where 1: "pa_WatchAgent A c i s = (x, s1)" by fastforce
  then have c1: "confined org space Q s s1" using assms(1) unfolding confines_def by (metis snd_conv)
  obtain y s2 where 2: "watch_all A c ids s1 = (y, s2)" by fastforce
  from Cons.prems 1 2 confined_trans [OF c1 Cons.IH [OF 2]] c1 show ?case
    by (auto split: sum.splits)
qed simp

lemma terminate_each_confined:
  assumes "confines A org space P" shows "confined org space Q s (terminate_each A ids s)"
proof (induction ids arbitrary: s)
  case (Cons i ids)
  have "confined org space Q s (snd (pa_TerminateAgent A i s))" using assms by (simp add: confines_def)
  from confined_trans [OF this Cons.IH] show ?case by simp
qed simp

lemma terminate_all_confined:
  assumes "confines A org space P" and "terminate_all A ids s = (r, s')"
  shows "confined org space Q s s'"
  using assms(2)
proof (induction ids arbitrary: s r s')
  case (Cons i ids)
  obtain e s1 where 1: "pa_TerminateAgent A i s = (e, s1)" by fastforce
  then have c1: "confined org space Q s s1" using assms(1) unfolding confines_def by (metis snd_conv)
  from Cons.prems 1 confined_trans [OF c1 Cons.IH] c1 show ?case by (auto split: option.splits)
qed simp

lemma confined_with_cancel: "with_cancel s = (c, s') \<Longrightarrow> confined org space P s s'"
  by (rule confined_same) (auto simp: with_cancel_def)

lemma confined_cancel_ctx: "confined org space P s (cancel_ctx c s)"
  by (rule confined_same) (simp_all add: cancel_ctx_def)

lemma Schedule_confined:
  assumes "confines A org space P" and "Schedule A job (ds, s) = (r, (ds', s'))"
  shows "confined org space (P (sp_TenantRef (job_Spec job))) s s'"
proof -
  let ?t = "sp_TenantRef (job_Spec job)"
  obtain x s1 where 1: "spawn_all A ?t (sp_Agents (job_Spec job)) s = (x, s1)" by fastforce
  note c1 = spawn_all_confined [OF assms(1) 1]
  show ?thesis
  proof (cases x)
    case (Inl e)
    with assms(2) 1 c1 show ?thesis by (simp add: Schedule_def)
  next
    case (Inr ids)
    obtain c s2 where 2: "with_cancel s1 = (c, s2)" by fastforce
    obtain y s3 where 3: "watch_all A c ids s2 = (y, s3)" by fastforce
    note c3 = confined_trans [OF c1 confined_trans [OF confined_with_cancel [OF 2] watch_all_confined [OF assms(1) 3]]]
    have "s' = s3 \<or> s' = cancel_ctx c s3 \<or> s' = terminate_each A ids (cancel_ctx c s3)"
      using assms(2) 1 2 3 Inr by (auto simp: Schedule_def split: sum.splits option.splits prod.splits)
    then show ?thesis
      using c3 confined_trans [OF c3 confined_cancel_ctx]
        confined_trans [OF c3 confined_trans [OF confined_cancel_ctx terminate_each_confined [OF assms(1)]]] by blast
  qed
qed

lemma Cancel_confined:
  assumes "confines A org space P" and "Cancel A i (ds, s) = (r, (ds', s'))"
  shows "confined org space Q s s'"
proof (cases "ds_jobs ds i")
  case None
  with assms(2) show ?thesis by (simp add: Cancel_def)
next
  case (Some rec)
  obtain e s1 where 1: "terminate_all A (jr_agentIDs rec) s = (e, s1)" by fastforce
  note c1 = terminate_all_confined [OF assms(1) 1]
  have "s' = s1 \<or> s' = cancel_ctx (jr_cancelWatch rec) s1"
    using assms(2) 1 Some by (auto simp: Cancel_def split: option.splits prod.splits if_splits)
  then show ?thesis using c1 confined_trans [OF c1 confined_cancel_ctx] by blast
qed

section \<open>Any sequence of calls\<close>

text \<open>
  Calls of the scheduler one after the other. The history lists, for each \<open>Schedule\<close>, the tenant
  of the job and the tasks that were started during the call.
\<close>

datatype sched_call = CallSchedule Job | CallCancel string

fun serve ::
    "('f cf_world, cf_call, 'p) adapter \<Rightarrow> sched_call list \<Rightarrow> 'p DefaultScheduler \<times> 'f cf_state
     \<Rightarrow> (string \<times> string \<times> TaskCreate) list \<times> 'p DefaultScheduler \<times> 'f cf_state" where
  "serve A [] st = ([], st)"
| "serve A (CallSchedule job # cs) st =
     (let st1 = snd (Schedule A job st);
          tasks = started (drop (length (calls (trace (snd st)))) (calls (trace (snd st1))));
          (rest, st2) = serve A cs st1
      in (map (Pair (sp_TenantRef (job_Spec job))) tasks @ rest, st2))"
| "serve A (CallCancel i # cs) st = serve A cs (snd (Cancel A i st))"

lemma serve_confined:
  assumes "confines A org space P" and "cache_right org space (cw_cache (world (snd st)))"
    and "serve A cs st = (hist, st')" and "(t, x) \<in> set hist"
  shows "P t x"
  using assms
proof (induction A cs st arbitrary: hist rule: serve.induct)
  case (2 A job cs st)
  obtain ds s where st: "st = (ds, s)" by (cases st)
  obtain r ds1 s1 where run: "Schedule A job (ds, s) = (r, (ds1, s1))" by (metis prod_cases3)
  obtain rest st2 where rest: "serve A cs (ds1, s1) = (rest, st2)" by (metis prod.collapse)
  have "confined org space (P (sp_TenantRef (job_Spec job))) s s1"
    by (rule Schedule_confined [OF 2(2) run])
  then show ?case using 2 st run rest by (auto simp: confined_def)
next
  case (3 A i cs st)
  obtain ds s where st: "st = (ds, s)" by (cases st)
  obtain r ds1 s1 where run: "Cancel A i (ds, s) = (r, (ds1, s1))" by (metis prod_cases3)
  have "confined org space (P t) s s1"
    by (rule Cancel_confined [OF 3(2) run])
  then show ?case using 3 st run by (auto simp: confined_def)
qed simp

text \<open>
  C17. Tenants never share a space on Cloud Foundry: from a new adapter, through any sequence of calls
  that schedule and cancel jobs, whatever fails on the way, every task that is started runs on an
  app in the space its job's tenant resolves to, in either isolation tier; so the tasks of two tenants
  are never in one space, when the foundation gives different names different GUIDs.
\<close>

theorem tenants_never_share_a_space:
  assumes "steady lib org space space_of" and "own_guids org space"
    and "A = NewCFAdapter (realCFClient lib) os cfg \<or> A = WrapPlatformAdapter (NewCFAdapter (realCFClient lib) os cfg)"
    and "cw_cache (world s) = adapter_cache" and "serve A calls_made (ds, s) = (hist, st)"
  shows "(\<forall>(t, app, task)\<in>set hist. tenant_space org space cfg t (space_of app))
    \<and> (\<forall>(t, app, task)\<in>set hist. \<forall>(u, app', task')\<in>set hist. t \<noteq> u \<longrightarrow> space_of app \<noteq> space_of app')"
proof -
  have "confines A org space (in_space_of org space cfg space_of)"
    using assms(3) CF_confines [OF assms(1)] traced_confines by blast
  moreover have "cache_right org space (cw_cache (world (snd (ds, s))))"
    by (simp add: assms(4) adapter_cache_def cache_right_coherent coherent_new)
  ultimately have 1: "tenant_space org space cfg t (space_of app)" if "(t, app, task) \<in> set hist" for t app task
    using serve_confined [where P = "in_space_of org space cfg space_of", OF _ _ assms(5) that]
    by (simp add: in_space_of_def)
  moreover have "t = u" if "(t, app, task) \<in> set hist" "(u, app', task') \<in> set hist" "space_of app = space_of app'"
    for t app task u app' task'
    using tenant_space_apart [OF assms(2) 1 [OF that(1)]] 1 [OF that(2)] that(3) by simp
  ultimately show ?thesis by blast
qed

text \<open>A foundation that has one app in each space, named after it\<close>

definition spaced_foundation :: "unit cf_lib" where
  "spaced_foundation = demo_foundation\<lparr>cl_CreateApp := (\<lambda>a f. (Inr (ac_SpaceGUID a), f))\<rparr>"

definition tenant_job :: "string \<Rightarrow> string \<Rightarrow> Job" where
  "tenant_job i tenant = \<lparr>job_ID = i, job_TenantID = tenant,
     job_Spec = zero_Spec\<lparr>sp_TenantRef := tenant,
       sp_Agents := [\<lparr>ar_Role = ''w'', ar_Image = [], ar_Command = ''run'', ar_MaxReplicas = 1\<rparr>]\<rparr>,
     job_Status = zero_Status\<rparr>"

lemma two_tenants_served:
  "map (\<lambda>(t, app, task). (t, app)) (fst (serve (NewCFAdapter (realCFClient spaced_foundation) still_os dedicated)
      [CallSchedule (tenant_job ''j1'' ''acme''), CallCancel ''j1'', CallSchedule (tenant_job ''j2'' ''beta'')]
      (NewDefaultScheduler, demo_cf)))
    = [(''acme'', ''acme:muto-agents''), (''beta'', ''beta:muto-agents'')]"
  by (simp add: Schedule_def Cancel_def tenant_job_def CF_SpawnAgent_def role_spec_def resolveSpaceGUID_def org_and_space_def
      dedicated_def cached_def guid_get_def guid_set_def cf_now_def still_os_def demo_cf_def adapter_cache_def newGUIDCache_def
      cache_set_def cache_get_def realCFClient_def real_GetOrgByName_def real_GetSpaceByName_def real_GetAppByName_def real_PushApp_def
      real_RunTask_def real_CancelTask_def spaced_foundation_def demo_foundation_def cf_api_def api_def on_foundation_def wrap_err_def
      err_of_def app_create_def runner_push_def ensureRunnerApp_def CF_WatchAgent_def CF_TerminateAgent_def schedule_commit_def
      cancel_commit_def NewDefaultScheduler_def with_cancel_def cancel_ctx_def zero_Status_def set_phase_def orgCacheKey_def spaceCacheKey_def Let_def)

lemma spaced_steady: "steady spaced_foundation demo_org demo_space (\<lambda>app. app)"
proof -
  have "fst (cf_GetOrgByName (realCFClient spaced_foundation) n s) = fst (cf_GetOrgByName (realCFClient demo_foundation) n s)"
    "fst (cf_GetSpaceByName (realCFClient spaced_foundation) g n s) = fst (cf_GetSpaceByName (realCFClient demo_foundation) g n s)"
    for g n and s :: "unit cf_state"
    by (simp_all add: realCFClient_def real_GetOrgByName_def real_GetSpaceByName_def spaced_foundation_def cf_api_def)
  moreover have "cl_FirstApp spaced_foundation n sp f \<noteq> (Inr a, f')"
    "cl_CreateApp spaced_foundation req f = (Inr a, f') \<Longrightarrow> a = ac_SpaceGUID req" for n sp f a f' req
    by (simp_all add: spaced_foundation_def demo_foundation_def)
  ultimately show ?thesis using demo_lookups demo_colon by (simp add: steady_def)
qed

lemma demo_own_guids: "own_guids demo_org demo_space"
proof -
  have "m = n" if "demo_org m = Inr g" "demo_org n = Inr g" for m n g
    using demo_answers(1) [OF that(1)] demo_answers(1) [OF that(2)] by simp
  moreover have "g = h \<and> m = n" if "demo_space g m = Inr x" "demo_space h n = Inr x" for g h m n x
    using demo_answers(2) [OF that(1)] demo_answers(2) [OF that(2)] append_sep_inject [of g "CHR '':''" m h n] by auto
  ultimately show ?thesis unfolding own_guids_def by blast
qed

theorem tenants_never_share_a_space_witness:
  "\<exists>hist st. serve (NewCFAdapter (realCFClient spaced_foundation) still_os dedicated)
      [CallSchedule (tenant_job ''j1'' ''acme''), CallCancel ''j1'', CallSchedule (tenant_job ''j2'' ''beta'')]
      (NewDefaultScheduler, demo_cf) = (hist, st)
    \<and> map (\<lambda>(t, app, task). (t, app)) hist = [(''acme'', ''acme:muto-agents''), (''beta'', ''beta:muto-agents'')]
    \<and> (\<forall>(t, app, task)\<in>set hist. tenant_space demo_org demo_space dedicated t app)"
proof -
  let ?run = "serve (NewCFAdapter (realCFClient spaced_foundation) still_os dedicated)
      [CallSchedule (tenant_job ''j1'' ''acme''), CallCancel ''j1'', CallSchedule (tenant_job ''j2'' ''beta'')]
      (NewDefaultScheduler, demo_cf)"
  have "\<forall>(t, app, task)\<in>set (fst ?run). tenant_space demo_org demo_space dedicated t app"
    by (rule tenants_never_share_a_space [OF spaced_steady demo_own_guids disjI1 [OF refl] _ prod.collapse [symmetric], THEN conjunct1])
       (simp add: demo_cf_def)
  with two_tenants_served show ?thesis by (metis prod.collapse)
qed

end
