(* ===== verification/CF_Jobs.thy ===== *)
theory CF_Jobs
  imports Watched_Jobs CF_Resolution
begin

text \<open>
  A job from its scheduling to its outcome on Cloud Foundry: the goroutines that \<open>Schedule\<close> starts
  poll the tasks it ran, and the phase \<open>watchJob\<close> writes is decided by what the polls return,
  their errors included.
\<close>

section \<open>What becomes of a task\<close>

text \<open>
  The first decisive answer about the task with the given identifier: a final state, or any error.
  A cancelled context says nothing of the task, and the watch is over all the same.
\<close>

fun task_outcome :: "'f cf_lib \<Rightarrow> string \<Rightarrow> 'f cf_turn list \<Rightarrow> EventType option" where
  "task_outcome lib i [] = None"
| "task_outcome lib i (p # ps) =
     (case task_state lib i p of
        Inl err \<Rightarrow> (if err_is KCanceled err then None else Some EventFailed)
      | Inr state \<Rightarrow>
          (if state = ''SUCCEEDED'' then Some EventCompleted
           else if state = ''FAILED'' \<or> state = ''CANCELING'' then Some EventFailed
           else task_outcome lib i ps))"

lemma cf_watch_outcome:
  "\<forall>p\<in>set ps. \<not> turn_done p \<Longrightarrow>
     map ev_Type (fst (cf_watch (realCFClient lib) i ps)) = (case task_outcome lib i ps of None \<Rightarrow> [] | Some t \<Rightarrow> [t])"
  by (induction ps) (auto simp: real_GetTask_state wrap_err_def task_event_def split: sum.split)

section \<open>The adapter, with or without tracing\<close>

interpretation cf_watched: watched_adapter "NewCFAdapter (realCFClient lib) os cfg" "cf_watch (realCFClient lib)"
    "\<lambda>p. \<not> turn_done p" "task_outcome lib"
  for lib :: "'f cf_lib" and os :: "'f os" and cfg :: CFAdapterConfig
  by unfold_locales (simp_all add: CF_WatchAgent_def cf_watch_one_shot cf_watch_outcome)

definition cf_adapter ::
    "'f cf_lib \<Rightarrow> 'f os \<Rightarrow> CFAdapterConfig \<Rightarrow> ('f cf_world, cf_call, 'f cf_turn) adapter \<Rightarrow> bool" where
  "cf_adapter lib os cfg A \<longleftrightarrow>
     A = NewCFAdapter (realCFClient lib) os cfg \<or> A = WrapPlatformAdapter (NewCFAdapter (realCFClient lib) os cfg)"

lemma cf_adapter_watched:
  "cf_adapter lib os cfg A \<Longrightarrow> watched_adapter A (cf_watch (realCFClient lib)) (\<lambda>p. \<not> turn_done p) (task_outcome lib)"
  using cf_watched.watched_adapter_axioms by (auto simp: cf_adapter_def intro: traced_watched)

text \<open>What a spawned agent is: a task the foundation accepted for the role, and its identifier\<close>

definition accepted_task :: "'f cf_lib \<Rightarrow> string \<Rightarrow> AgentRole \<Rightarrow> string \<Rightarrow> bool" where
  "accepted_task lib t role i \<longleftrightarrow>
     (\<exists>app f f'. cl_CreateTask lib app \<lparr>tc_Command = ar_Command role, tc_Name = Some (t @ ''-'' @ ar_Role role),
        tc_MemoryInMB = None, tc_DiskInMB = None\<rparr> f = (Inr i, f'))"

lemma cf_spawned_task:
  assumes "CF_SpawnAgent (realCFClient lib) os cfg (role_spec t role) s = (Inr i, s')"
  shows "accepted_task lib t role i"
proof -
  obtain app u where "cf_RunTask (realCFClient lib) app (task_request t role) u = (Inr i, s')"
    using assms by (auto simp: CF_SpawnAgent_def role_spec_def split: sum.splits prod.splits)
  from RunTask_answer [OF this] show ?thesis by (auto simp: accepted_task_def)
qed

lemma cf_spawn_all:
  assumes "cf_adapter lib os cfg A"
  shows "spawn_all A t roles s = (Inr ids, s') \<Longrightarrow> list_all2 (accepted_task lib t) roles ids"
proof (induction roles arbitrary: s ids)
  case (Cons role roles)
  from Cons.prems obtain i rest s1 where 1: "pa_SpawnAgent A (role_spec t role) s = (Inr i, s1)"
    and "spawn_all A t roles s1 = (Inr rest, s')" "ids = i # rest"
    by (auto split: sum.splits prod.splits)
  moreover have "accepted_task lib t role i"
    using assms 1 by (auto simp: cf_adapter_def dest!: Wrap_result cf_spawned_task)
  ultimately show ?case using Cons.IH by auto
qed simp


text \<open>What the foundation can answer before a task is decided, and the error that decides it\<close>

lemma error_is_failure:
  assumes "\<forall>p\<in>set us. task_state lib i p \<in> Inr ` (- {''SUCCEEDED'', ''FAILED'', ''CANCELING''})"
    and "task_state lib i p = Inl err" and "\<not> err_is KCanceled err"
  shows "task_outcome lib i (us @ p # ps) = Some EventFailed"
  using assms(1) by (induction us) (auto simp: assms(2,3) split: if_splits)

text \<open>A foundation whose state is what it answers about its task: here a request times out in between\<close>

definition polled_foundation :: "(string res) cf_lib" where
  "polled_foundation =
     \<lparr>cl_FirstApp = (\<lambda>n sp f. (Inr ''app'', f)), cl_CreateApp = (\<lambda>a f. (Inr ''app'', f)),
      cl_CreateTask = (\<lambda>a t f. (Inr ''task'', f)), cl_GetTask = (\<lambda>t f. (f, f)), cl_CancelTask = (\<lambda>t f. (Inr t, f)),
      cl_FirstOrg = (\<lambda>n f. (Inr n, f)), cl_FirstSpace = (\<lambda>g n f. (Inr n, f))\<rparr>"

definition foundation_at :: "string res \<Rightarrow> (string res) cf_world" where
  "foundation_at r = \<lparr>cw_foundation = r, cw_cache = adapter_cache\<rparr>"

definition one_task :: "(string res) cf_turn list list" where
  "one_task = [map (turn_on \<circ> foundation_at) [Inr ''RUNNING'', Inl (Errorf ''timeout''), Inr ''SUCCEEDED'']]"

definition cf_job :: Job where
  "cf_job = \<lparr>job_ID = ''j'', job_TenantID = ''acme'',
     job_Spec = zero_Spec\<lparr>sp_TenantRef := ''acme'',
       sp_Agents := [\<lparr>ar_Role = ''w'', ar_Image = [], ar_Command = ''run'', ar_MaxReplicas = 1\<rparr>]\<rparr>,
     job_Status = zero_Status\<rparr>"

definition polled_os :: "(string res) os" where
  "polled_os = \<lparr>os_now = (\<lambda>w. (5, w)), os_getenv = (\<lambda>k w. []), os_rand = (\<lambda>n w. (Inr (replicate n 0), w))\<rparr>"

definition polled_cf :: "(string res) cf_state" where
  "polled_cf = \<lparr>world = foundation_at (Inr []), trace = [], ctx_next = 0, ctx_done = [], otlp_active = False\<rparr>"

lemma one_task_outcome: "map2 (task_outcome polled_foundation) [i] one_task = [Some EventFailed]"
  by (simp add: one_task_def task_state_def polled_foundation_def foundation_at_def)

lemma cached_Inr:
  assumes "\<And>s. \<exists>g s1. lookup s = (Inr g, s1)"
  shows "\<exists>g s'. cached os key lookup failure s = (Inr g, s')"
proof -
  obtain c s1 where 1: "guid_get os key s = (c, s1)" by fastforce
  obtain g s2 where 2: "lookup s1 = (Inr g, s2)" using assms by blast
  show ?thesis using 1 2 by (cases c) (simp_all add: cached_def)
qed

lemma cf_job_scheduled:
  "\<exists>job' ds' s' rec. Schedule (NewCFAdapter (realCFClient polled_foundation) polled_os dedicated) cf_job (NewDefaultScheduler, polled_cf)
       = ((None, job'), ds', s')
     \<and> ds_jobs ds' ''j'' = Some rec \<and> job_phase (jr_job rec) = PhaseRunning"
proof -
  let ?C = "realCFClient polled_foundation"
  let ?role = "\<lparr>ar_Role = ''w'', ar_Image = [], ar_Command = ''run'', ar_MaxReplicas = 1\<rparr>"
  have org: "\<exists>g s1. cf_GetOrgByName ?C n s = (Inr g, s1)" and space: "\<exists>g s1. cf_GetSpaceByName ?C o' n s = (Inr g, s1)" for n o' s
    by (simp_all add: realCFClient_def real_GetOrgByName_def real_GetSpaceByName_def polled_foundation_def cf_api_def
        api_def on_foundation_def wrap_err_def)
  obtain o' s0 where 0: "cached polled_os (orgCacheKey ''acme'') (cf_GetOrgByName ?C ''acme'')
      (''get org '' @ go_quote ''acme'' @ '': '') polled_cf = (Inr o', s0)" using cached_Inr [where lookup = "cf_GetOrgByName ?C ''acme''", OF org] by blast
  obtain g s1 where "cached polled_os (spaceCacheKey o' ''muto-agents'') (cf_GetSpaceByName ?C o' ''muto-agents'')
      (''get space '' @ go_quote ''muto-agents'' @ '': '') s0 = (Inr g, s1)" using cached_Inr [where lookup = "cf_GetSpaceByName ?C o' ''muto-agents''", OF space] by blast
  with 0 have 1: "resolveSpaceGUID ?C polled_os dedicated ''acme'' polled_cf = (Inr g, s1)"
    by (simp add: resolveSpaceGUID_def org_and_space_def dedicated_def)
  obtain s2 where 2: "ensureRunnerApp ?C (runner_name ''acme'' ''w'') g ''acme'' ''w'' s1 = (Inr ''app'', s2)"
    by (simp add: ensureRunnerApp_def realCFClient_def real_GetAppByName_def polled_foundation_def cf_api_def api_def
        on_foundation_def wrap_err_def)
  obtain s3 where 3: "cf_RunTask ?C ''app'' (task_request ''acme'' ?role) s2 = (Inr ''task'', s3)"
    by (simp add: realCFClient_def real_RunTask_def polled_foundation_def cf_api_def api_def
        on_foundation_def wrap_err_def)
  have "CF_SpawnAgent ?C polled_os dedicated (role_spec ''acme'' ?role) polled_cf = (Inr ''task'', s3)"
    by (simp add: CF_SpawnAgent_def role_spec_def 1 2 3)
  then show ?thesis
    by (simp add: Schedule_def cf_job_def CF_WatchAgent_def schedule_commit_def NewDefaultScheduler_def
        with_cancel_def zero_Status_def set_phase_def Let_def)
qed


end
