(* ===== verification/Tenant_Topics.thy ===== *)
theory Tenant_Topics
  imports Prelude
begin

text \<open>
  \<open>core/tenant\<close> (\<open>types.go\<close>, \<open>validator.go\<close>): tenants, the prefix of their topics, and the
  two validators.
\<close>

type_synonym IsolationTier = string

definition TierShared :: IsolationTier where "TierShared = ''shared''"
definition TierDedicated :: IsolationTier where "TierDedicated = ''dedicated''"

record Tenant =
  tn_ID :: string
  tn_Namespace :: string
  tn_IsolationTier :: IsolationTier
  tn_BusType :: string
  tn_BusDedicated :: bool

definition TopicPrefix :: "string \<Rightarrow> string" where
  "TopicPrefix tenantID = ''tenant.'' @ tenantID @ ''.''"

definition ValidateTopic :: "string \<Rightarrow> string \<Rightarrow> goerror option" where
  "ValidateTopic tenantID topic =
     (let pre = TopicPrefix tenantID in
      if \<not> HasPrefix topic pre then
        Some (Errorf (''topic '' @ go_quote topic @ '' does not belong to tenant '' @ go_quote tenantID
          @ '' (expected prefix '' @ go_quote pre @ '')''))
      else None)"

definition Validate :: "Tenant \<Rightarrow> goerror option" where
  "Validate t =
     (if tn_ID t = [] then Some (Errorf ''tenant ID must not be empty'')
      else if tn_Namespace t = [] then Some (Errorf ''tenant namespace must not be empty'')
      else if tn_IsolationTier t \<noteq> TierShared \<and> tn_IsolationTier t \<noteq> TierDedicated then
        Some (Errorf (''unknown isolation tier '' @ go_quote (tn_IsolationTier t)))
      else None)"

lemma ValidateTopic_iff: "ValidateTopic t topic = None \<longleftrightarrow> (\<exists>rest. topic = ''tenant.'' @ t @ ''.'' @ rest)"
  by (auto simp: ValidateTopic_def Let_def HasPrefix_iff TopicPrefix_def)

text \<open>
  C28. A topic is accepted for a tenant exactly when it is the tenant's prefix followed by
  anything; and when no tenant identifier contains a dot, no topic is accepted for two
  tenants.
\<close>

theorem topics_belong_to_one_tenant:
  assumes "CHR ''.'' \<notin> set t1" and "CHR ''.'' \<notin> set t2"
  shows "(ValidateTopic t1 topic = None \<longleftrightarrow> (\<exists>rest. topic = ''tenant.'' @ t1 @ ''.'' @ rest))
    \<and> (ValidateTopic t1 topic = None \<and> ValidateTopic t2 topic = None \<longrightarrow> t1 = t2)"
  using assms append_sep_inject [of t1 "CHR ''.''" _ t2] by (auto simp: ValidateTopic_iff)

theorem topics_belong_to_one_tenant_witness:
  "ValidateTopic ''acme'' ''tenant.acme.jobs'' = None \<and> ValidateTopic ''acm'' ''tenant.acme.jobs'' \<noteq> None"
proof -
  have a: "ValidateTopic ''acme'' ''tenant.acme.jobs'' = None"
    by (simp add: ValidateTopic_iff)
  moreover have "''acme'' \<noteq> ''acm''" by simp
  ultimately show ?thesis
    using topics_belong_to_one_tenant [of "''acme''" "''acm''" "''tenant.acme.jobs''"] by auto
qed

text \<open>
  The validators do not rule dots out: whatever the tenant, one whose identifier extends
  it after a dot is just as valid, and every topic of that one is accepted for the first.
\<close>

theorem dotted_tenants_overlap:
  "(Validate t = None \<longrightarrow> Validate (t\<lparr>tn_ID := tn_ID t @ ''.'' @ sub\<rparr>) = None)
   \<and> (ValidateTopic (tn_ID t @ ''.'' @ sub) topic = None \<longrightarrow> ValidateTopic (tn_ID t) topic = None)"
  by (auto simp: Validate_def ValidateTopic_iff split: if_splits)

theorem dotted_tenants_overlap_witness:
  "ValidateTopic ''acme'' ''tenant.acme.eu.jobs'' = None"
proof -
  have "ValidateTopic (''acme'' @ ''.'' @ ''eu'') ''tenant.acme.eu.jobs'' = None"
    by (simp add: ValidateTopic_iff)
  then show ?thesis
    using dotted_tenants_overlap [of "\<lparr>tn_ID = ''acme'', tn_Namespace = ''acme'', tn_IsolationTier = ''shared'',
      tn_BusType = ''nats'', tn_BusDedicated = False\<rparr>" "''eu''" "''tenant.acme.eu.jobs''"]
    by simp
qed

end
