(* ===== verification/MCP_Tools.thy ===== *)
theory MCP_Tools
  imports Scheduler_API Tenant_Topics
begin

text \<open>
  \<open>mcp/tools/tools.go\<close>: what the MCP tools do, over any scheduler. The lemmas of this theory
  are proved from the contract of the scheduler alone.
\<close>

record 's Handlers =
  hd_sched :: "'s scheduler"

definition NewHandlers :: "'s scheduler \<Rightarrow> 's Handlers" where
  "NewHandlers sched = \<lparr>hd_sched = sched\<rparr>"

text \<open>The job of a request: one worker, started by an event, with its own topic\<close>

definition worker_job :: "string \<Rightarrow> string \<Rightarrow> string \<Rightarrow> string \<Rightarrow> int32 \<Rightarrow> Job" where
  "worker_job jobID tenantID img triggerSource ttl =
     (let topic = TopicPrefix tenantID @ jobID in
      \<lparr>job_ID = jobID, job_TenantID = tenantID,
       job_Spec = \<lparr>sp_TenantRef = tenantID,
         sp_Trigger = \<lparr>tr_Type = TriggerEvent, tr_Source = triggerSource\<rparr>,
         sp_Agents = [\<lparr>ar_Role = ''worker'', ar_Image = img, ar_Command = [], ar_MaxReplicas = 1\<rparr>],
         sp_MessageBus = \<lparr>mb_Topic = topic\<rparr>, sp_TTLAfterCompletion = ttl\<rparr>,
       job_Status = zero_Status\<rparr>)"

definition ScheduleAgentJob ::
    "'s Handlers \<Rightarrow> string \<Rightarrow> string \<Rightarrow> string \<Rightarrow> string \<Rightarrow> int32 \<Rightarrow> 's \<Rightarrow> goerror option \<times> 's" where
  "ScheduleAgentJob h jobID tenantID img triggerSource ttl st =
     (case sc_Schedule (hd_sched h) (worker_job jobID tenantID img triggerSource ttl) st of
        ((err, job), st') \<Rightarrow> (err, st'))"

definition GetJobStatus :: "'s Handlers \<Rightarrow> string \<Rightarrow> 's \<Rightarrow> Status res \<times> 's" where
  "GetJobStatus h jobID st =
     (case sc_Status (hd_sched h) jobID st of
        (Inl err, st') \<Rightarrow> (Inl (Wrapped ''get status: '' err), st')
      | (Inr status, st') \<Rightarrow> (Inr status, st'))"

definition CancelJob :: "'s Handlers \<Rightarrow> string \<Rightarrow> 's \<Rightarrow> goerror option \<times> 's" where
  "CancelJob h jobID st = sc_Cancel (hd_sched h) jobID st"

definition ListActiveAgents :: "'s Handlers \<Rightarrow> string list \<Rightarrow> string \<Rightarrow> 's \<Rightarrow> Job list res \<times> 's" where
  "ListActiveAgents h order tenantID st = sc_ListActive (hd_sched h) order tenantID st"

record TenantInfo =
  ti_TenantID :: string
  ti_ActiveJobs :: nat
  ti_Note :: string

definition DescribeTenant :: "'s Handlers \<Rightarrow> string list \<Rightarrow> string \<Rightarrow> 's \<Rightarrow> TenantInfo res \<times> 's" where
  "DescribeTenant h order tenantID st =
     (case sc_ListActive (hd_sched h) order tenantID st of
        (Inl err, st') \<Rightarrow> (Inl (Wrapped ''list active: '' err), st')
      | (Inr jobs, st') \<Rightarrow>
          (Inr \<lparr>ti_TenantID = tenantID, ti_ActiveJobs = length jobs,
                ti_Note = ''For isolation tier and bus config, check the Tenant CR: kubectl get tenant ''
                  @ tenantID\<rparr>, st'))"

text \<open>Every job a tool makes has a topic of its tenant.\<close>

lemma worker_job_sels [simp]:
  "job_ID (worker_job i t img source ttl) = i" "job_TenantID (worker_job i t img source ttl) = t"
  "sp_TTLAfterCompletion (job_Spec (worker_job i t img source ttl)) = ttl"
  "job_Status (worker_job i t img source ttl) = zero_Status"
  by (simp_all add: worker_job_def Let_def)

lemma worker_topic_valid:
  "ValidateTopic t (mb_Topic (sp_MessageBus (job_Spec (worker_job i t img source ttl)))) = None"
  by (simp add: worker_job_def Let_def ValidateTopic_def)

context scheduler_api begin

lemma tool_schedule:
  assumes "ScheduleAgentJob (NewHandlers S) i t img source ttl st = (None, st')"
  shows "job_at st i = None"
    and "job_at st' = (job_at st)(i \<mapsto> set_phase PhaseRunning (worker_job i t img source ttl))"
  using assms schedule_ok [of "worker_job i t img source ttl" st _ st']
  by (auto simp: ScheduleAgentJob_def NewHandlers_def split: prod.splits)

lemma tool_schedule_known:
  assumes "job_at st i \<noteq> None"
  shows "\<exists>e st'. ScheduleAgentJob (NewHandlers S) i t img source ttl st = (Some e, st') \<and> job_at st' = job_at st"
proof -
  obtain e j st' where run: "sc_Schedule S (worker_job i t img source ttl) st = ((e, j), st')"
    by (metis prod.collapse)
  have "e \<noteq> None"
    using assms schedule_ok [of "worker_job i t img source ttl" st j st'] run by (cases e) auto
  then obtain x where "e = Some x" by (cases e) auto
  with run schedule_err [of "worker_job i t img source ttl" st x j st'] show ?thesis
    by (auto simp: ScheduleAgentJob_def NewHandlers_def)
qed

lemma tool_status:
  "\<exists>st'. GetJobStatus (NewHandlers S) i st =
     ((case job_at st i of None \<Rightarrow> Inl (Wrapped ''get status: '' (not_found i)) | Some job \<Rightarrow> Inr (job_Status job)), st')
     \<and> job_at st' = job_at st"
  using status [of i st] by (auto simp: GetJobStatus_def NewHandlers_def split: option.splits)

lemma tool_cancel:
  assumes "CancelJob (NewHandlers S) i st = (None, st')"
  shows "\<exists>job. job_at st i = Some job \<and> job_at st' = (job_at st)(i \<mapsto> set_phase PhaseTerminating job)"
  using assms cancel_ok [of i st st'] by (auto simp: CancelJob_def NewHandlers_def)

lemma tool_list:
  assumes "range_order ks (job_at st)"
  obtains js st' where "ListActiveAgents (NewHandlers S) ks t st = (Inr js, st')"
    and "job_at st' = job_at st" and "set js = {job. is_active t job \<and> (\<exists>i. job_at st i = Some job)}"
    and "length js = card {i. \<exists>job. job_at st i = Some job \<and> is_active t job}"
  using list_active [OF assms, of t] by (auto simp: ListActiveAgents_def NewHandlers_def)

lemma tool_describe:
  assumes "range_order ks (job_at st)"
  shows "\<exists>info st'. DescribeTenant (NewHandlers S) ks t st = (Inr info, st')
    \<and> job_at st' = job_at st \<and> ti_TenantID info = t
    \<and> ti_ActiveJobs info = card {i. \<exists>job. job_at st i = Some job \<and> is_active t job}"
  using list_active [OF assms, of t] by (auto simp: DescribeTenant_def NewHandlers_def)

end

end
