(* ===== verification/JSON.thy ===== *)
theory JSON
  imports Prelude
begin

text \<open>
  The text \<open>encoding/json\<close> writes for the values the program marshals: objects with their
  fields in the order of the struct, arrays, strings with the escapes of \<open>json.Marshal\<close>
  (the three HTML characters and the two line separators included, \<open>U+FFFD\<close> for a byte that
  belongs to no character), integers and \<open>null\<close>. A string is a list of bytes, as in the code.
\<close>

datatype json = JNull | JInt int | JStr string | JArr "json list" | JObj "(string \<times> json) list"

definition backslash :: char where "backslash = char_of (92 :: nat)"
definition dquote :: char where "dquote = char_of (34 :: nat)"

definition json_char :: "char \<Rightarrow> string" where
  "json_char c =
     (let n = (of_char c :: nat) in
      if n = 34 \<or> n = 92 then [backslash, c]
      else if n = 8 then [backslash, CHR ''b'']
      else if n = 12 then [backslash, CHR ''f'']
      else if n = 10 then [backslash, CHR ''n'']
      else if n = 13 then [backslash, CHR ''r'']
      else if n = 9 then [backslash, CHR ''t'']
      else if n < 32 \<or> n = 60 \<or> n = 62 \<or> n = 38
        then [backslash] @ ''u00'' @ [hex_digit (n div 16), hex_digit (n mod 16)]
      else [c])"

text \<open>
  \<open>utf8.DecodeRuneInString\<close>: the number of bytes of the character at the front, 0 when the first
  byte starts none
\<close>

definition byte_in :: "nat \<Rightarrow> nat \<Rightarrow> nat \<Rightarrow> string \<Rightarrow> bool" where
  "byte_in k lo hi s \<longleftrightarrow> k < length s \<and> lo \<le> (of_char (s ! k) :: nat) \<and> (of_char (s ! k) :: nat) \<le> hi"

abbreviation tail_byte :: "nat \<Rightarrow> string \<Rightarrow> bool" where
  "tail_byte k \<equiv> byte_in k 128 191"

definition rune_width :: "string \<Rightarrow> nat" where
  "rune_width s =
     (if byte_in 0 0 127 s then 1
      else if byte_in 0 194 223 s \<and> tail_byte 1 s then 2
      else if (byte_in 0 224 224 s \<and> byte_in 1 160 191 s \<or> byte_in 0 237 237 s \<and> byte_in 1 128 159 s
           \<or> (byte_in 0 225 236 s \<or> byte_in 0 238 239 s) \<and> tail_byte 1 s) \<and> tail_byte 2 s then 3
      else if (byte_in 0 240 240 s \<and> byte_in 1 144 191 s \<or> byte_in 0 244 244 s \<and> byte_in 1 128 143 s
           \<or> byte_in 0 241 243 s \<and> tail_byte 1 s) \<and> tail_byte 2 s \<and> tail_byte 3 s then 4
      else 0)"

definition line_separator :: "string \<Rightarrow> bool" where
  "line_separator s \<longleftrightarrow> byte_in 0 226 226 s \<and> byte_in 1 128 128 s \<and> byte_in 2 168 169 s"

fun json_chars :: "string \<Rightarrow> string" where
  "json_chars [] = []"
| "json_chars (c # s) =
     (let w = rune_width (c # s) in
      if (of_char c :: nat) < 128 then json_char c @ json_chars s
      else if w = 0 then [backslash] @ ''ufffd'' @ json_chars s
      else if line_separator (c # s) then [backslash] @ ''u202'' @ [hex_digit (of_char (s ! 1) mod 16)] @ json_chars (drop (w - 1) s)
      else take w (c # s) @ json_chars (drop (w - 1) s))"

definition json_string :: "string \<Rightarrow> string" where
  "json_string s = [dquote] @ json_chars s @ [dquote]"

fun json_text :: "json \<Rightarrow> string" where
  "json_text JNull = ''null''"
| "json_text (JInt i) = dec_int i"
| "json_text (JStr s) = json_string s"
| "json_text (JArr xs) = ''['' @ Join (map json_text xs) '','' @ '']''"
| "json_text (JObj fs) = ''{'' @ Join (map (\<lambda>(k, v). json_string k @ '':'' @ json_text v) fs) '','' @ ''}''"

text \<open>A pointer or a nil slice that may be nil\<close>

definition json_opt :: "('a \<Rightarrow> json res) \<Rightarrow> 'a option \<Rightarrow> json res" where
  "json_opt f x = (case x of None \<Rightarrow> Inr JNull | Some a \<Rightarrow> f a)"

lemma json_opt_simps [simp]: "json_opt f None = Inr JNull" "json_opt f (Some a) = f a"
  by (simp_all add: json_opt_def)

text \<open>Marshalling stops at the first value that fails.\<close>

fun all_ok :: "'a res list \<Rightarrow> 'a list res" where
  "all_ok [] = Inr []"
| "all_ok (Inl e # rs) = Inl e"
| "all_ok (Inr a # rs) = (case all_ok rs of Inl e \<Rightarrow> Inl e | Inr as \<Rightarrow> Inr (a # as))"

lemma all_ok_map_Inr [simp]: "all_ok (map (\<lambda>x. Inr (f x)) xs) = Inr (map f xs)"
  by (induction xs) simp_all

section \<open>Valid strings\<close>

text \<open>What a text keeps of a string: \<open>U+FFFD\<close> stands for each byte that belongs to no character.\<close>

definition replacement :: string where
  "replacement = map char_of [239, 191, 189 :: nat]"

fun to_valid :: "string \<Rightarrow> string" where
  "to_valid [] = []"
| "to_valid (c # s) =
     (let w = rune_width (c # s) in
      if w = 0 then replacement @ to_valid s else take w (c # s) @ to_valid (drop (w - 1) s))"

fun valid_utf8 :: "string \<Rightarrow> bool" where
  "valid_utf8 [] \<longleftrightarrow> True"
| "valid_utf8 (c # s) \<longleftrightarrow> (let w = rune_width (c # s) in w \<noteq> 0 \<and> valid_utf8 (drop (w - 1) s))"

lemma take_rune: "0 < w \<Longrightarrow> take w (c # s) @ drop (w - Suc 0) s = c # s"
  by (cases w) simp_all

lemma to_valid_valid: "valid_utf8 s \<Longrightarrow> to_valid s = s"
  by (induction s rule: valid_utf8.induct) (auto simp: Let_def take_rune)

lemma rune_width_ascii [simp]: "(of_char c :: nat) < 128 \<Longrightarrow> rune_width (c # s) = 1"
  by (simp add: rune_width_def byte_in_def)

lemma valid_ascii: "(\<And>c. c \<in> set s \<Longrightarrow> (of_char c :: nat) < 128) \<Longrightarrow> valid_utf8 s"
  by (induction s) simp_all

text \<open>A character outside ASCII has no ASCII byte inside it.\<close>

lemma byte_in_tail: "byte_in k lo hi s \<Longrightarrow> 128 \<le> lo \<Longrightarrow> hi \<le> 191 \<Longrightarrow> tail_byte k s"
  by (simp add: byte_in_def)

lemma rune_width_tail:
  assumes "k < rune_width s" and "k \<noteq> 0"
  shows "tail_byte k s"
proof -
  have "rune_width s \<le> 4" by (simp add: rune_width_def)
  with assms consider "k = 1" "1 < rune_width s" | "k = 2" "2 < rune_width s" | "k = 3" "3 < rune_width s" by linarith
  then show ?thesis
    by cases (auto simp: rune_width_def intro: byte_in_tail split: if_splits)
qed

lemma take_rune_bytes:
  assumes "c \<in> set (take (rune_width s) s)" and "128 \<le> (of_char (hd s) :: nat)"
  shows "128 \<le> (of_char c :: nat)"
proof -
  from assms(1) obtain k where k: "k < rune_width s" "k < length s" "c = s ! k"
    by (auto simp: in_set_conv_nth)
  show ?thesis
  proof (cases "k = 0")
    case True
    with k assms(2) show ?thesis by (cases s) auto
  next
    case False
    with rune_width_tail [OF k(1)] k(3) show ?thesis by (simp add: byte_in_def)
  qed
qed

section \<open>Reading a character back\<close>

definition unhex :: "char \<Rightarrow> nat" where
  "unhex c = (if (of_char c :: nat) < 58 then of_char c - 48 else of_char c - 87)"

lemma unhex_hex_digit: "d < 16 \<Longrightarrow> unhex (hex_digit d) = d"
  by (auto simp: unhex_def hex_digit_def)

text \<open>The bytes of a character below \<open>U+10000\<close>\<close>

definition utf8_encode :: "nat \<Rightarrow> string" where
  "utf8_encode n =
     (if n < 128 then [char_of n]
      else if n < 2048 then [char_of (192 + n div 64), char_of (128 + n mod 64)]
      else [char_of (224 + n div 4096), char_of (128 + n div 64 mod 64), char_of (128 + n mod 64)])"

text \<open>A byte that is no escape stands for itself; an escape gives the bytes of its character.\<close>

definition json_read :: "string \<Rightarrow> string \<times> string" where
  "json_read s =
     (if hd s \<noteq> backslash then ([hd s], tl s)
      else
        let e = (of_char (s ! 1) :: nat); r = drop 2 s in
        if e = 98 then ([char_of (8 :: nat)], r)
        else if e = 102 then ([char_of (12 :: nat)], r)
        else if e = 110 then ([char_of (10 :: nat)], r)
        else if e = 114 then ([char_of (13 :: nat)], r)
        else if e = 116 then ([char_of (9 :: nat)], r)
        else if e = 117 then
          (utf8_encode (4096 * unhex (s ! 2) + 256 * unhex (s ! 3) + 16 * unhex (s ! 4) + unhex (s ! 5)), drop 6 s)
        else ([s ! 1], r))"

lemma char_of_of_char: "(of_char c :: nat) = n \<Longrightarrow> char_of n = c"
  by auto

lemma unhex_digits [simp]: "unhex CHR ''0'' = 0" "unhex CHR ''2'' = 2" "unhex CHR ''d'' = 13" "unhex CHR ''f'' = 15"
  by (simp_all add: unhex_def)

lemma json_read_char: "(of_char c :: nat) < 128 \<Longrightarrow> json_read (json_char c @ r) = ([c], r)"
proof -
  let ?n = "of_char c :: nat"
  assume ascii: "?n < 128"
  consider "?n = 34" | "?n = 92" | "?n \<in> {8, 12, 10, 13, 9}"
    | "?n \<notin> {34, 92, 8, 12, 10, 13, 9}" "?n < 32 \<or> ?n = 60 \<or> ?n = 62 \<or> ?n = 38"
    | "?n \<notin> {34, 92, 8, 12, 10, 13, 9}" "\<not> (?n < 32 \<or> ?n = 60 \<or> ?n = 62 \<or> ?n = 38)" by blast
  then show ?thesis
  proof cases
    case 1
    then have "c = dquote" by (simp add: dquote_def char_of_of_char)
    then show ?thesis by (simp add: json_char_def json_read_def dquote_def backslash_def Let_def)
  next
    case 2
    then have "c = backslash" by (simp add: backslash_def char_of_of_char)
    then show ?thesis by (simp add: json_char_def json_read_def backslash_def Let_def)
  next
    case 3
    then consider "?n = 8" | "?n = 12" | "?n = 10" | "?n = 13" | "?n = 9" by blast
    then show ?thesis
      by cases (simp_all add: json_char_def json_read_def Let_def char_of_of_char)
  next
    case 4
    then have "?n div 16 < 16" "?n mod 16 < 16" by auto
    with 4 ascii show ?thesis
      by (simp add: json_char_def json_read_def Let_def unhex_hex_digit utf8_encode_def)
  next
    case 5
    then have "c \<noteq> backslash" by (auto simp: backslash_def)
    with 5 show ?thesis by (simp add: json_char_def json_read_def Let_def)
  qed
qed

lemma json_read_replacement: "json_read (backslash # ''ufffd'' @ r) = (replacement, r)"
  by (simp add: json_read_def Let_def utf8_encode_def replacement_def)

lemma json_read_u202: "d < 16 \<Longrightarrow> json_read (backslash # ''u202'' @ hex_digit d # r) = (utf8_encode (8224 + d), r)"
  by (simp add: json_read_def Let_def unhex_hex_digit)

lemma utf8_separators:
  "utf8_encode 8232 = [char_of (226 :: nat), char_of (128 :: nat), char_of (168 :: nat)]"
  "utf8_encode 8233 = [char_of (226 :: nat), char_of (128 :: nat), char_of (169 :: nat)]"
  by (simp_all add: utf8_encode_def)

lemma json_read_separator:
  assumes "line_separator (c # s)"
  shows "json_read (backslash # ''u202'' @ hex_digit (of_char (s ! 1) mod 16) # r) = (take 3 (c # s), r)"
    and "rune_width (c # s) = 3"
proof -
  from assms obtain a b t where s: "s = a # b # t" and of: "(of_char c :: nat) = 226" "(of_char a :: nat) = 128"
    "168 \<le> (of_char b :: nat)" "(of_char b :: nat) \<le> 169"
    by (cases s; cases "tl s") (auto simp: line_separator_def byte_in_def)
  then show "rune_width (c # s) = 3" by (auto simp: rune_width_def byte_in_def)
  define d where "d = (of_char b :: nat) mod 16"
  have "d < 16" by (simp add: d_def)
  note read = json_read_u202 [OF this, of r]
  have c: "c = char_of (226 :: nat)" and a: "a = char_of (128 :: nat)"
    using of(1,2) char_of_of_char by metis+
  from of(3,4) have "(of_char b :: nat) = 168 \<or> (of_char b :: nat) = 169" by linarith
  then have "utf8_encode (8224 + d) = [c, a, b]"
  proof
    assume b: "(of_char b :: nat) = 168"
    then have "d = 8" by (simp add: d_def)
    with utf8_separators(1) char_of_of_char [OF b] show ?thesis by (simp add: a c)
  next
    assume b: "(of_char b :: nat) = 169"
    then have "d = 9" by (simp add: d_def)
    with utf8_separators(2) char_of_of_char [OF b] show ?thesis by (simp add: a c)
  qed
  with read show "json_read (backslash # ''u202'' @ hex_digit (of_char (s ! 1) mod 16) # r) = (take 3 (c # s), r)"
    by (simp add: s d_def)
qed

lemma hd_json_char: "json_char c \<noteq> [] \<and> hd (json_char c) \<noteq> dquote"
  by (auto simp: json_char_def Let_def dquote_def backslash_def)

lemma marks_ascii: "128 \<le> (of_char c :: nat) \<Longrightarrow> c \<noteq> dquote \<and> c \<noteq> backslash"
  by (auto simp: dquote_def backslash_def)

end
