(* ===== verification/MCP_Server.thy ===== *)
theory MCP_Server
  imports Complex_Main MCP_Tools JSON
begin

text \<open>
  \<open>mcp/server/server.go\<close> and \<open>mcp/server/tracing.go\<close>: the five tools of the MCP server, their
  handlers, and the span around each of them.

  The MCP library is a parameter: a request is what its accessors \<open>RequireString\<close> and
  \<open>GetFloat\<close> answer, \<open>mcp_lib\<close> makes the results. A \<open>float64\<close> is a rational number, an infinity
  or not a number; how the language prints one, and what converting one that is not a number to
  \<open>int32\<close> gives (the language leaves it to the platform), are parameters as well, with how a
  time is printed (it depends on the time zone of the value).
\<close>

section \<open>Requests and results\<close>

datatype float64 = Finite rat | PosInf | NegInf | NaN

fun float_less :: "float64 \<Rightarrow> float64 \<Rightarrow> bool" where
  "float_less NaN y = False"
| "float_less x NaN = False"
| "float_less (Finite a) (Finite b) = (a < b)"
| "float_less NegInf y = (y \<noteq> NegInf)"
| "float_less x NegInf = False"
| "float_less x PosInf = (x \<noteq> PosInf)"
| "float_less PosInf y = False"

record request =
  rq_RequireString :: "string \<Rightarrow> string res"
  rq_GetFloat :: "string \<Rightarrow> float64 \<Rightarrow> float64"

datatype content = TextContent string | OtherContent

record CallToolResult =
  ctr_IsError :: bool
  ctr_Content :: "content list"

record mcp_lib =
  ml_NewToolResultError :: "string \<Rightarrow> CallToolResult"
  ml_NewToolResultText :: "string \<Rightarrow> CallToolResult"
  ml_show_float :: "float64 \<Rightarrow> string"
  ml_nan_int32 :: "float64 \<Rightarrow> int32"
  ml_json_time :: "instant \<Rightarrow> string res"

text \<open>The documentation of the two result constructors\<close>

definition documented :: "mcp_lib \<Rightarrow> bool" where
  "documented L \<longleftrightarrow>
     (\<forall>t. ml_NewToolResultError L t = \<lparr>ctr_IsError = True, ctr_Content = [TextContent t]\<rparr>
        \<and> ml_NewToolResultText L t = \<lparr>ctr_IsError = False, ctr_Content = [TextContent t]\<rparr>)"

text \<open>\<open>int32(f)\<close>: truncation toward zero where the value fits\<close>

definition trunc :: "rat \<Rightarrow> int" where
  "trunc q = (if q < 0 then - \<lfloor>- q\<rfloor> else \<lfloor>q\<rfloor>)"

definition to_int32 :: "mcp_lib \<Rightarrow> float64 \<Rightarrow> int32" where
  "to_int32 L f =
     (case f of
        Finite q \<Rightarrow> (if - (2 ^ 31) \<le> trunc q \<and> trunc q < 2 ^ 31 then word_of_int (trunc q) else ml_nan_int32 L f)
      | _ \<Rightarrow> ml_nan_int32 L f)"

text \<open>A handler returns a result that may be nil and an error\<close>

type_synonym 's tool_handler =
  "request \<Rightarrow> 's \<Rightarrow> (CallToolResult option \<times> goerror option) \<times> 's"

section \<open>What the handlers marshal\<close>

definition time_json :: "mcp_lib \<Rightarrow> instant \<Rightarrow> json res" where
  "time_json L t = (case ml_json_time L t of Inl e \<Rightarrow> Inl e | Inr s \<Rightarrow> Inr (JStr s))"

definition status_json :: "mcp_lib \<Rightarrow> Status \<Rightarrow> json res" where
  "status_json L st =
     (case all_ok [json_opt (time_json L) (st_StartedAt st), json_opt (time_json L) (st_CompletedAt st)] of
        Inl e \<Rightarrow> Inl e
      | Inr ts \<Rightarrow> Inr (JObj [(''Phase'', JStr (st_Phase st)), (''ActiveAgents'', JInt (sint (st_ActiveAgents st))),
                          (''StartedAt'', ts ! 0), (''CompletedAt'', ts ! 1)]))"

definition role_json :: "AgentRole \<Rightarrow> json" where
  "role_json r = JObj [(''Role'', JStr (ar_Role r)), (''Image'', JStr (ar_Image r)),
     (''Command'', JStr (ar_Command r)), (''MaxReplicas'', JInt (sint (ar_MaxReplicas r)))]"

text \<open>A nil slice is \<open>null\<close>; the model's empty list of roles is the nil slice of the zero value.\<close>

definition slice_json :: "('a \<Rightarrow> json) \<Rightarrow> 'a list \<Rightarrow> json" where
  "slice_json f xs = (if xs = [] then JNull else JArr (map f xs))"

definition spec_json :: "Spec \<Rightarrow> json" where
  "spec_json s = JObj [(''TenantRef'', JStr (sp_TenantRef s)),
     (''Trigger'', JObj [(''Type'', JStr (tr_Type (sp_Trigger s))), (''Source'', JStr (tr_Source (sp_Trigger s)))]),
     (''Agents'', slice_json role_json (sp_Agents s)),
     (''MessageBus'', JObj [(''Topic'', JStr (mb_Topic (sp_MessageBus s)))]),
     (''TTLAfterCompletion'', JInt (sint (sp_TTLAfterCompletion s)))]"

definition job_json :: "mcp_lib \<Rightarrow> Job \<Rightarrow> json res" where
  "job_json L j =
     (case status_json L (job_Status j) of
        Inl e \<Rightarrow> Inl e
      | Inr s \<Rightarrow> Inr (JObj [(''ID'', JStr (job_ID j)), (''TenantID'', JStr (job_TenantID j)),
                          (''Spec'', spec_json (job_Spec j)), (''Status'', s)]))"

definition jobs_json :: "mcp_lib \<Rightarrow> Job list \<Rightarrow> json res" where
  "jobs_json L jobs =
     (case all_ok (map (job_json L) jobs) of Inl e \<Rightarrow> Inl e | Inr js \<Rightarrow> Inr (slice_json id js))"

definition info_json :: "TenantInfo \<Rightarrow> json" where
  "info_json i = JObj [(''tenantId'', JStr (ti_TenantID i)), (''activeJobs'', JInt (int (ti_ActiveJobs i))),
     (''note'', JStr (ti_Note i))]"

section \<open>Handlers\<close>

text \<open>\<open>return mcp.NewToolResultError(text), nil\<close> and \<open>return mcp.NewToolResultText(text), nil\<close>\<close>

definition tool_error :: "mcp_lib \<Rightarrow> string \<Rightarrow> CallToolResult option \<times> goerror option" where
  "tool_error L text = (Some (ml_NewToolResultError L text), None)"

definition tool_text :: "mcp_lib \<Rightarrow> string \<Rightarrow> CallToolResult option \<times> goerror option" where
  "tool_text L text = (Some (ml_NewToolResultText L text), None)"

definition handleScheduleAgentJob :: "mcp_lib \<Rightarrow> 's Handlers \<Rightarrow> 's tool_handler" where
  "handleScheduleAgentJob L h req st =
     (case rq_RequireString req ''job_id'' of
        Inl err \<Rightarrow> (tool_error L (err_text err), st)
      | Inr jobID \<Rightarrow>
     (case rq_RequireString req ''tenant_id'' of
        Inl err \<Rightarrow> (tool_error L (err_text err), st)
      | Inr tenantID \<Rightarrow>
     (case rq_RequireString req ''image'' of
        Inl err \<Rightarrow> (tool_error L (err_text err), st)
      | Inr img \<Rightarrow>
     (case rq_RequireString req ''trigger_source'' of
        Inl err \<Rightarrow> (tool_error L (err_text err), st)
      | Inr triggerSource \<Rightarrow>
     (let ttlFloat = rq_GetFloat req ''ttl'' (Finite 0) in
      if float_less ttlFloat (Finite 0) \<or> float_less (Finite 2147483647) ttlFloat then
        (tool_error L (''invalid ttl: '' @ ml_show_float L ttlFloat @ '' (must be 0-2147483647 seconds)''), st)
      else
        let ttl = to_int32 L ttlFloat in
        (case ScheduleAgentJob h jobID tenantID img triggerSource ttl st of
           (Some err, st') \<Rightarrow> (tool_error L (''schedule_agent_job failed: '' @ err_text err), st')
         | (None, st') \<Rightarrow> (tool_text L (''Job '' @ go_quote jobID @ '' scheduled successfully.''), st')))))))"

definition handleGetJobStatus :: "mcp_lib \<Rightarrow> 's Handlers \<Rightarrow> 's tool_handler" where
  "handleGetJobStatus L h req st =
     (case rq_RequireString req ''job_id'' of
        Inl err \<Rightarrow> (tool_error L (err_text err), st)
      | Inr jobID \<Rightarrow>
     (case GetJobStatus h jobID st of
        (Inl err, st') \<Rightarrow> (tool_error L (''get_job_status failed: '' @ err_text err), st')
      | (Inr status, st') \<Rightarrow>
     (case status_json L status of
        Inl err \<Rightarrow> (tool_error L (''marshal status: '' @ err_text err), st')
      | Inr data \<Rightarrow> (tool_text L (json_text data), st'))))"

definition handleCancelJob :: "mcp_lib \<Rightarrow> 's Handlers \<Rightarrow> 's tool_handler" where
  "handleCancelJob L h req st =
     (case rq_RequireString req ''job_id'' of
        Inl err \<Rightarrow> (tool_error L (err_text err), st)
      | Inr jobID \<Rightarrow>
     (case CancelJob h jobID st of
        (Some err, st') \<Rightarrow> (tool_error L (''cancel_job failed: '' @ err_text err), st')
      | (None, st') \<Rightarrow> (tool_text L (''Job '' @ go_quote jobID @ '' cancelled successfully.''), st')))"

definition handleListActiveAgents :: "mcp_lib \<Rightarrow> 's Handlers \<Rightarrow> string list \<Rightarrow> 's tool_handler" where
  "handleListActiveAgents L h order req st =
     (case rq_RequireString req ''tenant_id'' of
        Inl err \<Rightarrow> (tool_error L (err_text err), st)
      | Inr tenantID \<Rightarrow>
     (case ListActiveAgents h order tenantID st of
        (Inl err, st') \<Rightarrow> (tool_error L (''list_active_agents failed: '' @ err_text err), st')
      | (Inr jobs, st') \<Rightarrow>
     (case jobs_json L jobs of
        Inl err \<Rightarrow> (tool_error L (''marshal jobs: '' @ err_text err), st')
      | Inr data \<Rightarrow> (tool_text L (json_text data), st'))))"

text \<open>Marshalling a \<open>TenantInfo\<close> cannot fail: strings and a number.\<close>

definition handleDescribeTenant :: "mcp_lib \<Rightarrow> 's Handlers \<Rightarrow> string list \<Rightarrow> 's tool_handler" where
  "handleDescribeTenant L h order req st =
     (case rq_RequireString req ''tenant_id'' of
        Inl err \<Rightarrow> (tool_error L (err_text err), st)
      | Inr tenantID \<Rightarrow>
     (case DescribeTenant h order tenantID st of
        (Inl err, st') \<Rightarrow> (tool_error L (''describe_tenant failed: '' @ err_text err), st')
      | (Inr info, st') \<Rightarrow> (tool_text L (json_text (info_json info)), st')))"

section \<open>The span of a tool\<close>

fun toolResultErrorText :: "content list \<Rightarrow> string" where
  "toolResultErrorText [] = ''tool call failed''"
| "toolResultErrorText (TextContent t # cs) = t"
| "toolResultErrorText (OtherContent # cs) = toolResultErrorText cs"

definition WrapToolHandler :: "('c effect \<Rightarrow> 's \<Rightarrow> 's) \<Rightarrow> string \<Rightarrow> 's tool_handler \<Rightarrow> 's tool_handler" where
  "WrapToolHandler em name h req st =
     (let ((result, err), st1) = h req (em (SpanStart name) st);
          st2 = (case err of
                   Some e \<Rightarrow> em (SpanSetError (err_text e)) (em (SpanRecordError e) st1)
                 | None \<Rightarrow>
                     (case result of
                        Some r \<Rightarrow> (if ctr_IsError r then em (SpanSetError (toolResultErrorText (ctr_Content r))) st1
                                   else st1)
                      | None \<Rightarrow> st1))
      in ((result, err), em SpanEnd st2))"

section \<open>The table of tools\<close>

datatype arg_kind = StringArg | NumberArg

record tool_arg =
  arg_name :: string
  arg_kind :: arg_kind
  arg_required :: bool
  arg_description :: string

record mcp_tool =
  tool_name :: string
  tool_description :: string
  tool_args :: "tool_arg list"

definition required_arg :: "string \<Rightarrow> arg_kind \<Rightarrow> string \<Rightarrow> tool_arg" where
  "required_arg n k d = \<lparr>arg_name = n, arg_kind = k, arg_required = True, arg_description = d\<rparr>"

definition scheduleAgentJobTool :: mcp_tool where
  "scheduleAgentJobTool = \<lparr>tool_name = ''schedule_agent_job'',
     tool_description = ''Schedule a new agent job on the Muto scheduler.'',
     tool_args =
      [required_arg ''job_id'' StringArg ''Unique identifier for the job.'',
       required_arg ''tenant_id'' StringArg ''Tenant that owns this job.'',
       required_arg ''image'' StringArg ''Container image for the agent worker.'',
       required_arg ''trigger_source'' StringArg ''Source that triggered this job (e.g. event topic).'',
       required_arg ''ttl'' NumberArg ''Time-to-live in seconds after job completion before cleanup.'']\<rparr>"

definition getJobStatusTool :: mcp_tool where
  "getJobStatusTool = \<lparr>tool_name = ''get_job_status'',
     tool_description = ''Retrieve the current status of an agent job.'',
     tool_args = [required_arg ''job_id'' StringArg ''Unique identifier of the job.'']\<rparr>"

definition cancelJobTool :: mcp_tool where
  "cancelJobTool = \<lparr>tool_name = ''cancel_job'',
     tool_description = ''Cancel a running agent job.'',
     tool_args = [required_arg ''job_id'' StringArg ''Unique identifier of the job to cancel.'']\<rparr>"

definition listActiveAgentsTool :: mcp_tool where
  "listActiveAgentsTool = \<lparr>tool_name = ''list_active_agents'',
     tool_description = ''List all active agent jobs for a tenant.'',
     tool_args = [required_arg ''tenant_id'' StringArg ''Tenant whose active agents should be listed.'']\<rparr>"

definition describeTenantTool :: mcp_tool where
  "describeTenantTool = \<lparr>tool_name = ''describe_tenant'',
     tool_description = ''Describe a tenant's isolation tier, message bus type, namespace, and readiness.'',
     tool_args = [required_arg ''tenant_id'' StringArg ''Tenant identifier to describe.'']\<rparr>"

text \<open>
  \<open>registerTools\<close>: the tools with their handlers, each in its span; \<open>order\<close> is the order in which a
  call ranges over the jobs.
\<close>

definition registerTools ::
    "('c effect \<Rightarrow> 's \<Rightarrow> 's) \<Rightarrow> mcp_lib \<Rightarrow> 's scheduler \<Rightarrow> string list \<Rightarrow> (mcp_tool \<times> 's tool_handler) list" where
  "registerTools em L sched order =
     (let h = NewHandlers sched in
      [(scheduleAgentJobTool, WrapToolHandler em ''mcp.schedule_agent_job'' (handleScheduleAgentJob L h)),
       (getJobStatusTool, WrapToolHandler em ''mcp.get_job_status'' (handleGetJobStatus L h)),
       (cancelJobTool, WrapToolHandler em ''mcp.cancel_job'' (handleCancelJob L h)),
       (listActiveAgentsTool, WrapToolHandler em ''mcp.list_active_agents'' (handleListActiveAgents L h order)),
       (describeTenantTool, WrapToolHandler em ''mcp.describe_tenant'' (handleDescribeTenant L h order))])"

text \<open>\<open>New\<close>: the server of the library, under its name and version, with the tools added to it\<close>

record 's MutoMCPServer =
  mms_Name :: string
  mms_Version :: string
  mms_Tools :: "(mcp_tool \<times> 's tool_handler) list"

definition MCP_New ::
    "('c effect \<Rightarrow> 's \<Rightarrow> 's) \<Rightarrow> mcp_lib \<Rightarrow> 's scheduler \<Rightarrow> string list \<Rightarrow> 's MutoMCPServer" where
  "MCP_New em L sched order =
     \<lparr>mms_Name = ''muto-scheduler'', mms_Version = ''0.1.0'', mms_Tools = registerTools em L sched order\<rparr>"

end
