(* ===== verification/MCP_Lifecycle.thy ===== *)
theory MCP_Lifecycle
  imports MCP_Server Job_Lifecycle K8s_Adapter
begin

text \<open>
  What a client of the MCP server observes, over the scheduler the program runs: the default
  scheduler in its tracing decorator, over any platform adapter. The properties rest on the
  contract of the scheduler, through its interpretation on the decorated scheduler.
\<close>

definition muto_scheduler ::
    "('w, 'c, 'p) adapter \<Rightarrow> ('p DefaultScheduler \<times> ('w, 'c) io_state) scheduler" where
  "muto_scheduler A = WrapScheduler sched_emit (DefaultScheduler_methods A)"

interpretation mcp: scheduler_api "muto_scheduler A" recorded for A :: "('w, 'c, 'p) adapter"
  unfolding muto_scheduler_def by (rule default_traced.traced.scheduler_api_axioms)

lemma tool_error_is_error: "documented L \<Longrightarrow> tool_error L t = (Some r, e) \<Longrightarrow> ctr_IsError r \<and> e = None"
  by (auto simp: tool_error_def documented_def)

lemma tool_text_is_text: "documented L \<Longrightarrow> tool_text L t = (Some r, e) \<Longrightarrow> \<not> ctr_IsError r \<and> e = None"
  by (auto simp: tool_text_def documented_def)

text \<open>The status of a job that was never given a time\<close>

definition status_text :: "Phase \<Rightarrow> int32 \<Rightarrow> string" where
  "status_text p n = json_text (JObj [(''Phase'', JStr p), (''ActiveAgents'', JInt (sint n)),
     (''StartedAt'', JNull), (''CompletedAt'', JNull)])"

lemma handleSchedule_success:
  assumes "documented L" and "handleScheduleAgentJob L h req st = ((Some r, e), st')" and "\<not> ctr_IsError r"
  obtains i t img source where "rq_RequireString req ''job_id'' = Inr i"
    and "rq_RequireString req ''tenant_id'' = Inr t"
    and "ScheduleAgentJob h i t img source (to_int32 L (rq_GetFloat req ''ttl'' (Finite 0))) st = (None, st')"
  using assms
  by (auto simp: handleScheduleAgentJob_def Let_def split: sum.splits prod.splits option.splits if_splits
      dest!: tool_error_is_error)

lemma handleSchedule_known:
  assumes "documented L" and "recorded st i \<noteq> None" and "rq_RequireString req ''job_id'' = Inr i"
  shows "\<exists>r st'. handleScheduleAgentJob L (NewHandlers (muto_scheduler A)) req st = ((Some r, None), st')
    \<and> ctr_IsError r \<and> recorded st' = recorded st"
proof -
  have *: "\<exists>r. tool_error L x = (Some r, None) \<and> ctr_IsError r" for x
    using assms(1) by (auto simp: tool_error_def documented_def)
  show ?thesis
  proof (cases "\<exists>x. handleScheduleAgentJob L (NewHandlers (muto_scheduler A)) req st = (tool_error L x, st)")
    case True
    then show ?thesis using * by metis
  next
    case False
    with assms(3) obtain t img source ttl where
      run: "handleScheduleAgentJob L (NewHandlers (muto_scheduler A)) req st =
        (case ScheduleAgentJob (NewHandlers (muto_scheduler A)) i t img source ttl st of
           (Some err, st') \<Rightarrow> (tool_error L (''schedule_agent_job failed: '' @ err_text err), st')
         | (None, st') \<Rightarrow> (tool_text L (''Job '' @ go_quote i @ '' scheduled successfully.''), st'))"
      by (auto simp: handleScheduleAgentJob_def Let_def split: sum.splits if_splits)
    from mcp.tool_schedule_known [OF assms(2), where A = A]
    obtain err st' where "ScheduleAgentJob (NewHandlers (muto_scheduler A)) i t img source ttl st = (Some err, st')"
      "recorded st' = recorded st" by blast
    with run * show ?thesis by auto
  qed
qed

lemma handleGetJobStatus_known:
  assumes "recorded st i = Some job" and "rq_RequireString req ''job_id'' = Inr i"
    and "st_StartedAt (job_Status job) = None" and "st_CompletedAt (job_Status job) = None"
  shows "fst (handleGetJobStatus L (NewHandlers (muto_scheduler A)) req st)
    = tool_text L (status_text (job_phase job) (st_ActiveAgents (job_Status job)))"
  using assms mcp.tool_status [of A i st]
  by (auto simp: handleGetJobStatus_def status_json_def status_text_def)

lemma handleCancelJob_success:
  assumes "documented L" and "handleCancelJob L (NewHandlers (muto_scheduler A)) req st = ((Some r, e), st')"
    and "\<not> ctr_IsError r" and "rq_RequireString req ''job_id'' = Inr i"
  shows "\<exists>job. recorded st i = Some job \<and> recorded st' = (recorded st)(i \<mapsto> set_phase PhaseTerminating job)"
proof -
  have "CancelJob (NewHandlers (muto_scheduler A)) i st = (None, st')"
    using assms by (auto simp: handleCancelJob_def split: prod.splits option.splits dest!: tool_error_is_error)
  then show ?thesis by (rule mcp.tool_cancel)
qed


text \<open>
  C30. A tenant is shown its own active jobs and nothing else: the list holds the JSON of jobs
  of the tenant that are not finished, one for each, and the description counts as many. The
  list is never cut, and both answers are given for any name, one of no tenant included:
  \<open>docs/api-reference/mcp-tools.md\<close> promises at most 25 jobs unless asked for more, and the error
  \<open>tenant_not_found\<close>.
\<close>

theorem mcp_tenant_view:
  fixes A :: "('w, 'c, 'p) adapter"
  defines "h \<equiv> NewHandlers (muto_scheduler A)"
  assumes "range_order order (recorded st)" and "rq_RequireString req ''tenant_id'' = Inr t"
  shows "\<exists>jobs. set jobs = {job. (\<exists>i. recorded st i = Some job) \<and> job_TenantID job = t \<and> \<not> IsTerminal (job_phase job)}
    \<and> length jobs = card {i. \<exists>job. recorded st i = Some job \<and> job_TenantID job = t \<and> \<not> IsTerminal (job_phase job)}
    \<and> fst (handleListActiveAgents L h order req st) =
        (case jobs_json L jobs of Inl err \<Rightarrow> tool_error L (''marshal jobs: '' @ err_text err)
         | Inr data \<Rightarrow> tool_text L (json_text data))
    \<and> fst (handleDescribeTenant L h order req st) = tool_text L (json_text (info_json
        \<lparr>ti_TenantID = t, ti_ActiveJobs = length jobs,
         ti_Note = ''For isolation tier and bus config, check the Tenant CR: kubectl get tenant '' @ t\<rparr>))"
proof -
  obtain js st' where list: "sc_ListActive (muto_scheduler A) order t st = (Inr js, st')"
    "set js = {job. is_active t job \<and> (\<exists>i. recorded st i = Some job)}"
    "length js = card {i. \<exists>job. recorded st i = Some job \<and> is_active t job}"
    using mcp.list_active [OF assms(2), of A t] by blast
  then show ?thesis
    by (intro exI [of _ js])
       (auto simp: h_def NewHandlers_def is_active_def assms(3) handleListActiveAgents_def ListActiveAgents_def
         handleDescribeTenant_def DescribeTenant_def split: sum.splits intro: arg_cong [where f = card])
qed

lemma handlers_return_results:
  assumes "documented L" and "f \<in> {handleScheduleAgentJob L h, handleGetJobStatus L h, handleCancelJob L h,
    handleListActiveAgents L h order, handleDescribeTenant L h order}"
  shows "\<exists>r msg st'. f req st = ((Some r, None), st') \<and> ctr_Content r = [TextContent msg]"
  using assms
  by (auto simp: handleScheduleAgentJob_def handleGetJobStatus_def handleCancelJob_def handleListActiveAgents_def
      handleDescribeTenant_def Let_def tool_error_def tool_text_def documented_def
      split: sum.splits prod.splits option.splits)

text \<open>
  No tool ever returns a Go error: every outcome, the errors of the scheduler included, is
  a result, and the span of the call ends with the status Error exactly when the result is an
  error, with its text.
\<close>

theorem mcp_errors_are_results:
  assumes "documented L" and "(tool, f) \<in> set (registerTools em L sched order)"
  shows "\<exists>name r msg st1. f req st = ((Some r, None),
      em SpanEnd (if ctr_IsError r then em (SpanSetError msg) st1 else st1))
    \<and> ctr_Content r = [TextContent msg]
    \<and> (\<exists>g. g req (em (SpanStart name) st) = ((Some r, None), st1)
        \<and> g \<in> {handleScheduleAgentJob L (NewHandlers sched), handleGetJobStatus L (NewHandlers sched),
            handleCancelJob L (NewHandlers sched), handleListActiveAgents L (NewHandlers sched) order,
            handleDescribeTenant L (NewHandlers sched) order})"
proof -
  let ?G = "{handleScheduleAgentJob L (NewHandlers sched), handleGetJobStatus L (NewHandlers sched),
            handleCancelJob L (NewHandlers sched), handleListActiveAgents L (NewHandlers sched) order,
            handleDescribeTenant L (NewHandlers sched) order}"
  obtain name g where f: "f = WrapToolHandler em name g" and g: "g \<in> ?G"
    using assms(2) by (auto simp: registerTools_def Let_def)
  from handlers_return_results [OF assms(1) g]
  obtain r msg st1 where run: "g req (em (SpanStart name) st) = ((Some r, None), st1)" "ctr_Content r = [TextContent msg]"
    by blast
  then have "f req st = ((Some r, None), em SpanEnd (if ctr_IsError r then em (SpanSetError msg) st1 else st1))"
    by (simp add: f WrapToolHandler_def)
  with run g show ?thesis by blast
qed

lemma sint_to_int32:
  assumes "0 \<le> q" and "q \<le> 2147483647"
  shows "sint (to_int32 L (Finite q)) = \<lfloor>q\<rfloor>"
proof -
  have 1: "0 \<le> \<lfloor>q\<rfloor>" using assms(1) by simp
  have 2: "\<lfloor>q\<rfloor> \<le> 2147483647" using assms(2) by linarith
  have "trunc q = \<lfloor>q\<rfloor>" using assms(1) by (simp add: trunc_def)
  with 1 2 show ?thesis by (simp add: to_int32_def sint_word_of_int32)
qed

text \<open>
  What reaches the scheduler from a request: the time to live is the number truncated to
  seconds, between 0 and 2147483647; a negative number, a larger one and an infinity are
  refused before the scheduler is called, but a value that is not a number passes the check.
  The topic of the job is one of its tenant.
\<close>

lemma schedule_tool_request:
  assumes "documented L"
    and "rq_RequireString req ''job_id'' = Inr i" and "rq_RequireString req ''tenant_id'' = Inr t"
    and "rq_RequireString req ''image'' = Inr img" and "rq_RequireString req ''trigger_source'' = Inr source"
  defines "f \<equiv> rq_GetFloat req ''ttl'' (Finite 0)"
  shows "(if (\<exists>q. f = Finite q \<and> 0 \<le> q \<and> q \<le> 2147483647) \<or> f = NaN
      then \<exists>ttl. (\<forall>q. f = Finite q \<longrightarrow> sint ttl = \<lfloor>q\<rfloor>)
        \<and> handleScheduleAgentJob L h req st =
            (case ScheduleAgentJob h i t img source ttl st of
               (Some err, st') \<Rightarrow> (tool_error L (''schedule_agent_job failed: '' @ err_text err), st')
             | (None, st') \<Rightarrow> (tool_text L (''Job '' @ go_quote i @ '' scheduled successfully.''), st'))
        \<and> ValidateTopic t (mb_Topic (sp_MessageBus (job_Spec (worker_job i t img source ttl)))) = None
      else \<exists>r. handleScheduleAgentJob L h req st = ((Some r, None), st) \<and> ctr_IsError r)"
proof (cases "float_less f (Finite 0) \<or> float_less (Finite 2147483647) f")
  case True
  then have "\<not> ((\<exists>q. f = Finite q \<and> 0 \<le> q \<and> q \<le> 2147483647) \<or> f = NaN)" by auto
  with True assms(1-5) show ?thesis
    by (auto simp: handleScheduleAgentJob_def f_def [symmetric] tool_error_def documented_def)
next
  case False
  then have ok: "(\<exists>q. f = Finite q \<and> 0 \<le> q \<and> q \<le> 2147483647) \<or> f = NaN"
    by (cases f) auto
  then have "\<forall>q. f = Finite q \<longrightarrow> sint (to_int32 L f) = \<lfloor>q\<rfloor>" by (auto simp: sint_to_int32)
  with ok False assms(2-5) show ?thesis
    by (auto simp: handleScheduleAgentJob_def f_def [symmetric] worker_topic_valid intro!: exI [of _ "to_int32 L f"])
qed

section \<open>A concrete client\<close>

definition demo_mcp :: mcp_lib where
  "demo_mcp = \<lparr>ml_NewToolResultError = (\<lambda>t. \<lparr>ctr_IsError = True, ctr_Content = [TextContent t]\<rparr>),
     ml_NewToolResultText = (\<lambda>t. \<lparr>ctr_IsError = False, ctr_Content = [TextContent t]\<rparr>),
     ml_show_float = (\<lambda>f. ''ttl''), ml_nan_int32 = (\<lambda>f. 0), ml_json_time = (\<lambda>t. Inl (Errorf ''no time''))\<rparr>"

definition demo_request :: request where
  "demo_request = \<lparr>rq_RequireString = (\<lambda>k. if k = ''job_id'' then Inr ''job-1'' else if k = ''tenant_id'' then Inr ''acme''
       else if k = ''image'' then Inr ''img'' else if k = ''trigger_source'' then Inr ''orders'' else Inl (Errorf k)),
     rq_GetFloat = (\<lambda>k d. Finite 60)\<rparr>"

definition demo_start :: "(key \<rightharpoonup> string) k8s_turn DefaultScheduler \<times> (key \<rightharpoonup> string, kube_call) io_state" where
  "demo_start = (NewDefaultScheduler, no_pods)"

lemma demo_documented: "documented demo_mcp"
  by (simp add: documented_def demo_mcp_def)

definition demo_adapter :: "(key \<rightharpoonup> string, kube_call, (key \<rightharpoonup> string) k8s_turn) adapter" where
  "demo_adapter = WrapPlatformAdapter (NewK8sAdapter pod_server ''muto'')"

lemma demo_scheduled:
  "\<exists>st1. ScheduleAgentJob (NewHandlers (muto_scheduler demo_adapter)) ''job-1'' ''acme'' ''img'' ''orders'' 60 demo_start
      = (None, st1)"
  by (simp add: ScheduleAgentJob_def NewHandlers_def muto_scheduler_def WrapScheduler_def traced_Schedule_def
      DefaultScheduler_methods_def Schedule_def sched_emit_def demo_start_def no_pods_def worker_job_def demo_adapter_def
      K8s_SpawnAgent_def K8s_WatchAgent_def pod_server_def role_spec_def WrapWith_def api_err_def with_cancel_def
      NewDefaultScheduler_def schedule_commit_def zero_Status_def set_phase_def Let_def)

lemma demo_schedule:
  "\<exists>r st1. handleScheduleAgentJob demo_mcp (NewHandlers (muto_scheduler demo_adapter)) demo_request demo_start
      = ((Some r, None), st1) \<and> \<not> ctr_IsError r"
proof -
  have ttl: "to_int32 L (Finite 60) = 60" for L by (simp add: to_int32_def trunc_def)
  obtain st1 where "ScheduleAgentJob (NewHandlers (muto_scheduler demo_adapter)) ''job-1'' ''acme'' ''img'' ''orders'' 60 demo_start
      = (None, st1)"
    using demo_scheduled by blast
  then show ?thesis
    by (simp add: handleScheduleAgentJob_def demo_request_def ttl Let_def tool_text_def demo_mcp_def)
qed


text \<open>One job of the tenant is running: the list holds it, and the description counts it.\<close>

theorem mcp_tenant_view_witness:
  "\<exists>st1 job j. recorded st1 = [''job-1'' \<mapsto> job] \<and> job_TenantID job = ''acme'' \<and> job_phase job = PhaseRunning
     \<and> job_json demo_mcp job = Inr j
     \<and> fst (handleListActiveAgents demo_mcp (NewHandlers (muto_scheduler demo_adapter)) [''job-1''] demo_request st1)
         = tool_text demo_mcp (json_text (JArr [j]))
     \<and> fst (handleDescribeTenant demo_mcp (NewHandlers (muto_scheduler demo_adapter)) [''job-1''] demo_request st1)
         = tool_text demo_mcp (json_text (info_json \<lparr>ti_TenantID = ''acme'', ti_ActiveJobs = 1,
             ti_Note = ''For isolation tier and bus config, check the Tenant CR: kubectl get tenant '' @ ''acme''\<rparr>))"
proof -
  let ?h = "NewHandlers (muto_scheduler demo_adapter)"
  let ?job = "set_phase PhaseRunning (worker_job ''job-1'' ''acme'' ''img'' ''orders'' 60)"
  obtain st1 where run: "ScheduleAgentJob ?h ''job-1'' ''acme'' ''img'' ''orders'' 60 demo_start = (None, st1)"
    using demo_scheduled by blast
  have "recorded demo_start = Map.empty"
    by (simp add: recorded_def demo_start_def NewDefaultScheduler_def fun_eq_iff)
  then have rec: "recorded st1 = [''job-1'' \<mapsto> ?job]" using mcp.tool_schedule(2) [OF run] by simp
  have job: "job_TenantID ?job = ''acme''" "job_phase ?job = PhaseRunning" "\<not> IsTerminal (job_phase ?job)"
    by (simp_all add: set_phase_def)
  obtain j where j: "job_json demo_mcp ?job = Inr j"
    by (simp add: job_json_def status_json_def set_phase_def zero_Status_def)
  have order: "range_order [''job-1''] (recorded st1)" by (simp add: rec range_order_def)
  have t: "rq_RequireString demo_request ''tenant_id'' = Inr ''acme''" by (simp add: demo_request_def)
  have "{i. \<exists>job. recorded st1 i = Some job \<and> job_TenantID job = ''acme'' \<and> \<not> IsTerminal (job_phase job)} = {''job-1''}"
    using job(1,3) by (auto simp: rec split: if_splits)
  then have card: "card {i. \<exists>job. recorded st1 i = Some job \<and> job_TenantID job = ''acme'' \<and> \<not> IsTerminal (job_phase job)} = 1"
    by simp
  have the_jobs: "{job. (\<exists>i. recorded st1 i = Some job) \<and> job_TenantID job = ''acme'' \<and> \<not> IsTerminal (job_phase job)} = {?job}"
    using job(1,3) by (auto simp: rec split: if_splits)
  obtain jobs where jobs: "set jobs = {?job}" "length jobs = 1"
    and list: "fst (handleListActiveAgents demo_mcp ?h [''job-1''] demo_request st1) =
        (case jobs_json demo_mcp jobs of Inl err \<Rightarrow> tool_error demo_mcp (''marshal jobs: '' @ err_text err)
         | Inr data \<Rightarrow> tool_text demo_mcp (json_text data))"
    and describe: "fst (handleDescribeTenant demo_mcp ?h [''job-1''] demo_request st1) = tool_text demo_mcp (json_text (info_json
        \<lparr>ti_TenantID = ''acme'', ti_ActiveJobs = length jobs,
         ti_Note = ''For isolation tier and bus config, check the Tenant CR: kubectl get tenant '' @ ''acme''\<rparr>))"
    using mcp_tenant_view [OF order t, of demo_mcp demo_adapter] unfolding card the_jobs by blast
  from jobs have "jobs = [?job]" by (cases jobs) auto
  then have "jobs_json demo_mcp jobs = Inr (JArr [j])" using j by (simp add: jobs_json_def slice_json_def)
  then show ?thesis using rec job j list describe jobs(2) by (intro exI [of _ st1] exI [of _ ?job] exI [of _ j]) simp
qed

theorem mcp_errors_are_results_witness:
  "\<exists>r msg st1. WrapToolHandler sched_emit ''mcp.cancel_job''
        (handleCancelJob demo_mcp (NewHandlers (muto_scheduler demo_adapter))) demo_request demo_start
      = ((Some r, None), sched_emit SpanEnd (if ctr_IsError r then sched_emit (SpanSetError msg) st1 else st1))
    \<and> ctr_Content r = [TextContent msg]"
proof -
  have "(cancelJobTool, WrapToolHandler sched_emit ''mcp.cancel_job''
        (handleCancelJob demo_mcp (NewHandlers (muto_scheduler demo_adapter))))
      \<in> set (registerTools sched_emit demo_mcp (muto_scheduler demo_adapter) [])"
    by (simp add: registerTools_def Let_def)
  from mcp_errors_are_results [OF demo_documented this, of demo_request demo_start] show ?thesis by blast
qed

lemma schedule_tool_request_example:
  "\<exists>r. handleScheduleAgentJob demo_mcp (NewHandlers (muto_scheduler demo_adapter))
        (demo_request\<lparr>rq_GetFloat := \<lambda>k d. PosInf\<rparr>) demo_start = ((Some r, None), demo_start)
    \<and> ctr_IsError r"
proof -
  let ?r = "demo_request\<lparr>rq_GetFloat := \<lambda>k d. PosInf\<rparr>"
  have "rq_RequireString ?r ''job_id'' = Inr ''job-1''" "rq_RequireString ?r ''tenant_id'' = Inr ''acme''"
    "rq_RequireString ?r ''image'' = Inr ''img''" "rq_RequireString ?r ''trigger_source'' = Inr ''orders''"
    by (simp_all add: demo_request_def)
  from schedule_tool_request [OF demo_documented this, of "NewHandlers (muto_scheduler demo_adapter)" demo_start] show ?thesis by simp
qed

end
