(* ===== verification/MCP_Jobs.thy ===== *)
theory MCP_Jobs
  imports MCP_Lifecycle K8s_Jobs
begin

text \<open>
  From the request of a client to the outcome it reads: the MCP server, the traced scheduler, the
  Kubernetes adapter and the goroutine that watches the pod, as \<open>muto-mcp\<close> puts them together.
\<close>

definition worker_role :: "string \<Rightarrow> AgentRole" where
  "worker_role img = \<lparr>ar_Role = ''worker'', ar_Image = img, ar_Command = [], ar_MaxReplicas = 1\<rparr>"

lemma worker_job_spec [simp]:
  "sp_Agents (job_Spec (worker_job i t img source ttl)) = [worker_role img]"
  "sp_TenantRef (job_Spec (worker_job i t img source ttl)) = t"
  by (simp_all add: worker_job_def worker_role_def Let_def)

lemma worker_job_ID: "job_ID (worker_job i t img source ttl) = i"
  by (simp add: worker_job_def Let_def)

section \<open>One pod for a job\<close>

text \<open>A successful \<open>Schedule\<close> of such a job makes one request, which creates its pod.\<close>

lemma worker_pod:
  assumes "k8s_adapter kc ns A"
    and "Schedule A (worker_job i t img source ttl) (ds, s) = ((None, job'), (ds', s'))"
  shows "calls (trace s') = calls (trace s) @ [(KCreate (OPod (k8s_pod ns t (worker_role img))), None)]
    \<and> ds_watchers ds' = ds_watchers ds @ [(i, [k8s_watch kc ns (k8s_pod_name t ''worker'')])]"
  using k8s_scheduled [OF assms] by (simp add: worker_job_ID) (simp add: worker_role_def)

section \<open>The request and the answer\<close>

lemma handled_schedule:
  assumes "documented L"
    and "handleScheduleAgentJob L (NewHandlers (muto_scheduler A)) req (ds, s) = ((Some r, e), (ds1, s1))"
    and "\<not> ctr_IsError r" and "rq_RequireString req ''job_id'' = Inr i"
    and "rq_RequireString req ''tenant_id'' = Inr t" and "rq_RequireString req ''image'' = Inr img"
  obtains source ttl job' s' where
    "Schedule A (worker_job i t img source ttl) (ds, emit (SpanStart ''Scheduler.Schedule'') s) = ((None, job'), (ds1, s'))"
    and "s1 = emit SpanEnd s'"
    and "recorded (ds1, s1) i = Some (set_phase PhaseRunning (worker_job i t img source ttl))"
proof -
  let ?h = "NewHandlers (muto_scheduler A)"
  obtain source ttl where run: "ScheduleAgentJob ?h i t img source ttl (ds, s) = (None, (ds1, s1))"
    using assms by (auto simp: handleScheduleAgentJob_def Let_def split: sum.splits prod.splits option.splits if_splits
        dest!: tool_error_is_error)
  then obtain job' s' where "Schedule A (worker_job i t img source ttl) (ds, emit (SpanStart ''Scheduler.Schedule'') s)
      = ((None, job'), (ds1, s'))" "s1 = emit SpanEnd s'"
    by (auto simp: ScheduleAgentJob_def NewHandlers_def muto_scheduler_def WrapScheduler_def traced_Schedule_def
        DefaultScheduler_methods_def sched_emit_def Let_def split: prod.splits option.splits)
  moreover have "recorded (ds1, s1) i = Some (set_phase PhaseRunning (worker_job i t img source ttl))"
    by (simp add: mcp.tool_schedule(2) [OF run])
  ultimately show ?thesis by (rule that)
qed

text \<open>The phase the outcome of the pod leads to\<close>

definition phase_of :: "EventType option \<Rightarrow> Phase" where
  "phase_of out = (case out of None \<Rightarrow> PhaseRunning
     | Some ev \<Rightarrow> if ev = EventFailed then PhaseFailed else PhaseSucceeded)"

lemma watched_phase:
  assumes "\<forall>p\<in>set ps. \<not> turn_cancelled p \<and> \<not> turn_done p"
    and "map_option jr_job (jobs i) = Some (set_phase PhaseRunning job)"
  shows "map_option jr_job (watchJob i 1 (fst (k8s_watch kc ns a ps)) jobs i)
    = Some (set_phase (phase_of (pod_outcome kc (ns, a) ps)) job)"
proof -
  obtain rec where rec: "jobs i = Some rec" "jr_job rec = set_phase PhaseRunning job" using assms(2) by auto
  let ?chs = "channel_events (map (k8s_watch kc ns) [a]) [ps]"
  have "merged ?chs (concat ?chs)" by (rule merged_concat)
  then have m: "merged ?chs (fst (k8s_watch kc ns a ps))" by (simp add: channel_events_def)
  have len: "length [a] = length [ps]" and on: "\<forall>ps\<in>set [ps]. \<forall>p\<in>set ps. \<not> turn_cancelled p \<and> \<not> turn_done p"
    using assms(1) by simp_all
  have running: "job_phase (jr_job rec) = PhaseRunning" by (simp add: rec(2))
  from k8s_watched.job_outcome [where ids = "[a]" and pss = "[ps]" and jobs = jobs and i = i, OF len on rec(1) running m] rec
  show ?thesis by (auto simp: phase_of_def set_phase_def split: option.split)
qed

text \<open>
  C32. A client of \<open>muto-mcp\<close> sees what becomes of the pod it asked for. A request to schedule a job that is
  answered without an error has made one request to the cluster, which created a pod with the image of
  the request for its tenant, and has started one goroutine, which polls that pod; and once the
  goroutine's events have been handled, \<open>get_job_status\<close> answers that the job has succeeded, has failed or is
  still running, as the pod has when it was polled, whatever has been done to other jobs meanwhile. The
  scheduler keeps no times: both \<open>startedAt\<close> and \<open>completedAt\<close> are null in that answer, and
  \<open>activeAgents\<close> is 0, also once the job runs or has ended, which is not what the document of the
  tools (\<open>docs/api-reference/mcp-tools.md\<close>) says of them.
\<close>

theorem client_sees_outcome:
  fixes A :: "('w, kube_call, 'w k8s_turn) adapter"
  defines "h \<equiv> NewHandlers (muto_scheduler A)"
  assumes "k8s_adapter kc ns A" and "documented L"
    and "rq_RequireString req ''job_id'' = Inr i" and "rq_RequireString req ''tenant_id'' = Inr t"
    and "rq_RequireString req ''image'' = Inr img"
    and "handleScheduleAgentJob L h req (ds, s) = ((Some r, e), (ds1, s1))" and "\<not> ctr_IsError r"
    and "pod = k8s_pod ns t (worker_role img)"
    and "\<forall>p\<in>set turns. \<not> turn_cancelled p \<and> \<not> turn_done p"
    and "jobs i = ds_jobs ds1 i"
    and "ds_jobs ds2 = watchJob i 1 (fst (k8s_watch kc ns (om_Name (pod_Meta pod)) turns)) jobs"
    and "rq_RequireString q ''job_id'' = Inr i"
  shows "calls (trace s1) = calls (trace s) @ [(KCreate (OPod pod), None)]
    \<and> ds_watchers ds1 = ds_watchers ds @ [(i, [k8s_watch kc ns (om_Name (pod_Meta pod))])]
    \<and> fst (handleGetJobStatus L h q (ds2, s2)) =
        tool_text L (status_text (phase_of (pod_outcome kc (meta_key (pod_Meta pod)) turns)) 0)"
proof -
  obtain source ttl job' s' where
    run: "Schedule A (worker_job i t img source ttl) (ds, emit (SpanStart ''Scheduler.Schedule'') s) = ((None, job'), (ds1, s'))"
    and s1: "s1 = emit SpanEnd s'"
    and rec: "recorded (ds1, s1) i = Some (set_phase PhaseRunning (worker_job i t img source ttl))"
    by (rule handled_schedule [OF assms(3) assms(7) [unfolded h_def] assms(8,4,5,6)])
  let ?wj = "worker_job i t img source ttl"
  have pod: "om_Name (pod_Meta pod) = k8s_pod_name t ''worker''" "meta_key (pod_Meta pod) = (ns, k8s_pod_name t ''worker'')"
    using assms(9) by (simp_all add: worker_role_def) (simp add: k8s_pod_def)
  have "map_option jr_job (jobs i) = Some (set_phase PhaseRunning ?wj)"
    using rec assms(11) by (simp add: recorded_def)
  from watched_phase [where jobs = jobs and i = i, OF assms(10) this] assms(12)
  have "recorded (ds2, s2) i = Some (set_phase (phase_of (pod_outcome kc (meta_key (pod_Meta pod)) turns)) ?wj)"
    by (simp add: recorded_def pod)
  from handleGetJobStatus_known [OF this assms(13), of L A]
  have "fst (handleGetJobStatus L h q (ds2, s2)) =
      tool_text L (status_text (phase_of (pod_outcome kc (meta_key (pod_Meta pod)) turns)) 0)"
    by (simp add: h_def set_phase_def zero_Status_def)
  with worker_pod [OF assms(2) run] s1 show ?thesis
    unfolding pod(1) by (simp add: assms(9) del: pod_key)
qed

theorem client_sees_outcome_witness:
  "\<exists>r st1 st2. handleScheduleAgentJob demo_mcp (NewHandlers (muto_scheduler demo_adapter)) demo_request demo_start
      = ((Some r, None), st1)
    \<and> calls (trace (snd st1)) = [(KCreate (OPod (k8s_pod ''muto'' ''acme'' (worker_role ''img''))), None)]
    \<and> fst (handleGetJobStatus demo_mcp (NewHandlers (muto_scheduler demo_adapter)) demo_request st2)
        = tool_text demo_mcp (status_text PhaseSucceeded 0)"
proof -
  obtain r ds1 s1 where run: "handleScheduleAgentJob demo_mcp (NewHandlers (muto_scheduler demo_adapter)) demo_request
      (NewDefaultScheduler, snd demo_start) = ((Some r, None), (ds1, s1))" and ok: "\<not> ctr_IsError r"
    using demo_schedule by (auto simp: demo_start_def)
  let ?pod = "k8s_pod ''muto'' ''acme'' (worker_role ''img'')" and ?k = "(''muto'', ''muto-acme-worker'')"
  let ?ps = "[turn_on [?k \<mapsto> ''Running''], turn_on [?k \<mapsto> ''Succeeded'']] :: (key \<rightharpoonup> string) k8s_turn list"
  let ?ds2 = "ds1\<lparr>ds_jobs := watchJob ''job-1'' 1 (fst (k8s_watch pod_server ''muto'' (om_Name (pod_Meta ?pod)) ?ps)) (ds_jobs ds1)\<rparr>"
  have A: "k8s_adapter pod_server ''muto'' demo_adapter" by (simp add: demo_adapter_def)
  have i: "rq_RequireString demo_request ''job_id'' = Inr ''job-1''" "rq_RequireString demo_request ''tenant_id'' = Inr ''acme''"
    "rq_RequireString demo_request ''image'' = Inr ''img''" by (simp_all add: demo_request_def)
  have on: "\<forall>p\<in>set ?ps. \<not> turn_cancelled p \<and> \<not> turn_done p" by simp
  have out: "pod_outcome pod_server (meta_key (pod_Meta ?pod)) ?ps = Some EventCompleted"
    by (simp add: pod_verdict_def pod_server_def worker_role_def k8s_pod_name_def zero_Pod_def PodSucceeded_def PodFailed_def)
  have "ds_jobs ?ds2 = watchJob ''job-1'' 1 (fst (k8s_watch pod_server ''muto'' (om_Name (pod_Meta ?pod)) ?ps)) (ds_jobs ds1)" by simp
  from client_sees_outcome [where jobs = "ds_jobs ds1" and i = "''job-1''", OF A demo_documented i run ok refl on refl this i(1), of s1] out run
  show ?thesis by (auto simp: demo_start_def no_pods_def phase_of_def phase_simps)
qed

end
