(* ===== verification/JSON_Read.thy ===== *)
theory JSON_Read
  imports JSON
begin

text \<open>
  A reader of the texts of \<open>JSON\<close>, and the proof of what it reads back of every value: the value,
  with the strings a text can hold (\<open>to_valid\<close>, which leaves valid UTF-8 alone). The fuel of the
  reader is the length of the text.
\<close>

section \<open>Numbers\<close>

definition is_digit :: "char \<Rightarrow> bool" where
  "is_digit c \<longleftrightarrow> 48 \<le> (of_char c :: nat) \<and> (of_char c :: nat) \<le> 57"

definition nat_value :: "string \<Rightarrow> nat" where
  "nat_value ds = foldl (\<lambda>n d. 10 * n + (of_char d - 48)) 0 ds"

definition read_nat :: "string \<Rightarrow> (nat \<times> string) option" where
  "read_nat s = (if takeWhile is_digit s = [] then None
     else Some (nat_value (takeWhile is_digit s), dropWhile is_digit s))"

definition read_int :: "string \<Rightarrow> (int \<times> string) option" where
  "read_int s =
     (if s \<noteq> [] \<and> hd s = CHR ''-'' then map_option (\<lambda>(n, r). (- int n, r)) (read_nat (tl s))
      else map_option (\<lambda>(n, r). (int n, r)) (read_nat s))"

lemma dquote_lit: "dquote = CHR 0x22"
  by code_simp

lemma of_digit_char: "d < 10 \<Longrightarrow> (of_char (digit_char d) :: nat) = 48 + d"
  by (simp add: digit_char_def)

lemma is_digit_dec_nat: "c \<in> set (dec_nat n) \<Longrightarrow> is_digit c"
  using dec_nat_digits [of n] by (auto simp: is_digit_def of_digit_char)

lemma nat_value_dec_nat: "nat_value (dec_nat n) = n"
proof (induction n rule: dec_nat.induct)
  case (1 n)
  then show ?case
    by (subst dec_nat.simps) (auto simp: nat_value_def of_digit_char)
qed

text \<open>A number ends where no digit follows.\<close>

definition no_digit :: "string \<Rightarrow> bool" where
  "no_digit r \<longleftrightarrow> (r = [] \<or> \<not> is_digit (hd r))"

lemma read_nat_dec_nat: "no_digit r \<Longrightarrow> read_nat (dec_nat n @ r) = Some (n, r)"
proof -
  assume r: "no_digit r"
  have "takeWhile is_digit (dec_nat n @ r) = dec_nat n" "dropWhile is_digit (dec_nat n @ r) = r"
    using r is_digit_dec_nat [of _ n] by (cases r; simp add: takeWhile_append dropWhile_append no_digit_def)+
  then show ?thesis by (simp add: read_nat_def nat_value_dec_nat)
qed

lemma hd_dec_nat: "hd (dec_nat n @ r) \<noteq> CHR ''-''"
  using is_digit_dec_nat [of "hd (dec_nat n)" n] by (auto simp: is_digit_def hd_append)

lemma read_int_dec_int: "no_digit r \<Longrightarrow> read_int (dec_int i @ r) = Some (i, r)"
  using hd_dec_nat [of "nat i" r] by (auto simp: read_int_def dec_int_def read_nat_dec_nat)

section \<open>Strings\<close>

fun read_chars :: "nat \<Rightarrow> string \<Rightarrow> (string \<times> string) option" where
  "read_chars 0 s = None"
| "read_chars (Suc n) s =
     (if s = [] then None
      else if hd s = dquote then Some ([], tl s)
      else let (c, r) = json_read s in map_option (\<lambda>(cs, q). (c @ cs, q)) (read_chars n r))"

definition read_string :: "string \<Rightarrow> (string \<times> string) option" where
  "read_string s = (if s \<noteq> [] \<and> hd s = dquote then read_chars (length s) (tl s) else None)"

lemma backslash_dquote [simp]: "backslash \<noteq> dquote"
  by (simp add: backslash_def dquote_def)

text \<open>Bytes outside ASCII are read one by one.\<close>

lemma read_chars_bytes:
  "(\<And>c. c \<in> set bs \<Longrightarrow> 128 \<le> (of_char c :: nat)) \<Longrightarrow> read_chars n q = Some (t, r) \<Longrightarrow>
     read_chars (length bs + n) (bs @ q) = Some (bs @ t, r)"
proof (induction bs)
  case (Cons b bs)
  have "b \<noteq> dquote" "b \<noteq> backslash" using Cons.prems(1) [of b] marks_ascii [of b] by simp_all
  then show ?case using Cons by (simp add: json_read_def)
qed simp

lemma read_chars_text:
  "length (json_chars cs) < n \<Longrightarrow> read_chars n (json_chars cs @ dquote # r) = Some (to_valid cs, r)"
proof (induction cs arbitrary: n rule: json_chars.induct)
  case 1
  then show ?case by (cases n) simp_all
next
  case (2 c s)
  let ?w = "rune_width (c # s)"
  obtain m where n: "n = Suc m" using 2 by (cases n) auto
  consider (ascii) "(of_char c :: nat) < 128" | (bad) "128 \<le> (of_char c :: nat)" "?w = 0"
    | (sep) "128 \<le> (of_char c :: nat)" "?w \<noteq> 0" "line_separator (c # s)"
    | (rune) "128 \<le> (of_char c :: nat)" "?w \<noteq> 0" "\<not> line_separator (c # s)" by linarith
  then show ?case
  proof cases
    case ascii
    then have "length (json_chars s) < m" using "2.prems" n hd_json_char [of c] by (cases "json_char c") simp_all
    with 2 ascii have "read_chars m (json_chars s @ dquote # r) = Some (to_valid s, r)" by simp
    then show ?thesis
      using ascii n hd_json_char [of c] json_read_char [OF ascii, of "json_chars s @ dquote # r"] by (simp add: hd_append)
  next
    case bad
    then have "read_chars m (json_chars s @ dquote # r) = Some (to_valid s, r)" using 2 n by simp
    then show ?thesis
      using bad n json_read_replacement [of "json_chars s @ dquote # r"] by simp
  next
    case sep
    then have "read_chars m (json_chars (drop (?w - 1) s) @ dquote # r) = Some (to_valid (drop (?w - 1) s), r)"
      using 2 n by simp
    then show ?thesis
      using sep n json_read_separator(1) [OF sep(3), of "json_chars (drop (?w - 1) s) @ dquote # r"]
        json_read_separator(2) [OF sep(3)]
      by simp
  next
    case rune
    let ?bs = "take ?w (c # s)"
    define k where "k = n - length ?bs"
    have split: "json_chars (c # s) = ?bs @ json_chars (drop (?w - 1) s)"
      using rune by (simp add: Let_def)
    have total: "length (json_chars (c # s)) = length ?bs + length (json_chars (drop (?w - 1) s))"
      unfolding split by (rule length_append)
    have less: "length (json_chars (c # s)) < n" by (rule 2(5))
    have part: "a < n \<Longrightarrow> a = x + y \<Longrightarrow> x \<le> n \<and> y < n - x" for a x y :: nat by arith
    from part [OF less total] have len: "length ?bs \<le> n" by (rule conjunct1)
    have "length (json_chars (drop (?w - 1) s)) < k"
      unfolding k_def by (rule conjunct2 [OF part [OF less total]])
    then have "read_chars k (json_chars (drop (?w - 1) s) @ dquote # r) = Some (to_valid (drop (?w - 1) s), r)"
      by (intro 2(4)) (use rune in simp_all)
    moreover have "x \<in> set ?bs \<Longrightarrow> 128 \<le> (of_char x :: nat)" for x
      using take_rune_bytes [of x "c # s"] rune(1) by simp
    ultimately have "read_chars (length ?bs + k) (?bs @ json_chars (drop (?w - 1) s) @ dquote # r)
        = Some (?bs @ to_valid (drop (?w - 1) s), r)" by (rule read_chars_bytes [rotated])
    moreover have "length ?bs + k = n" using len by (simp add: k_def)
    ultimately have "read_chars n (?bs @ json_chars (drop (?w - 1) s) @ dquote # r)
        = Some (?bs @ to_valid (drop (?w - 1) s), r)" by (simp only:)
    moreover have "to_valid (c # s) = ?bs @ to_valid (drop (?w - 1) s)" using rune(2) by (simp add: Let_def)
    ultimately show ?thesis unfolding split by (simp only: append_assoc)
  qed
qed

lemma read_string_text: "read_string (json_string s @ r) = Some (to_valid s, r)"
proof -
  have "length (json_chars s) < length (json_string s @ r)" by (simp add: json_string_def)
  from read_chars_text [OF this, of r] show ?thesis
    by (simp add: read_string_def json_string_def del: read_chars.simps)
qed

section \<open>Values\<close>

fun read_value :: "nat \<Rightarrow> string \<Rightarrow> (json \<times> string) option"
  and read_items :: "nat \<Rightarrow> string \<Rightarrow> (json list \<times> string) option"
  and read_fields :: "nat \<Rightarrow> string \<Rightarrow> ((string \<times> json) list \<times> string) option" where
  "read_value 0 s = None"
| "read_value (Suc n) s =
     (case s of
        [] \<Rightarrow> None
      | c # r \<Rightarrow>
          (if c = dquote then map_option (\<lambda>(t, q). (JStr t, q)) (read_string s)
           else if c = CHR ''n'' then (if take 3 r = ''ull'' then Some (JNull, drop 3 r) else None)
           else if c = CHR ''['' then
             (if r \<noteq> [] \<and> hd r = CHR '']'' then Some (JArr [], tl r)
              else map_option (\<lambda>(xs, q). (JArr xs, q)) (read_items n r))
           else if c = CHR ''{'' then
             (if r \<noteq> [] \<and> hd r = CHR ''}'' then Some (JObj [], tl r)
              else map_option (\<lambda>(fs, q). (JObj fs, q)) (read_fields n r))
           else map_option (\<lambda>(i, q). (JInt i, q)) (read_int s)))"
| "read_items 0 s = None"
| "read_items (Suc n) s =
     (case read_value n s of
        Some (x, c # r) \<Rightarrow>
          (if c = CHR '','' then map_option (\<lambda>(xs, q). (x # xs, q)) (read_items n r)
           else if c = CHR '']'' then Some ([x], r) else None)
      | _ \<Rightarrow> None)"
| "read_fields 0 s = None"
| "read_fields (Suc n) s =
     (case read_string s of
        Some (k, d # v) \<Rightarrow>
          (if d \<noteq> CHR '':'' then None
           else case read_value n v of
             Some (x, c # r) \<Rightarrow>
               (if c = CHR '','' then map_option (\<lambda>(fs, q). ((k, x) # fs, q)) (read_fields n r)
                else if c = CHR ''}'' then Some ([(k, x)], r) else None)
           | _ \<Rightarrow> None)
      | _ \<Rightarrow> None)"

definition Unmarshal :: "string \<Rightarrow> json option" where
  "Unmarshal s = (case read_value (length s) s of Some (j, []) \<Rightarrow> Some j | _ \<Rightarrow> None)"

text \<open>The fuel a value needs: enough is the length of its text\<close>

fun cost :: "json \<Rightarrow> nat" where
  "cost JNull = 1"
| "cost (JInt i) = 1"
| "cost (JStr s) = 1"
| "cost (JArr xs) = 1 + (\<Sum>x\<leftarrow>xs. 1 + cost x)"
| "cost (JObj fs) = 1 + (\<Sum>f\<leftarrow>fs. 1 + cost (snd f))"

abbreviation marks :: "char set" where
  "marks \<equiv> {dquote, CHR ''n'', CHR ''['', CHR ''{'', CHR '']'', CHR ''}''}"

lemma dec_int_head: "dec_int i \<noteq> []" "hd (dec_int i) \<notin> marks"
proof -
  have "\<forall>c\<in>marks. \<not> is_digit c" by (simp add: is_digit_def dquote_lit)
  moreover have "is_digit (hd (dec_nat n))" for n using is_digit_dec_nat [of "hd (dec_nat n)" n] by simp
  ultimately have "hd (dec_nat n) \<notin> marks" for n by blast
  then show "dec_int i \<noteq> []" "hd (dec_int i) \<notin> marks" by (simp_all add: dec_int_def dquote_lit)
qed

lemma json_text_head: "json_text j \<noteq> [] \<and> hd (json_text j) \<notin> {CHR '']'', CHR ''}''}"
  using dec_int_head by (cases j) (simp_all add: json_string_def dquote_lit)

lemma no_digit_after: "no_digit (CHR '','' # r)" "no_digit (CHR '']'' # r)" "no_digit (CHR ''}'' # r)"
  by (simp_all add: no_digit_def is_digit_def)

lemma Join_Cons: "xs \<noteq> [] \<Longrightarrow> Join (x # xs) sep = x @ sep @ Join xs sep"
  by (cases xs) simp_all

section \<open>Every value is read back\<close>

text \<open>The value with its strings as a text holds them\<close>

fun clean :: "json \<Rightarrow> json" where
  "clean JNull = JNull"
| "clean (JInt i) = JInt i"
| "clean (JStr s) = JStr (to_valid s)"
| "clean (JArr xs) = JArr (map clean xs)"
| "clean (JObj fs) = JObj (map (\<lambda>f. (to_valid (fst f), clean (snd f))) fs)"

abbreviation clean_field :: "string \<times> json \<Rightarrow> string \<times> json" where
  "clean_field f \<equiv> (to_valid (fst f), clean (snd f))"

definition reads :: "json \<Rightarrow> bool" where
  "reads j \<longleftrightarrow> (\<forall>n r. no_digit r \<longrightarrow> cost j \<le> n \<longrightarrow> read_value n (json_text j @ r) = Some (clean j, r))"

lemma readsI:
  assumes "\<And>m r. no_digit r \<Longrightarrow> cost j \<le> Suc m \<Longrightarrow> read_value (Suc m) (json_text j @ r) = Some (clean j, r)"
  shows "reads j"
  unfolding reads_def
proof (intro allI impI)
  fix n r assume "no_digit r" and n: "cost j \<le> n"
  moreover have "1 \<le> cost j" by (cases j) simp_all
  ultimately show "read_value n (json_text j @ r) = Some (clean j, r)" using assms [of r "n - 1"] by simp
qed

lemma readsD: "reads j \<Longrightarrow> no_digit r \<Longrightarrow> cost j \<le> n \<Longrightarrow> read_value n (json_text j @ r) = Some (clean j, r)"
  by (simp add: reads_def)

lemma read_items_text:
  "xs \<noteq> [] \<Longrightarrow> (\<And>x. x \<in> set xs \<Longrightarrow> reads x) \<Longrightarrow> (\<Sum>x\<leftarrow>xs. 1 + cost x) \<le> n \<Longrightarrow>
     read_items n (Join (map json_text xs) '','' @ CHR '']'' # r) = Some (map clean xs, r)"
proof (induction xs arbitrary: n rule: list_nonempty_induct)
  case (single x)
  then obtain m where "n = Suc m" "cost x \<le> m" by (cases n) auto
  with single readsD [of x "CHR '']'' # r" m] show ?case by (simp add: no_digit_after)
next
  case (cons x xs)
  then obtain m where m: "n = Suc m" "cost x \<le> m" "(\<Sum>x\<leftarrow>xs. 1 + cost x) \<le> m" by (cases n) auto
  have "read_value m (json_text x @ CHR '','' # Join (map json_text xs) '','' @ CHR '']'' # r)
      = Some (clean x, CHR '','' # Join (map json_text xs) '','' @ CHR '']'' # r)"
    using cons.prems m by (intro readsD) (simp_all add: no_digit_after)
  moreover have "read_items m (Join (map json_text xs) '','' @ CHR '']'' # r) = Some (map clean xs, r)"
    using cons.IH [of m] cons.prems m by simp
  ultimately show ?case using cons.hyps m by (simp add: Join_Cons)
qed

abbreviation field_text :: "string \<times> json \<Rightarrow> string" where
  "field_text f \<equiv> json_string (fst f) @ '':'' @ json_text (snd f)"

lemma read_fields_text:
  "fs \<noteq> [] \<Longrightarrow> (\<And>f. f \<in> set fs \<Longrightarrow> reads (snd f)) \<Longrightarrow> (\<Sum>f\<leftarrow>fs. 1 + cost (snd f)) \<le> n \<Longrightarrow>
     read_fields n (Join (map field_text fs) '','' @ CHR ''}'' # r) = Some (map clean_field fs, r)"
proof (induction fs arbitrary: n rule: list_nonempty_induct)
  case (single f)
  then obtain m where "n = Suc m" "cost (snd f) \<le> m" by (cases n) auto
  with single readsD [of "snd f" "CHR ''}'' # r" m] show ?case
    by (simp add: no_digit_after read_string_text)
next
  case (cons f fs)
  then obtain m where m: "n = Suc m" "cost (snd f) \<le> m" "(\<Sum>f\<leftarrow>fs. 1 + cost (snd f)) \<le> m" by (cases n) auto
  have "read_value m (json_text (snd f) @ CHR '','' # Join (map field_text fs) '','' @ CHR ''}'' # r)
      = Some (clean (snd f), CHR '','' # Join (map field_text fs) '','' @ CHR ''}'' # r)"
    using cons.prems m by (intro readsD) (simp_all add: no_digit_after)
  moreover have "read_fields m (Join (map field_text fs) '','' @ CHR ''}'' # r) = Some (map clean_field fs, r)"
    using cons.IH [of m] cons.prems m by simp
  ultimately show ?case using cons.hyps m by (simp add: Join_Cons read_string_text)
qed

lemma Join_head: "xs \<noteq> [] \<Longrightarrow> hd xs \<noteq> [] \<Longrightarrow> Join xs sep \<noteq> [] \<and> hd (Join xs sep) = hd (hd xs)"
  by (cases xs; cases "tl xs") auto

lemma json_text_obj: "json_text (JObj fs) = ''{'' @ Join (map field_text fs) '','' @ ''}''"
  by (simp add: case_prod_unfold)

lemma reads_json: "reads j"
proof (induction j)
  case (JInt i)
  have "read_value (Suc m) (json_text (JInt i) @ r) = Some (clean (JInt i), r)" if "no_digit r" for m r
    using dec_int_head [of i] read_int_dec_int [OF that, of i] by (cases "dec_int i") auto
  then show ?case by (auto intro: readsI simp del: read_value.simps json_text.simps cost.simps)
next
  case (JStr t)
  have "read_value (Suc m) (json_text (JStr t) @ r) = Some (clean (JStr t), r)" for m r
    using read_string_text [of t r] by (simp add: json_string_def)
  then show ?case by (auto intro: readsI simp del: read_value.simps json_text.simps cost.simps)
next
  case (JArr xs)
  have "read_value (Suc m) (json_text (JArr xs) @ r) = Some (clean (JArr xs), r)" if "cost (JArr xs) \<le> Suc m" for m r
  proof (cases "xs = []")
    case False
    then have "Join (map json_text xs) '','' \<noteq> []" "hd (Join (map json_text xs) '','') \<noteq> CHR '']''"
      using Join_head [of "map json_text xs"] json_text_head [of "hd xs"] by (simp_all add: hd_map)
    with False that JArr read_items_text [of xs m r] show ?thesis by (simp add: dquote_lit hd_append)
  qed (simp add: dquote_lit)
  then show ?case by (auto intro: readsI simp del: read_value.simps json_text.simps cost.simps)
next
  case (JObj fs)
  have sub: "f \<in> set fs \<Longrightarrow> reads (snd f)" for f using JObj [of f "snd f"] by (cases f) simp
  have "read_value (Suc m) (json_text (JObj fs) @ r) = Some (clean (JObj fs), r)" if "cost (JObj fs) \<le> Suc m" for m r
  proof (cases "fs = []")
    case False
    then have "Join (map field_text fs) '','' \<noteq> []" "hd (Join (map field_text fs) '','') \<noteq> CHR ''}''"
      using Join_head [of "map field_text fs"] by (simp_all add: hd_map json_string_def dquote_lit)
    with False that sub read_fields_text [of fs m r] show ?thesis
      unfolding json_text_obj by (simp add: dquote_lit hd_append)
  qed (simp add: dquote_lit)
  then show ?case by (auto intro: readsI simp del: read_value.simps json_text.simps cost.simps)
qed (auto intro!: readsI simp: dquote_lit)

lemma length_Join: "xs \<noteq> [] \<Longrightarrow> length (Join xs [c]) + 1 = (\<Sum>x\<leftarrow>xs. 1 + length x)"
  by (induction xs rule: list_nonempty_induct) (simp_all add: Join_Cons)

lemma sum_list_mono_le: "(\<And>x. x \<in> set xs \<Longrightarrow> f x \<le> (g x :: nat)) \<Longrightarrow> (\<Sum>x\<leftarrow>xs. 1 + f x) \<le> (\<Sum>x\<leftarrow>xs. 1 + g x)"
  by (rule sum_list_mono) simp

lemma cost_length: "cost j \<le> length (json_text j)"
proof (induction j)
  case (JInt i)
  then show ?case using dec_int_head [of i] by (cases "dec_int i") auto
next
  case (JStr s)
  then show ?case by (simp add: json_string_def)
next
  case (JArr xs)
  show ?case
  proof (cases "xs = []")
    case False
    have "(\<Sum>x\<leftarrow>xs. 1 + cost x) \<le> (\<Sum>x\<leftarrow>xs. 1 + length (json_text x))" by (rule sum_list_mono_le) (rule JArr)
    also have "\<dots> = length (Join (map json_text xs) '','') + 1"
      using False length_Join [of "map json_text xs" "CHR '',''"] by (simp add: comp_def)
    finally show ?thesis by simp
  qed simp
next
  case (JObj fs)
  show ?case
  proof (cases "fs = []")
    case False
    have "cost (snd f) \<le> length (field_text f)" if "f \<in> set fs" for f
      using JObj [of f "snd f"] that by (cases f) simp
    then have "(\<Sum>f\<leftarrow>fs. 1 + cost (snd f)) \<le> (\<Sum>f\<leftarrow>fs. 1 + length (field_text f))" by (rule sum_list_mono_le)
    also have "\<dots> = length (Join (map field_text fs) '','') + 1"
      using False length_Join [of "map field_text fs" "CHR '',''"] by (simp add: comp_def)
    finally show ?thesis unfolding json_text_obj by simp
  qed simp
qed simp

lemma Unmarshal_json_text: "Unmarshal (json_text j) = Some (clean j)"
  using readsD [OF reads_json, of "[]" j "length (json_text j)"] cost_length [of j]
  by (simp add: Unmarshal_def no_digit_def)

end
