(* ===== verification/MCP_Roundtrip.thy ===== *)
theory MCP_Roundtrip
  imports JSON_Read MCP_Lifecycle "HOL-Library.Monad_Syntax"
begin

text \<open>
  What a client decodes from the texts of the MCP server is what the scheduler holds. The
  decoders read the fields of \<open>agent.Job\<close> and \<open>agent.Status\<close> by their names, as
  \<open>json.Unmarshal\<close> of the same types does; how the text of a time is read back is a parameter,
  as its printing is. A text holds valid UTF-8 only: what a client learns of a string is
  \<open>to_valid\<close> of it, the string itself where it is valid.
\<close>

section \<open>Decoders\<close>

definition field :: "string \<Rightarrow> json \<Rightarrow> json option" where
  "field k j = (case j of JObj fs \<Rightarrow> map_of fs k | _ \<Rightarrow> None)"

definition as_str :: "json \<Rightarrow> string option" where
  "as_str j = (case j of JStr s \<Rightarrow> Some s | _ \<Rightarrow> None)"

definition as_int32 :: "json \<Rightarrow> int32 option" where
  "as_int32 j = (case j of JInt i \<Rightarrow> Some (word_of_int i) | _ \<Rightarrow> None)"

definition as_slice :: "(json \<Rightarrow> 'a option) \<Rightarrow> json \<Rightarrow> 'a list option" where
  "as_slice f j = (case j of JNull \<Rightarrow> Some [] | JArr js \<Rightarrow> those (map f js) | _ \<Rightarrow> None)"

definition as_time :: "(string \<Rightarrow> instant option) \<Rightarrow> json \<Rightarrow> instant option option" where
  "as_time read_time j = (case j of JNull \<Rightarrow> Some None | JStr s \<Rightarrow> map_option Some (read_time s) | _ \<Rightarrow> None)"

definition decode_status :: "(string \<Rightarrow> instant option) \<Rightarrow> json \<Rightarrow> Status option" where
  "decode_status read_time j = do {
     p \<leftarrow> field ''Phase'' j \<bind> as_str;
     n \<leftarrow> field ''ActiveAgents'' j \<bind> as_int32;
     s \<leftarrow> field ''StartedAt'' j \<bind> as_time read_time;
     c \<leftarrow> field ''CompletedAt'' j \<bind> as_time read_time;
     Some \<lparr>st_Phase = p, st_ActiveAgents = n, st_StartedAt = s, st_CompletedAt = c\<rparr> }"

definition decode_role :: "json \<Rightarrow> AgentRole option" where
  "decode_role j = do {
     r \<leftarrow> field ''Role'' j \<bind> as_str;
     i \<leftarrow> field ''Image'' j \<bind> as_str;
     c \<leftarrow> field ''Command'' j \<bind> as_str;
     n \<leftarrow> field ''MaxReplicas'' j \<bind> as_int32;
     Some \<lparr>ar_Role = r, ar_Image = i, ar_Command = c, ar_MaxReplicas = n\<rparr> }"

definition decode_spec :: "json \<Rightarrow> Spec option" where
  "decode_spec j = do {
     t \<leftarrow> field ''TenantRef'' j \<bind> as_str;
     ty \<leftarrow> field ''Trigger'' j \<bind> field ''Type'' \<bind> as_str;
     so \<leftarrow> field ''Trigger'' j \<bind> field ''Source'' \<bind> as_str;
     rs \<leftarrow> field ''Agents'' j \<bind> as_slice decode_role;
     b \<leftarrow> field ''MessageBus'' j \<bind> field ''Topic'' \<bind> as_str;
     n \<leftarrow> field ''TTLAfterCompletion'' j \<bind> as_int32;
     Some \<lparr>sp_TenantRef = t, sp_Trigger = \<lparr>tr_Type = ty, tr_Source = so\<rparr>, sp_Agents = rs,
       sp_MessageBus = \<lparr>mb_Topic = b\<rparr>, sp_TTLAfterCompletion = n\<rparr> }"

definition decode_job :: "(string \<Rightarrow> instant option) \<Rightarrow> json \<Rightarrow> Job option" where
  "decode_job read_time j = do {
     i \<leftarrow> field ''ID'' j \<bind> as_str;
     t \<leftarrow> field ''TenantID'' j \<bind> as_str;
     sp \<leftarrow> field ''Spec'' j \<bind> decode_spec;
     st \<leftarrow> field ''Status'' j \<bind> decode_status read_time;
     Some \<lparr>job_ID = i, job_TenantID = t, job_Spec = sp, job_Status = st\<rparr> }"

section \<open>What a text keeps\<close>

definition clean_status :: "Status \<Rightarrow> Status" where
  "clean_status st = st\<lparr>st_Phase := to_valid (st_Phase st)\<rparr>"

definition clean_role :: "AgentRole \<Rightarrow> AgentRole" where
  "clean_role r = r\<lparr>ar_Role := to_valid (ar_Role r), ar_Image := to_valid (ar_Image r), ar_Command := to_valid (ar_Command r)\<rparr>"

definition clean_spec :: "Spec \<Rightarrow> Spec" where
  "clean_spec s = \<lparr>sp_TenantRef = to_valid (sp_TenantRef s),
     sp_Trigger = \<lparr>tr_Type = to_valid (tr_Type (sp_Trigger s)), tr_Source = to_valid (tr_Source (sp_Trigger s))\<rparr>,
     sp_Agents = map clean_role (sp_Agents s), sp_MessageBus = \<lparr>mb_Topic = to_valid (mb_Topic (sp_MessageBus s))\<rparr>,
     sp_TTLAfterCompletion = sp_TTLAfterCompletion s\<rparr>"

definition clean_job :: "Job \<Rightarrow> Job" where
  "clean_job j = \<lparr>job_ID = to_valid (job_ID j), job_TenantID = to_valid (job_TenantID j),
     job_Spec = clean_spec (job_Spec j), job_Status = clean_status (job_Status j)\<rparr>"

text \<open>A job of valid strings is kept as it is.\<close>

definition valid_role :: "AgentRole \<Rightarrow> bool" where
  "valid_role r \<longleftrightarrow> valid_utf8 (ar_Role r) \<and> valid_utf8 (ar_Image r) \<and> valid_utf8 (ar_Command r)"

definition valid_job :: "Job \<Rightarrow> bool" where
  "valid_job j \<longleftrightarrow> valid_utf8 (job_ID j) \<and> valid_utf8 (job_TenantID j) \<and> valid_utf8 (st_Phase (job_Status j))
     \<and> valid_utf8 (sp_TenantRef (job_Spec j)) \<and> valid_utf8 (tr_Type (sp_Trigger (job_Spec j)))
     \<and> valid_utf8 (tr_Source (sp_Trigger (job_Spec j))) \<and> valid_utf8 (mb_Topic (sp_MessageBus (job_Spec j)))
     \<and> (\<forall>r\<in>set (sp_Agents (job_Spec j)). valid_role r)"

lemma clean_role_valid: "valid_role r \<Longrightarrow> clean_role r = r"
  by (simp add: clean_role_def valid_role_def to_valid_valid)

lemma clean_status_valid: "valid_utf8 (st_Phase st) \<Longrightarrow> clean_status st = st"
  by (simp add: clean_status_def to_valid_valid)

lemma clean_job_valid: "valid_job j \<Longrightarrow> clean_job j = j"
  by (simp add: clean_job_def clean_spec_def valid_job_def clean_status_valid to_valid_valid clean_role_valid
      map_idI)

section \<open>Decoding what was encoded\<close>

text \<open>Every time that can be printed can be read back.\<close>

definition reads_times :: "mcp_lib \<Rightarrow> (string \<Rightarrow> instant option) \<Rightarrow> bool" where
  "reads_times L read_time \<longleftrightarrow> (\<forall>t s. ml_json_time L t = Inr s \<longrightarrow> valid_utf8 s \<and> read_time s = Some t)"

lemma field_Obj [simp]: "field k (JObj fs) = map_of fs k"
  by (simp add: field_def)

lemma as_simps [simp]:
  "as_str (JStr s) = Some s" "as_int32 (JInt (sint n)) = Some n" "as_slice f JNull = Some []"
  "as_slice f (JArr js) = those (map f js)" "as_time read_time JNull = Some None"
  by (simp_all add: as_str_def as_int32_def as_slice_def as_time_def)

lemma to_valid_names [simp]:
  "to_valid ''Phase'' = ''Phase''" "to_valid ''ActiveAgents'' = ''ActiveAgents''"
  "to_valid ''StartedAt'' = ''StartedAt''" "to_valid ''CompletedAt'' = ''CompletedAt''"
  "to_valid ''Role'' = ''Role''" "to_valid ''Image'' = ''Image''" "to_valid ''Command'' = ''Command''"
  "to_valid ''MaxReplicas'' = ''MaxReplicas''" "to_valid ''TenantRef'' = ''TenantRef''"
  "to_valid ''Trigger'' = ''Trigger''" "to_valid ''Type'' = ''Type''" "to_valid ''Source'' = ''Source''"
  "to_valid ''Agents'' = ''Agents''" "to_valid ''MessageBus'' = ''MessageBus''" "to_valid ''Topic'' = ''Topic''"
  "to_valid ''TTLAfterCompletion'' = ''TTLAfterCompletion''" "to_valid ''ID'' = ''ID''"
  "to_valid ''TenantID'' = ''TenantID''" "to_valid ''Spec'' = ''Spec''" "to_valid ''Status'' = ''Status''"
  by (rule to_valid_valid, rule valid_ascii, auto)+

lemma those_map: "(\<And>x. x \<in> set xs \<Longrightarrow> f (g x) = Some (h x)) \<Longrightarrow> those (map f (map g xs)) = Some (map h xs)"
  by (induction xs) simp_all

lemma as_slice_json: "(\<And>x. f (clean (g x)) = Some (h x)) \<Longrightarrow> as_slice f (clean (slice_json g xs)) = Some (map h xs)"
  using those_map [of xs f "\<lambda>x. clean (g x)" h] by (simp add: slice_json_def comp_def)

lemma decode_role_json [simp]: "decode_role (clean (role_json r)) = Some (clean_role r)"
  by (simp add: decode_role_def role_json_def clean_role_def)

lemma decode_spec_json [simp]: "decode_spec (clean (spec_json s)) = Some (clean_spec s)"
proof -
  have "as_slice decode_role (clean (slice_json role_json (sp_Agents s))) = Some (map clean_role (sp_Agents s))"
    by (rule as_slice_json) simp
  then show ?thesis by (simp add: decode_spec_def spec_json_def clean_spec_def)
qed

lemma as_time_json:
  "reads_times L read_time \<Longrightarrow> json_opt (time_json L) t = Inr j \<Longrightarrow> as_time read_time (clean j) = Some t"
  by (auto simp: reads_times_def json_opt_def time_json_def as_time_def to_valid_valid split: option.splits sum.splits)

lemma all_ok_Inr: "all_ok rs = Inr xs \<Longrightarrow> rs = map Inr xs"
  by (induction rs arbitrary: xs rule: all_ok.induct) (auto split: sum.splits)

lemma decode_status_json:
  assumes "reads_times L read_time" and "status_json L st = Inr j"
  shows "decode_status read_time (clean j) = Some (clean_status st)"
proof -
  obtain ts where ok: "all_ok [json_opt (time_json L) (st_StartedAt st), json_opt (time_json L) (st_CompletedAt st)] = Inr ts"
    and j: "j = JObj [(''Phase'', JStr (st_Phase st)), (''ActiveAgents'', JInt (sint (st_ActiveAgents st))),
      (''StartedAt'', ts ! 0), (''CompletedAt'', ts ! 1)]"
    using assms(2) unfolding status_json_def by (simp split: sum.splits)
  from all_ok_Inr [OF ok] obtain a b where "ts = [a, b]" "json_opt (time_json L) (st_StartedAt st) = Inr a"
    "json_opt (time_json L) (st_CompletedAt st) = Inr b"
    by (cases ts; cases "tl ts"; cases "tl (tl ts)") auto
  then show ?thesis by (simp add: j decode_status_def as_time_json [OF assms(1)] clean_status_def)
qed

lemma decode_job_json:
  assumes "reads_times L read_time" and "job_json L job = Inr j"
  shows "decode_job read_time (clean j) = Some (clean_job job)"
proof -
  obtain s where "status_json L (job_Status job) = Inr s" and j: "j = JObj [(''ID'', JStr (job_ID job)),
      (''TenantID'', JStr (job_TenantID job)), (''Spec'', spec_json (job_Spec job)), (''Status'', s)]"
    using assms(2) unfolding job_json_def by (simp split: sum.splits)
  from decode_status_json [OF assms(1) this(1)] show ?thesis
    by (simp add: j decode_job_def clean_job_def)
qed

lemma decode_jobs_json:
  assumes "reads_times L read_time" and "jobs_json L jobs = Inr j"
  shows "as_slice (decode_job read_time) (clean j) = Some (map clean_job jobs)"
proof -
  obtain js where js: "map (job_json L) jobs = map Inr js" and j: "j = slice_json id js"
    using assms(2) by (auto simp: jobs_json_def dest: all_ok_Inr split: sum.splits)
  have "those (map (\<lambda>j. decode_job read_time (clean j)) js) = Some (map clean_job jobs)"
    using js
  proof (induction jobs arbitrary: js)
    case (Cons job jobs)
    then obtain d ds where "js = d # ds" "job_json L job = Inr d" "map (job_json L) jobs = map Inr ds" by auto
    with Cons.IH decode_job_json [OF assms(1)] show ?case by simp
  qed simp
  moreover have "jobs = [] \<longleftrightarrow> js = []" using js by (metis map_is_Nil_conv)
  ultimately show ?thesis by (auto simp: j slice_json_def comp_def)
qed

section \<open>What a client learns\<close>

definition client_reads :: "CallToolResult \<Rightarrow> json option" where
  "client_reads r = (case ctr_Content r of [TextContent t] \<Rightarrow> Unmarshal t | _ \<Rightarrow> None)"

lemma client_reads_text:
  "documented L \<Longrightarrow> tool_text L (json_text d) = (Some r, e) \<Longrightarrow> client_reads r = Some (clean d)"
  by (auto simp: tool_text_def documented_def client_reads_def Unmarshal_json_text)

text \<open>A request that holds the one argument its tool asks for, and no other\<close>

definition only_arg :: "string \<Rightarrow> string \<Rightarrow> request" where
  "only_arg k v = \<lparr>rq_RequireString = (\<lambda>a. if a = k then Inr v else Inl (Errorf (''required argument '' @ go_quote a @ '' not found''))),
     rq_GetFloat = (\<lambda>k d. d)\<rparr>"

text \<open>
  C31. What a client decodes from the answers of the server is what the scheduler holds. Asked
  for the status of a job, it learns the status of the job's record, field by field; asked for
  the jobs of a tenant, it learns exactly the records of the tenant's unfinished jobs,
  specification and status included. Strings of valid UTF-8 arrive as they are, quotes,
  control characters and line separators included; in others \<open>U+FFFD\<close> stands for each stray byte.
\<close>

theorem mcp_answers_decode:
  fixes A :: "('w, 'c, 'p) adapter"
  defines "h \<equiv> NewHandlers (muto_scheduler A)"
  assumes "documented L" and "reads_times L read_time"
  shows "(rq_RequireString q ''job_id'' = Inr i \<and> handleGetJobStatus L h q st = ((Some r, e), st') \<and> \<not> ctr_IsError r \<longrightarrow>
      (\<exists>job. recorded st i = Some job \<and> client_reads r \<bind> decode_status read_time = Some (clean_status (job_Status job))
        \<and> (valid_utf8 (job_phase job) \<longrightarrow> client_reads r \<bind> decode_status read_time = Some (job_Status job))))
   \<and> (rq_RequireString q ''tenant_id'' = Inr t \<and> range_order order (recorded st)
      \<and> handleListActiveAgents L h order q st = ((Some r, e), st') \<and> \<not> ctr_IsError r \<longrightarrow>
      (\<exists>jobs. client_reads r \<bind> as_slice (decode_job read_time) = Some (map clean_job jobs)
        \<and> set jobs = {job. (\<exists>i. recorded st i = Some job) \<and> job_TenantID job = t \<and> \<not> IsTerminal (job_phase job)}
        \<and> ((\<forall>job\<in>set jobs. valid_job job) \<longrightarrow> client_reads r \<bind> as_slice (decode_job read_time) = Some jobs)))"
proof (intro conjI impI; elim conjE)
  assume arg: "rq_RequireString q ''job_id'' = Inr i"
    and run: "handleGetJobStatus L h q st = ((Some r, e), st')" and ok: "\<not> ctr_IsError r"
  obtain st1 where get: "GetJobStatus h i st = ((case recorded st i of None \<Rightarrow> Inl (Wrapped ''get status: '' (not_found i))
      | Some job \<Rightarrow> Inr (job_Status job)), st1)"
    using mcp.tool_status [of A i st] unfolding h_def by blast
  obtain job d where job: "recorded st i = Some job" and "status_json L (job_Status job) = Inr d" "tool_text L (json_text d) = (Some r, e)"
    using run ok get arg
    by (auto simp: handleGetJobStatus_def dest!: tool_error_is_error [OF assms(2)] split: option.splits sum.splits)
  then have "client_reads r \<bind> decode_status read_time = Some (clean_status (job_Status job))"
    using client_reads_text [OF assms(2)] decode_status_json [OF assms(3)] by fastforce
  with job clean_status_valid [of "job_Status job"]
  show "\<exists>job. recorded st i = Some job \<and> client_reads r \<bind> decode_status read_time = Some (clean_status (job_Status job))
      \<and> (valid_utf8 (job_phase job) \<longrightarrow> client_reads r \<bind> decode_status read_time = Some (job_Status job))"
    by (intro exI [of _ job]) simp
next
  assume arg: "rq_RequireString q ''tenant_id'' = Inr t" and order: "range_order order (recorded st)"
    and run: "handleListActiveAgents L h order q st = ((Some r, e), st')" and ok: "\<not> ctr_IsError r"
  obtain jobs st1 where list: "sc_ListActive (muto_scheduler A) order t st = (Inr jobs, st1)"
    and jobs: "set jobs = {job. is_active t job \<and> (\<exists>i. recorded st i = Some job)}"
    using mcp.list_active [OF order, of A t] by blast
  obtain d where "jobs_json L jobs = Inr d" "tool_text L (json_text d) = (Some r, e)"
    using run ok list arg
    by (auto simp: handleListActiveAgents_def ListActiveAgents_def h_def NewHandlers_def
        dest!: tool_error_is_error [OF assms(2)] split: sum.splits)
  then have "client_reads r \<bind> as_slice (decode_job read_time) = Some (map clean_job jobs)"
    using client_reads_text [OF assms(2)] decode_jobs_json [OF assms(3)] by fastforce
  moreover have "map clean_job jobs = jobs" if "\<forall>job\<in>set jobs. valid_job job"
    using that clean_job_valid by (simp add: map_idI)
  moreover have "set jobs = {job. (\<exists>i. recorded st i = Some job) \<and> job_TenantID job = t \<and> \<not> IsTerminal (job_phase job)}"
    using jobs by (auto simp: is_active_def)
  ultimately show "\<exists>jobs. client_reads r \<bind> as_slice (decode_job read_time) = Some (map clean_job jobs)
        \<and> set jobs = {job. (\<exists>i. recorded st i = Some job) \<and> job_TenantID job = t \<and> \<not> IsTerminal (job_phase job)}
        \<and> ((\<forall>job\<in>set jobs. valid_job job) \<longrightarrow> client_reads r \<bind> as_slice (decode_job read_time) = Some jobs)"
    by (intro exI [of _ jobs]) metis
qed

text \<open>The status of a job just scheduled, asked for with the identifier alone, decoded\<close>

theorem mcp_answers_decode_witness:
  "\<exists>st1 r e st2 job. handleGetJobStatus demo_mcp (NewHandlers (muto_scheduler demo_adapter)) (only_arg ''job_id'' ''job-1'') st1
       = ((Some r, e), st2)
     \<and> recorded st1 ''job-1'' = Some job
     \<and> client_reads r \<bind> decode_status (\<lambda>s. None) = Some (clean_status (job_Status job))"
proof -
  let ?h = "NewHandlers (muto_scheduler demo_adapter)" and ?q = "only_arg ''job_id'' ''job-1''"
  obtain r1 st1 where run: "handleScheduleAgentJob demo_mcp ?h demo_request demo_start = ((Some r1, None), st1)"
    and ok: "\<not> ctr_IsError r1"
    using demo_schedule by blast
  have i: "rq_RequireString demo_request ''job_id'' = Inr ''job-1''" by (simp add: demo_request_def)
  have q: "rq_RequireString ?q ''job_id'' = Inr ''job-1''" by (simp add: only_arg_def)
  have times: "reads_times demo_mcp (\<lambda>s. None)" by (simp add: reads_times_def demo_mcp_def)
  obtain t' img source ttl where "ScheduleAgentJob ?h ''job-1'' t' img source ttl demo_start = (None, st1)"
    using handleSchedule_success [OF demo_documented run ok] i by (metis sum.inject(2))
  then have rec: "recorded st1 ''job-1'' = Some (set_phase PhaseRunning (worker_job ''job-1'' t' img source ttl))"
    by (simp add: mcp.tool_schedule(2))
  obtain r2 e2 st2 where get: "handleGetJobStatus demo_mcp ?h ?q st1 = ((r2, e2), st2)" by (metis prod.exhaust)
  have "fst (handleGetJobStatus demo_mcp ?h ?q st1) = tool_text demo_mcp (status_text PhaseRunning 0)"
    using handleGetJobStatus_known [OF rec q, of demo_mcp demo_adapter] by (simp add: set_phase_def zero_Status_def)
  with get obtain r where "r2 = Some r" "\<not> ctr_IsError r" by (auto simp: tool_text_def demo_mcp_def)
  with mcp_answers_decode [OF demo_documented times, of ?q "''job-1''" demo_adapter st1 r e2 st2] get q show ?thesis by blast
qed

end
