(* ===== verification/A2A_Client.thy ===== *)
theory A2A_Client
  imports A2A Telemetry JSON_Read
begin

text \<open>
  \<open>core/a2a/client.go\<close>: the client of an A2A gateway. The HTTP stack is a
  parameter: whether a method and a URL make a request, the exchange itself, and the decoding
  of a response body into \<open>gatewayResponse\<close>. The body of a request is written here to the
  byte: JSON with the keys of the map sorted, the payload in base64.
\<close>

section \<open>Requests\<close>

record http_request =
  hq_Method :: string
  hq_URL :: string
  hq_Header :: "string \<rightharpoonup> string"
  hq_Body :: "string option"

record http_response =
  hp_StatusCode :: int
  hp_Body :: "string res"

record gatewayResponse =
  gr_TaskID :: string
  gr_State :: string
  gr_Output :: string

record TaskResult =
  tr_TaskID :: string
  tr_State :: string
  tr_Output :: string

datatype http_call = HttpDo http_request

record 'w http_lib =
  hl_NewRequest :: "string \<Rightarrow> string \<Rightarrow> goerror option"
  hl_Do :: "http_request \<Rightarrow> 'w \<Rightarrow> http_response res \<times> 'w"
  hl_Unmarshal :: "string \<Rightarrow> gatewayResponse res"

type_synonym 'w http_state = "('w, http_call) io_state"

record A2AClient =
  ac_gatewayURL :: string
  ac_authToken :: string

definition a2a_New :: "A2AConfig \<Rightarrow> A2AClient res" where
  "a2a_New cfg =
     (if a2a_GatewayURL cfg = [] then Inl (Errorf ''a2a: GatewayURL must not be empty'')
      else Inr \<lparr>ac_gatewayURL = a2a_GatewayURL cfg, ac_authToken = a2a_AuthToken cfg\<rparr>)"

section \<open>The body of a request\<close>

definition b64_alphabet :: string where
  "b64_alphabet = ''ABCDEFGHIJKLMNOPQRSTUVWXYZabcdefghijklmnopqrstuvwxyz0123456789+/''"

definition b64_char :: "nat \<Rightarrow> char" where
  "b64_char n = b64_alphabet ! n"

fun base64 :: "8 word list \<Rightarrow> string" where
  "base64 [] = []"
| "base64 [a] = [b64_char (unat a div 4), b64_char (unat a mod 4 * 16), CHR ''='', CHR ''='']"
| "base64 [a, b] = [b64_char (unat a div 4), b64_char (unat a mod 4 * 16 + unat b div 16),
     b64_char (unat b mod 16 * 4), CHR ''='']"
| "base64 (a # b # c # bs) = [b64_char (unat a div 4), b64_char (unat a mod 4 * 16 + unat b div 16),
     b64_char (unat b mod 16 * 4 + unat c div 64), b64_char (unat c mod 64)] @ base64 bs"

text \<open>\<open>map[string]any{"agentId": agentID, "payload": payload}\<close>: a nil payload is \<open>null\<close>\<close>

definition send_body :: "string \<Rightarrow> 8 word list option \<Rightarrow> string" where
  "send_body agentID payload = json_text (JObj [(''agentId'', JStr agentID),
     (''payload'', (case payload of None \<Rightarrow> JNull | Some bs \<Rightarrow> JStr (base64 bs)))])"

definition authorize :: "A2AClient \<Rightarrow> http_request \<Rightarrow> http_request" where
  "authorize c req =
     (if ac_authToken c \<noteq> []
      then req\<lparr>hq_Header := (hq_Header req)(''Authorization'' \<mapsto> ''Bearer '' @ ac_authToken c)\<rparr>
      else req)"

section \<open>Operations\<close>

definition doRequest :: "'w http_lib \<Rightarrow> http_request \<Rightarrow> 'w http_state \<Rightarrow> TaskResult res \<times> 'w http_state" where
  "doRequest hl req s =
     (case api (HttpDo req) (hl_Do hl req) s of
        (Inl err, s1) \<Rightarrow> (Inl (Wrapped ''a2a: http: '' err), s1)
      | (Inr resp, s1) \<Rightarrow>
          (if hp_StatusCode resp < 200 \<or> hp_StatusCode resp \<ge> 300 then
             (Inl (Errorf (''a2a: gateway returned '' @ dec_int (hp_StatusCode resp))), s1)
           else
             case hp_Body resp of
               Inl err \<Rightarrow> (Inl (Wrapped ''a2a: read response: '' err), s1)
             | Inr raw \<Rightarrow>
                 (case hl_Unmarshal hl raw of
                    Inl err \<Rightarrow> (Inl (Wrapped ''a2a: unmarshal response: '' err), s1)
                  | Inr gr \<Rightarrow>
                      (Inr \<lparr>tr_TaskID = gr_TaskID gr, tr_State = gr_State gr, tr_Output = gr_Output gr\<rparr>, s1))))"

text \<open>Marshalling the body cannot fail: a string and bytes.\<close>

definition SendTask ::
    "'w http_lib \<Rightarrow> A2AClient \<Rightarrow> string \<Rightarrow> 8 word list option \<Rightarrow> 'w http_state
     \<Rightarrow> TaskResult res \<times> 'w http_state" where
  "SendTask hl c agentID payload s =
     (let data = send_body agentID payload; url = ac_gatewayURL c @ ''/tasks/send'' in
      case hl_NewRequest hl ''POST'' url of
        Some err \<Rightarrow> (Inl (Wrapped ''a2a: create request: '' err), s)
      | None \<Rightarrow>
          doRequest hl (authorize c \<lparr>hq_Method = ''POST'', hq_URL = url,
            hq_Header = [''Content-Type'' \<mapsto> ''application/json''], hq_Body = Some data\<rparr>) s)"

definition GetTaskStatus ::
    "'w http_lib \<Rightarrow> A2AClient \<Rightarrow> string \<Rightarrow> 'w http_state \<Rightarrow> TaskResult res \<times> 'w http_state" where
  "GetTaskStatus hl c taskID s =
     (let url = ac_gatewayURL c @ ''/tasks/'' @ taskID @ ''/status'' in
      case hl_NewRequest hl ''GET'' url of
        Some err \<Rightarrow> (Inl (Wrapped ''a2a: create request: '' err), s)
      | None \<Rightarrow>
          doRequest hl (authorize c \<lparr>hq_Method = ''GET'', hq_URL = url, hq_Header = Map.empty, hq_Body = None\<rparr>) s)"

section \<open>What a gateway reads\<close>

text \<open>Base64 of RFC 4648, read digit by digit\<close>

definition b64_value :: "char \<Rightarrow> nat" where
  "b64_value c =
     (let n = of_char c :: nat in
      if 65 \<le> n \<and> n \<le> 90 then n - 65
      else if 97 \<le> n \<and> n \<le> 122 then n - 71
      else if 48 \<le> n \<and> n \<le> 57 then n + 4
      else if n = 43 then 62 else 63)"

fun unbase64 :: "string \<Rightarrow> 8 word list" where
  "unbase64 (a # b # c # d # r) =
     (let x = b64_value a * 4 + b64_value b div 16;
          y = b64_value b mod 16 * 16 + b64_value c div 4;
          z = b64_value c mod 4 * 64 + b64_value d in
      if c = CHR ''='' then [word_of_nat x]
      else if d = CHR ''='' then [word_of_nat x, word_of_nat y]
      else [word_of_nat x, word_of_nat y, word_of_nat z] @ unbase64 r)"
| "unbase64 _ = []"

lemma b64_length: "length b64_alphabet = 64"
  by (simp add: b64_alphabet_def)

lemma b64_values: "map b64_value b64_alphabet = [0..<64]"
  by (simp add: b64_alphabet_def b64_value_def upt_rec)

lemma b64_in: "n < 64 \<Longrightarrow> b64_char n \<in> set b64_alphabet"
  unfolding b64_char_def by (metis b64_length nth_mem)

lemma b64_char_value: "n < 64 \<Longrightarrow> b64_value (b64_char n) = n"
proof -
  assume n: "n < 64"
  then have "b64_value (b64_char n) = map b64_value b64_alphabet ! n" by (simp add: b64_char_def b64_length)
  then show ?thesis unfolding b64_values using n by simp
qed

lemma b64_char_pad: "n < 64 \<Longrightarrow> b64_char n \<noteq> CHR ''=''"
proof -
  have "CHR ''='' \<notin> set b64_alphabet" by (simp add: b64_alphabet_def)
  then show "n < 64 \<Longrightarrow> ?thesis" using b64_in [of n] by metis
qed

text \<open>Four digits are three bytes, with padding two or one.\<close>

lemma unbase64_1:
  "k < 64 \<Longrightarrow> l < 64 \<Longrightarrow>
     unbase64 (b64_char k # b64_char l # CHR ''='' # CHR ''='' # r) = [word_of_nat (k * 4 + l div 16)]"
  by (simp add: Let_def b64_char_value)

lemma unbase64_2:
  "k < 64 \<Longrightarrow> l < 64 \<Longrightarrow> m < 64 \<Longrightarrow>
     unbase64 (b64_char k # b64_char l # b64_char m # CHR ''='' # r)
       = [word_of_nat (k * 4 + l div 16), word_of_nat (l mod 16 * 16 + m div 4)]"
  by (simp add: Let_def b64_char_value b64_char_pad)

lemma unbase64_3:
  "k < 64 \<Longrightarrow> l < 64 \<Longrightarrow> m < 64 \<Longrightarrow> n < 64 \<Longrightarrow>
     unbase64 (b64_char k # b64_char l # b64_char m # b64_char n # r)
       = [word_of_nat (k * 4 + l div 16), word_of_nat (l mod 16 * 16 + m div 4), word_of_nat (m mod 4 * 64 + n)]
         @ unbase64 r"
  by (simp add: Let_def b64_char_value b64_char_pad)

lemmas unbase64_digits = unbase64_1 unbase64_2 unbase64_3

lemma byte_less: "unat (a :: 8 word) < 256"
  using unsigned_less [of a, where 'a = nat] by simp

lemma byte_bounds:
  "unat (a :: 8 word) div 4 < 64" "unat a mod 4 * 16 < 64" "unat a mod 16 * 4 < 64" "unat a mod 64 < 64"
  "unat a mod 4 * 16 + unat (b :: 8 word) div 16 < 64" "unat a mod 16 * 4 + unat b div 64 < 64"
  using byte_less [of a] byte_less [of b] by linarith+

text \<open>The bytes of a group from its digits\<close>

lemma sextet2: "(b :: nat) < 256 \<Longrightarrow> (a mod 4 * 16 + b div 16) div 16 = a mod 4"
  "(b :: nat) < 256 \<Longrightarrow> (a mod 4 * 16 + b div 16) mod 16 = b div 16"
  by (simp_all add: less_mult_imp_div_less)

lemma sextet3: "(c :: nat) < 256 \<Longrightarrow> (b mod 16 * 4 + c div 64) div 4 = b mod 16"
  "(c :: nat) < 256 \<Longrightarrow> (b mod 16 * 4 + c div 64) mod 4 = c div 64"
  by (simp_all add: less_mult_imp_div_less)

lemma group_bytes:
  fixes a b c :: nat
  shows "a div 4 * 4 + (a mod 4 * 16) div 16 = a"
    and "b < 256 \<Longrightarrow> a div 4 * 4 + (a mod 4 * 16 + b div 16) div 16 = a"
    and "b < 256 \<Longrightarrow> (a mod 4 * 16 + b div 16) mod 16 * 16 + (b mod 16 * 4) div 4 = b"
    and "b < 256 \<Longrightarrow> c < 256 \<Longrightarrow> (a mod 4 * 16 + b div 16) mod 16 * 16 + (b mod 16 * 4 + c div 64) div 4 = b"
    and "c < 256 \<Longrightarrow> (b mod 16 * 4 + c div 64) mod 4 * 64 + c mod 64 = c"
proof -
  show "a div 4 * 4 + (a mod 4 * 16) div 16 = a" by simp
  show "a div 4 * 4 + (a mod 4 * 16 + b div 16) div 16 = a" if "b < 256" unfolding sextet2 [OF that] by simp
  show "(a mod 4 * 16 + b div 16) mod 16 * 16 + (b mod 16 * 4) div 4 = b" if "b < 256"
    unfolding sextet2 [OF that] by simp
  show "(a mod 4 * 16 + b div 16) mod 16 * 16 + (b mod 16 * 4 + c div 64) div 4 = b" if "b < 256" "c < 256"
    unfolding sextet2 [OF that(1)] sextet3 [OF that(2)] by simp
  show "(b mod 16 * 4 + c div 64) mod 4 * 64 + c mod 64 = c" if "c < 256" unfolding sextet3 [OF that] by simp
qed

lemma byte_back: "word_of_nat (unat a) = (a :: 8 word)"
  by simp

lemma unbase64_base64: "unbase64 (base64 bs) = bs"
proof (induction bs rule: base64.induct)
  case (2 a)
  show ?case
    by (simp only: base64.simps unbase64_digits byte_bounds group_bytes byte_less byte_back)
next
  case (3 a b)
  show ?case
    by (simp only: base64.simps unbase64_digits byte_bounds group_bytes byte_less byte_back)
next
  case (4 a b c bs)
  then show ?case
    by (simp only: base64.simps append.simps unbase64_digits byte_bounds group_bytes byte_less byte_back)
qed simp

lemma base64_ascii: "c \<in> set (base64 bs) \<Longrightarrow> (of_char c :: nat) < 128"
proof -
  have "\<forall>c\<in>set b64_alphabet. (of_char c :: nat) < 128" by (simp add: b64_alphabet_def)
  then have "n < 64 \<Longrightarrow> (of_char (b64_char n) :: nat) < 128" for n using b64_in by blast
  then have "\<forall>c\<in>set (base64 bs). (of_char c :: nat) < 128"
    by (induction bs rule: base64.induct) (auto simp: byte_bounds)
  then show "c \<in> set (base64 bs) \<Longrightarrow> (of_char c :: nat) < 128" by blast
qed

text \<open>
  A gateway reads a JSON object with the two keys of the A2A call: the agent, and the payload,
  \<open>null\<close> when it is nil and otherwise base64 that decodes to its bytes.
\<close>

definition payload_of :: "json \<Rightarrow> 8 word list option" where
  "payload_of j = (case j of JStr t \<Rightarrow> Some (unbase64 t) | _ \<Rightarrow> None)"

definition asks_for :: "string \<Rightarrow> 8 word list option \<Rightarrow> string \<Rightarrow> bool" where
  "asks_for agentID payload body \<longleftrightarrow>
     (\<exists>p. Unmarshal body = Some (JObj [(''agentId'', JStr agentID), (''payload'', p)])
        \<and> (p = JNull \<longleftrightarrow> payload = None) \<and> payload_of p = payload)"

lemma send_body_json:
  "send_body agentID payload = json_text (JObj [(''agentId'', JStr agentID),
     (''payload'', case payload of None \<Rightarrow> JNull | Some bs \<Rightarrow> JStr (base64 bs))])"
  by (cases payload) (simp_all add: send_body_def)

lemma to_valid_keys [simp]: "to_valid ''agentId'' = ''agentId''" "to_valid ''payload'' = ''payload''"
  by (rule to_valid_valid, rule valid_ascii, auto)+

lemma to_valid_base64 [simp]: "to_valid (base64 bs) = base64 bs"
  by (rule to_valid_valid, rule valid_ascii) (rule base64_ascii)

lemma send_body_asks: "asks_for (to_valid agentID) payload (send_body agentID payload)"
  unfolding asks_for_def send_body_json Unmarshal_json_text
  by (cases payload) (simp_all add: payload_of_def unbase64_base64)

section \<open>One exchange\<close>

text \<open>The answer of the gateway is a status of the 200 range with a body that can be read and decoded.\<close>

definition answered :: "'w http_lib \<Rightarrow> http_response res \<Rightarrow> TaskResult \<Rightarrow> bool" where
  "answered hl resp tr \<longleftrightarrow> (\<exists>p raw gr. resp = Inr p \<and> 200 \<le> hp_StatusCode p \<and> hp_StatusCode p < 300
     \<and> hp_Body p = Inr raw \<and> hl_Unmarshal hl raw = Inr gr
     \<and> tr = \<lparr>tr_TaskID = gr_TaskID gr, tr_State = gr_State gr, tr_Output = gr_Output gr\<rparr>)"

text \<open>The request of an operation is sent once, and what is returned is exactly what was answered.\<close>

definition exchanges ::
    "'w http_lib \<Rightarrow> http_request \<Rightarrow> 'w http_state \<Rightarrow> TaskResult res \<times> 'w http_state \<Rightarrow> bool" where
  "exchanges hl req s out \<longleftrightarrow> (\<exists>resp. hl_Do hl req (world s) = (resp, world (snd out))
     \<and> trace (snd out) = trace s @ [Call (HttpDo req) (err_of resp)]
     \<and> (\<forall>tr. fst out = Inr tr \<longleftrightarrow> answered hl resp tr))"

lemma doRequest_exchanges: "exchanges hl req s (doRequest hl req s)"
proof -
  obtain resp s1 where run: "api (HttpDo req) (hl_Do hl req) s = (resp, s1)" by fastforce
  have "\<exists>r. doRequest hl req s = (r, s1) \<and> (\<forall>tr. r = Inr tr \<longleftrightarrow> answered hl resp tr)"
    by (auto simp: doRequest_def run answered_def split: sum.splits)
  then obtain r where r: "doRequest hl req s = (r, s1)" "\<forall>tr. r = Inr tr \<longleftrightarrow> answered hl resp tr" by blast
  show ?thesis
    unfolding exchanges_def r(1) fst_conv snd_conv using api_world [OF run] api_trace [OF run] r(2) by blast
qed

lemma authorize_fields [simp]:
  "hq_Method (authorize c req) = hq_Method req" "hq_URL (authorize c req) = hq_URL req" "hq_Body (authorize c req) = hq_Body req"
  by (simp_all add: authorize_def)

definition bearer :: "A2AClient \<Rightarrow> http_request \<Rightarrow> bool" where
  "bearer c req \<longleftrightarrow> hq_Header req ''Authorization''
     = (if ac_authToken c = [] then None else Some (''Bearer '' @ ac_authToken c))"

lemma bearer_authorize: "hq_Header req ''Authorization'' = None \<Longrightarrow> bearer c (authorize c req)"
  by (simp add: bearer_def authorize_def)

lemma content_type_authorize:
  "hq_Header req ''Content-Type'' = v \<Longrightarrow> hq_Header (authorize c req) ''Content-Type'' = v"
  by (simp add: authorize_def)

lemma SendTask_exchange:
  assumes "url = ac_gatewayURL c @ ''/tasks/send''"
  shows "if hl_NewRequest hl ''POST'' url \<noteq> None then \<exists>e. SendTask hl c agentID payload s = (Inl e, s)
    else \<exists>req body. hq_Method req = ''POST'' \<and> hq_URL req = url \<and> bearer c req
      \<and> hq_Header req ''Content-Type'' = Some ''application/json''
      \<and> hq_Body req = Some body \<and> asks_for (to_valid agentID) payload body
      \<and> (valid_utf8 agentID \<longrightarrow> asks_for agentID payload body)
      \<and> exchanges hl req s (SendTask hl c agentID payload s)"
proof (cases "hl_NewRequest hl ''POST'' url")
  case None
  let ?req = "authorize c \<lparr>hq_Method = ''POST'', hq_URL = url, hq_Header = [''Content-Type'' \<mapsto> ''application/json''],
      hq_Body = Some (send_body agentID payload)\<rparr>"
  have "SendTask hl c agentID payload s = doRequest hl ?req s" using None assms by (simp add: SendTask_def Let_def)
  with doRequest_exchanges [of hl ?req s] have "exchanges hl ?req s (SendTask hl c agentID payload s)" by (simp only:)
  moreover have "bearer c ?req" by (simp add: bearer_authorize)
  moreover have "hq_Header ?req ''Content-Type'' = Some ''application/json''" by (simp add: content_type_authorize)
  moreover have "hq_Method ?req = ''POST''" "hq_URL ?req = url" "hq_Body ?req = Some (send_body agentID payload)"
    by simp_all
  moreover have "asks_for (to_valid agentID) payload (send_body agentID payload)" by (rule send_body_asks)
  moreover have "valid_utf8 agentID \<longrightarrow> asks_for agentID payload (send_body agentID payload)"
    using send_body_asks [of agentID payload] to_valid_valid [of agentID] by metis
  ultimately show ?thesis unfolding None by (simp only: simp_thms if_False) blast
qed (use assms in \<open>simp add: SendTask_def Let_def\<close>)

lemma GetTaskStatus_exchange:
  assumes "url = ac_gatewayURL c @ ''/tasks/'' @ taskID @ ''/status''"
  shows "if hl_NewRequest hl ''GET'' url \<noteq> None then \<exists>e. GetTaskStatus hl c taskID s = (Inl e, s)
    else \<exists>req. hq_Method req = ''GET'' \<and> hq_URL req = url \<and> bearer c req \<and> hq_Body req = None
      \<and> exchanges hl req s (GetTaskStatus hl c taskID s)"
proof (cases "hl_NewRequest hl ''GET'' url")
  case None
  let ?req = "authorize c \<lparr>hq_Method = ''GET'', hq_URL = url, hq_Header = Map.empty, hq_Body = None\<rparr>"
  have "GetTaskStatus hl c taskID s = doRequest hl ?req s"
    using None unfolding GetTaskStatus_def Let_def assms [symmetric] by simp
  with doRequest_exchanges [of hl ?req s] have "exchanges hl ?req s (GetTaskStatus hl c taskID s)" by (simp only:)
  moreover have "bearer c ?req" by (simp add: bearer_authorize)
  moreover have "hq_Method ?req = ''GET''" "hq_URL ?req = url" "hq_Body ?req = None" by simp_all
  ultimately show ?thesis unfolding None by (simp only: simp_thms if_False) blast
next
  case (Some e)
  then show ?thesis unfolding GetTaskStatus_def Let_def assms [symmetric] by simp
qed

text \<open>
  C39. A client made by New has the gateway it was given, which is not empty, and each of its operations
  makes one request, or none when no request can be made of its URL, which is an error. SendTask
  posts to the gateway's send path, as \<open>application/json\<close>, a body that reads as the object of the
  key \<open>agentId\<close> with the agent and the key \<open>payload\<close> with \<open>null\<close> for a nil payload, base64 of its
  bytes otherwise (a stray byte in an agent's name, which no valid UTF-8 has, arrives as \<open>U+FFFD\<close>);
  GetTaskStatus gets the status path of the task, without a body. Both carry the token as a bearer header
  exactly when the client has one, and return the gateway's answer exactly when it has a
  status of the 200 range, can be read and can be decoded; every other outcome is an error.
\<close>

theorem a2a_exchange:
  assumes "a2a_New cfg = Inr c"
  shows "a2a_GatewayURL cfg \<noteq> [] \<and>
    (let url = a2a_GatewayURL cfg @ ''/tasks/send'' in
      if hl_NewRequest hl ''POST'' url \<noteq> None then \<exists>e. SendTask hl c agentID payload s = (Inl e, s)
      else \<exists>req body. hq_Method req = ''POST'' \<and> hq_URL req = url \<and> bearer c req
        \<and> hq_Header req ''Content-Type'' = Some ''application/json''
        \<and> hq_Body req = Some body \<and> asks_for (to_valid agentID) payload body
        \<and> (valid_utf8 agentID \<longrightarrow> asks_for agentID payload body)
        \<and> exchanges hl req s (SendTask hl c agentID payload s))
    \<and> (let url = a2a_GatewayURL cfg @ ''/tasks/'' @ taskID @ ''/status'' in
      if hl_NewRequest hl ''GET'' url \<noteq> None then \<exists>e. GetTaskStatus hl c taskID s = (Inl e, s)
      else \<exists>req. hq_Method req = ''GET'' \<and> hq_URL req = url \<and> bearer c req \<and> hq_Body req = None
        \<and> exchanges hl req s (GetTaskStatus hl c taskID s))"
proof -
  have c: "a2a_GatewayURL cfg \<noteq> []" "ac_gatewayURL c = a2a_GatewayURL cfg"
    using assms by (auto simp: a2a_New_def split: if_splits)
  show ?thesis
    unfolding Let_def c(2) [symmetric]
    by (intro conjI SendTask_exchange GetTaskStatus_exchange) (simp_all add: c)
qed

text \<open>A gateway that has finished every task, on a stack that accepts every URL\<close>

definition demo_http :: "unit http_lib" where
  "demo_http = \<lparr>hl_NewRequest = (\<lambda>m u. None), hl_Do = (\<lambda>req w. (Inr \<lparr>hp_StatusCode = 200, hp_Body = Inr ''{}''\<rparr>, w)),
     hl_Unmarshal = (\<lambda>raw. Inr \<lparr>gr_TaskID = ''t1'', gr_State = ''completed'', gr_Output = []\<rparr>)\<rparr>"

theorem a2a_exchange_witness:
  "\<exists>c s' body req. a2a_New \<lparr>a2a_GatewayURL = ''http://gw'', a2a_AuthToken = ''secret''\<rparr> = Inr c
     \<and> SendTask demo_http c ''agent-1'' (Some [77, 117]) \<lparr>world = (), trace = [], ctx_next = 0, ctx_done = [], otlp_active = False\<rparr>
        = (Inr \<lparr>tr_TaskID = ''t1'', tr_State = ''completed'', tr_Output = []\<rparr>, s')
     \<and> trace s' = [Call (HttpDo req) None] \<and> hq_Body req = Some body \<and> asks_for ''agent-1'' (Some [77, 117]) body"
proof -
  let ?s = "\<lparr>world = (), trace = [], ctx_next = 0, ctx_done = [], otlp_active = False\<rparr> :: unit http_state"
  obtain c where new: "a2a_New \<lparr>a2a_GatewayURL = ''http://gw'', a2a_AuthToken = ''secret''\<rparr> = Inr c"
    by (simp add: a2a_New_def)
  have valid: "valid_utf8 ''agent-1''" by (rule valid_ascii) auto
  from a2a_exchange [OF new, of demo_http "''agent-1''" "Some [77, 117]" ?s "''t1''"] valid
  obtain req body where req: "hq_Body req = Some body" "asks_for ''agent-1'' (Some [77, 117]) body"
    and ex: "exchanges demo_http req ?s (SendTask demo_http c ''agent-1'' (Some [77, 117]) ?s)"
    by (auto simp: demo_http_def Let_def)
  obtain r s' where run: "SendTask demo_http c ''agent-1'' (Some [77, 117]) ?s = (r, s')" by fastforce
  from ex have "r = Inr \<lparr>tr_TaskID = ''t1'', tr_State = ''completed'', tr_Output = []\<rparr>" "trace s' = [Call (HttpDo req) None]"
    unfolding run by (simp_all add: exchanges_def answered_def demo_http_def err_of_def)
  with new run req show ?thesis by blast
qed

end
