(* ===== verification/Message_Bus.thy ===== *)
theory Message_Bus
  imports Telemetry
begin

text \<open>
  \<open>core/messaging\<close> (\<open>bus.go\<close>, \<open>registry.go\<close>) and \<open>platform/k8s/eventwatcher.go\<close>: the interface of
  a message bus with what its users rely on, the registry of constructors, and the watcher of
  a tenant's events. Message data are byte strings; a handler acts on a state of its own.
\<close>

type_synonym BusType = string

definition BusTypeNATS :: BusType where "BusTypeNATS = ''nats''"
definition BusTypeKafka :: BusType where "BusTypeKafka = ''kafka''"

record BusConfig =
  bc_URLs :: "string list"
  bc_Username :: string
  bc_Password :: string

text \<open>\<open>agent.MsgHandler\<close>\<close>

type_synonym 'h MsgHandler = "string \<Rightarrow> string \<Rightarrow> 'h \<Rightarrow> goerror option \<times> 'h"

text \<open>The methods of a bus over its state; \<open>Subscribe\<close> is also given its context\<close>

record ('h, 's) MessageBus =
  bus_Publish :: "string \<Rightarrow> string \<Rightarrow> 's \<Rightarrow> goerror option \<times> 's"
  bus_Subscribe :: "nat \<Rightarrow> string \<Rightarrow> 'h MsgHandler \<Rightarrow> 's \<Rightarrow> goerror option \<times> 's"
  bus_Close :: "'s \<Rightarrow> goerror option \<times> 's"

section \<open>The contract\<close>

text \<open>
  \<open>handlers\<close> reads off the state the topics the bus tracks and, for each, the handler of the
  subscription it tracks for the topic.
\<close>

locale message_bus =
  fixes B :: "('h, 's) MessageBus" and handlers :: "'s \<Rightarrow> string \<rightharpoonup> 'h MsgHandler"
  assumes subscribe_ok: "bus_Subscribe B c t h s = (None, s') \<Longrightarrow> handlers s' = (handlers s)(t \<mapsto> h)"
    and subscribe_err: "bus_Subscribe B c t h s = (Some e, s') \<Longrightarrow> handlers s' = handlers s"
    and publish: "bus_Publish B t m s = (r, s') \<Longrightarrow> handlers s' = handlers s"
    and close: "bus_Close B s = (r, s') \<Longrightarrow> handlers s' = Map.empty"

section \<open>The registry\<close>

type_synonym ('b, 's) constructors = "BusType \<rightharpoonup> (BusConfig \<Rightarrow> 's \<Rightarrow> 'b res \<times> 's)"

definition Register ::
    "BusType \<Rightarrow> (BusConfig \<Rightarrow> 's \<Rightarrow> 'b res \<times> 's) \<Rightarrow> ('b, 's) constructors \<Rightarrow> ('b, 's) constructors" where
  "Register t fn constructors = constructors(t \<mapsto> fn)"

text \<open>\<open>registeredTypes()\<close> ranges over the map, in the order given, and \<open>%v\<close> prints the list.\<close>

definition registeredTypes :: "string list \<Rightarrow> ('b, 's) constructors \<Rightarrow> string list" where
  "registeredTypes order constructors = filter (\<lambda>k. constructors k \<noteq> None) order"

definition NewBus ::
    "string list \<Rightarrow> ('b, 's) constructors \<Rightarrow> BusType \<Rightarrow> BusConfig \<Rightarrow> 's \<Rightarrow> 'b res \<times> 's" where
  "NewBus order constructors t cfg s =
     (case constructors t of
        None \<Rightarrow>
          (Inl (Errorf (''unknown bus type '' @ go_quote t @ ''; registered types: [''
             @ Join (registeredTypes order constructors) '' '' @ '']'')), s)
      | Some fn \<Rightarrow> fn cfg s)"

lemma NewBus_registered: "NewBus order (Register t fn cs) t cfg s = fn cfg s"
  by (simp add: NewBus_def Register_def)

lemma NewBus_other:
  "u \<noteq> t \<Longrightarrow> cs u \<noteq> None \<Longrightarrow> NewBus order (Register t fn cs) u cfg s = NewBus order cs u cfg s"
  by (auto simp: NewBus_def Register_def)

section \<open>The event watcher\<close>

type_synonym 'h EventHandler = "string \<Rightarrow> string \<Rightarrow> string \<Rightarrow> 'h \<Rightarrow> goerror option \<times> 'h"

record ('h, 's) EventWatcher =
  ew_bus :: "('h, 's) MessageBus"
  ew_topic :: string
  ew_tenantID :: string
  ew_handler :: "'h EventHandler"

definition NewEventWatcher ::
    "('h, 's) MessageBus \<Rightarrow> string \<Rightarrow> string \<Rightarrow> 'h EventHandler \<Rightarrow> ('h, 's) EventWatcher" where
  "NewEventWatcher bus topic tenantID handler =
     \<lparr>ew_bus = bus, ew_topic = topic, ew_tenantID = tenantID, ew_handler = handler\<rparr>"

definition Start :: "('h, 's) EventWatcher \<Rightarrow> nat \<Rightarrow> 's \<Rightarrow> goerror option \<times> 's" where
  "Start w ctx s = bus_Subscribe (ew_bus w) ctx (ew_topic w) (\<lambda>topic data. ew_handler w (ew_tenantID w) topic data) s"

context message_bus begin

text \<open>A watcher that has started has its tenant's handler on its topic.\<close>

lemma watcher_started:
  assumes "Start (NewEventWatcher B topic tenant h) c s = (None, s')"
  shows "handlers s' topic = Some (h tenant)"
  using assms subscribe_ok [of c topic "h tenant" s s'] by (simp add: Start_def NewEventWatcher_def)

lemma watcher_failed:
  assumes "Start (NewEventWatcher B topic tenant h) c s = (Some e, s')"
  shows "handlers s' = handlers s"
  using assms subscribe_err [of c topic "h tenant" s e s'] by (simp add: Start_def NewEventWatcher_def)

text \<open>Two watchers of one topic: the bus tracks the subscription of the second only.\<close>

lemma second_watcher_replaces:
  assumes "Start (NewEventWatcher B topic t1 h1) c1 s = (None, s1)"
    and "Start (NewEventWatcher B topic t2 h2) c2 s1 = (None, s2)"
  shows "handlers s2 topic = Some (h2 t2)"
  using assms(2) by (rule watcher_started)

lemma closed_handles_nothing: "bus_Close B s = (r, s') \<Longrightarrow> handlers s' t = None"
  by (simp add: close)

end

end
