(* ===== verification/NATS.thy ===== *)
theory NATS
  imports Message_Bus
begin

text \<open>
  \<open>core/messaging/nats/nats.go\<close>: the bus over NATS JetStream. The NATS library is a parameter:
  connections, JetStream contexts and subscriptions are the numbers it hands out. A subscription
  holds the handler its callback calls.
\<close>

datatype nats_call =
    NConnect string "(string \<times> string) option" | NJetStream nat | NCloseConn nat
  | NPublish nat string string | NSubscribe nat string | NUnsubscribe nat | NAck | NNak

record 'w nats_lib =
  nl_Connect :: "string \<Rightarrow> (string \<times> string) option \<Rightarrow> 'w \<Rightarrow> nat res \<times> 'w"
  nl_JetStream :: "nat \<Rightarrow> 'w \<Rightarrow> nat res \<times> 'w"
  nl_CloseConn :: "nat \<Rightarrow> 'w \<Rightarrow> goerror option \<times> 'w"
  nl_Publish :: "nat \<Rightarrow> string \<Rightarrow> string \<Rightarrow> 'w \<Rightarrow> goerror option \<times> 'w"
  nl_Subscribe :: "nat \<Rightarrow> string \<Rightarrow> 'w \<Rightarrow> nat res \<times> 'w"
  nl_Unsubscribe :: "nat \<Rightarrow> 'w \<Rightarrow> goerror option \<times> 'w"
  nl_Ack :: "'w \<Rightarrow> goerror option \<times> 'w"
  nl_Nak :: "'w \<Rightarrow> goerror option \<times> 'w"

type_synonym 'w nats_state = "('w, nats_call) io_state"

record 'h Subscription =
  sub_id :: nat
  sub_handler :: "'h MsgHandler"

record 'h NATSBus =
  nb_conn :: nat
  nb_js :: nat
  nb_subs :: "string \<rightharpoonup> 'h Subscription"

definition NATS_New :: "'w nats_lib \<Rightarrow> BusConfig \<Rightarrow> 'w nats_state \<Rightarrow> 'h NATSBus res \<times> 'w nats_state" where
  "NATS_New nl cfg s =
     (let url = Join (bc_URLs cfg) '','';
          opts = (if bc_Username cfg \<noteq> [] then Some (bc_Username cfg, bc_Password cfg) else None)
      in case api (NConnect url opts) (nl_Connect nl url opts) s of
           (Inl err, s1) \<Rightarrow> (Inl (Wrapped ''nats connect: '' err), s1)
         | (Inr conn, s1) \<Rightarrow>
             (case api (NJetStream conn) (nl_JetStream nl conn) s1 of
                (Inl err, s2) \<Rightarrow>
                  (Inl (Wrapped ''nats jetstream: '' err),
                   snd (api_err (NCloseConn conn) (nl_CloseConn nl conn) s2))
              | (Inr js, s2) \<Rightarrow>
                  (Inr \<lparr>nb_conn = conn, nb_js = js, nb_subs = Map.empty\<rparr>, s2)))"

definition NATS_Publish ::
    "'w nats_lib \<Rightarrow> string \<Rightarrow> string \<Rightarrow> 'h NATSBus \<times> 'w nats_state
     \<Rightarrow> goerror option \<times> 'h NATSBus \<times> 'w nats_state" where
  "NATS_Publish nl topic msg st =
     (let (b, s) = st; (err, s1) = api_err (NPublish (nb_js b) topic msg) (nl_Publish nl (nb_js b) topic msg) s
      in (err, (b, s1)))"

text \<open>What the callback given to the library does with one message\<close>

definition nats_deliver ::
    "'w nats_lib \<Rightarrow> 'h MsgHandler \<Rightarrow> string \<Rightarrow> string \<Rightarrow> 'h \<times> 'w nats_state \<Rightarrow> 'h \<times> 'w nats_state" where
  "nats_deliver nl handler subject data st =
     (let (hs, s) = st in
      case handler subject data hs of
        (Some err, hs') \<Rightarrow> (hs', snd (api_err NNak (nl_Nak nl) s))
      | (None, hs') \<Rightarrow> (hs', snd (api_err NAck (nl_Ack nl) s)))"

definition NATS_Subscribe ::
    "'w nats_lib \<Rightarrow> nat \<Rightarrow> string \<Rightarrow> 'h MsgHandler \<Rightarrow> 'h NATSBus \<times> 'w nats_state
     \<Rightarrow> goerror option \<times> 'h NATSBus \<times> 'w nats_state" where
  "NATS_Subscribe nl ctx topic handler st =
     (let (b, s) = st in
      case api (NSubscribe (nb_js b) topic) (nl_Subscribe nl (nb_js b) topic) s of
        (Inl err, s1) \<Rightarrow> (Some err, (b, s1))
      | (Inr sub, s1) \<Rightarrow>
          (None, (b\<lparr>nb_subs := (nb_subs b)(topic \<mapsto> \<lparr>sub_id = sub, sub_handler = handler\<rparr>)\<rparr>, s1)))"

text \<open>The loop of \<open>Close\<close> over the tracked subscriptions, in the order the range visits the topics\<close>

fun unsubscribe_all ::
    "'w nats_lib \<Rightarrow> (string \<rightharpoonup> 'h Subscription) \<Rightarrow> string list \<Rightarrow> 'w nats_state \<Rightarrow> 'w nats_state" where
  "unsubscribe_all nl subs [] s = s"
| "unsubscribe_all nl subs (t # ts) s =
     unsubscribe_all nl subs ts
       (case subs t of
          Some sub \<Rightarrow> snd (api_err (NUnsubscribe (sub_id sub)) (nl_Unsubscribe nl (sub_id sub)) s)
        | None \<Rightarrow> s)"

definition NATS_Close ::
    "'w nats_lib \<Rightarrow> string list \<Rightarrow> 'h NATSBus \<times> 'w nats_state \<Rightarrow> goerror option \<times> 'h NATSBus \<times> 'w nats_state" where
  "NATS_Close nl order st =
     (let (b, s) = st;
          s1 = unsubscribe_all nl (nb_subs b) order s;
          b1 = b\<lparr>nb_subs := Map.empty\<rparr>
      in (None, (b1, snd (api_err (NCloseConn (nb_conn b)) (nl_CloseConn nl (nb_conn b)) s1))))"

definition NATS_bus :: "'w nats_lib \<Rightarrow> string list \<Rightarrow> ('h, 'h NATSBus \<times> 'w nats_state) MessageBus" where
  "NATS_bus nl order = \<lparr>bus_Publish = NATS_Publish nl, bus_Subscribe = NATS_Subscribe nl, bus_Close = NATS_Close nl order\<rparr>"

section \<open>The bus keeps the contract\<close>

definition nats_handlers :: "'h NATSBus \<times> 'w nats_state \<Rightarrow> string \<rightharpoonup> 'h MsgHandler" where
  "nats_handlers st = (\<lambda>t. map_option sub_handler (nb_subs (fst st) t))"

interpretation nats: message_bus "NATS_bus nl order" nats_handlers
  for nl :: "'w nats_lib" and order :: "string list"
  by unfold_locales
     (auto simp: NATS_bus_def NATS_Subscribe_def NATS_Publish_def NATS_Close_def nats_handlers_def fun_eq_iff Let_def
       split: prod.splits sum.splits)

section \<open>Which subscriptions are closed\<close>

text \<open>A run of subscriptions, and the topics with the identifiers the library gave them\<close>

fun subscribe_run ::
    "'w nats_lib \<Rightarrow> (nat \<times> string \<times> 'h MsgHandler) list \<Rightarrow> 'h NATSBus \<times> 'w nats_state
     \<Rightarrow> (string \<times> nat) list \<times> 'h NATSBus \<times> 'w nats_state" where
  "subscribe_run nl [] st = ([], st)"
| "subscribe_run nl ((c, t, h) # rs) st =
     (case NATS_Subscribe nl c t h st of
        (Some err, st1) \<Rightarrow> subscribe_run nl rs st1
      | (None, st1) \<Rightarrow>
          (let (made, st2) = subscribe_run nl rs st1
           in ((t, sub_id (the (nb_subs (fst st1) t))) # made, st2)))"

lemma subscribe_run_subs:
  "subscribe_run nl rs st = (made, st') \<Longrightarrow>
     (\<lambda>t. map_option sub_id (nb_subs (fst st') t)) = (\<lambda>t. map_option sub_id (nb_subs (fst st) t)) ++ map_of (rev made)
     \<and> nb_conn (fst st') = nb_conn (fst st)"
proof (induction rs arbitrary: st made)
  case (Cons r rs)
  obtain c t h where r: "r = (c, t, h)" by (cases r)
  obtain err st1 where Pair: "NATS_Subscribe nl c t h st = (err, st1)" by (metis prod.collapse)
  show ?case
  proof (cases err)
      case None
      obtain made' where rest: "subscribe_run nl rs st1 = (made', st')"
        and made: "made = (t, sub_id (the (nb_subs (fst st1) t))) # made'"
        using Cons.prems r Pair None by (auto split: prod.splits)
      have "\<exists>n. nb_subs (fst st1) = (nb_subs (fst st))(t \<mapsto> \<lparr>sub_id = n, sub_handler = h\<rparr>)
          \<and> nb_conn (fst st1) = nb_conn (fst st)"
        using Pair None by (auto simp: NATS_Subscribe_def split: prod.splits sum.splits)
      with Cons.IH [OF rest] made show ?thesis by (auto simp: fun_eq_iff map_add_def split: option.splits)
  next
    case (Some e)
      then have "nb_subs (fst st1) = nb_subs (fst st) \<and> nb_conn (fst st1) = nb_conn (fst st)"
        using Pair by (auto simp: NATS_Subscribe_def split: prod.splits sum.splits)
      with Cons r Pair Some show ?thesis by auto
  qed
qed simp

lemma unsubscribe_all_trace:
  "set order \<subseteq> dom subs \<Longrightarrow> \<exists>es. length es = length order
     \<and> trace (unsubscribe_all nl subs order s)
        = trace s @ map (\<lambda>(t, e). Call (NUnsubscribe (sub_id (the (subs t)))) e) (zip order es)"
proof (induction order arbitrary: s)
  case (Cons t ts)
  then obtain sub where sub: "subs t = Some sub" by auto
  obtain e s1 where run: "api_err (NUnsubscribe (sub_id sub)) (nl_Unsubscribe nl (sub_id sub)) s = (e, s1)" by fastforce
  from Cons.IH [of s1] Cons.prems obtain es where "length es = length ts"
    "trace (unsubscribe_all nl subs ts s1)
      = trace s1 @ map (\<lambda>(t, e). Call (NUnsubscribe (sub_id (the (subs t)))) e) (zip ts es)" by auto
  with run sub show ?case by (intro exI [of _ "e # es"]) (auto dest: api_err_trace)
qed simp

text \<open>
  Closing a NATS bus unsubscribes, before it closes the connection, exactly the last
  subscription made to each topic, once, and leaves nothing tracked; it never fails. So every
  subscription is closed when the topics are distinct, and an earlier subscription to a topic
  subscribed again is left to the library.
\<close>

lemma nats_close_unsubscribes:
  fixes b :: "'h NATSBus"
  assumes "NATS_New nl cfg s0 = (Inr b, s1)" and "subscribe_run nl rs (b, s1) = (made, st)"
    and "range_order order (nb_subs (fst st))"
  shows "\<exists>es e b' s'. NATS_Close nl order st = (None, (b', s')) \<and> nb_subs b' = Map.empty
    \<and> length es = length order
    \<and> trace s' = trace (snd st)
        @ map (\<lambda>(t, e). Call (NUnsubscribe (the (map_of (rev made) t))) e) (zip order es) @ [Call (NCloseConn (nb_conn b)) e]
    \<and> set order = fst ` set made"
proof -
  have new: "nb_subs b = Map.empty"
    using assms(1) by (auto simp: NATS_New_def Let_def split: prod.splits sum.splits)
  obtain b2 s2 where st: "st = (b2, s2)" by (cases st)
  from subscribe_run_subs [OF assms(2)] new st
  have subs: "(\<lambda>t. map_option sub_id (nb_subs b2 t)) = map_of (rev made)" and conn: "nb_conn b2 = nb_conn b"
    by (auto simp: map_add_def fun_eq_iff split: option.splits)
  have dom: "dom (nb_subs b2) = fst ` set made"
  proof -
    have "dom (nb_subs b2) = dom (\<lambda>t. map_option sub_id (nb_subs b2 t))" by (auto simp: dom_def)
    then show ?thesis unfolding subs by (simp add: dom_map_of_conv_image_fst)
  qed
  have sub_id: "sub_id (the (nb_subs b2 t)) = the (map_of (rev made) t)" if "t \<in> set order" for t
    using that assms(3) st fun_cong [OF subs, of t, symmetric] by (auto simp: range_order_def dom_def)
  obtain es where es: "length es = length order" "trace (unsubscribe_all nl (nb_subs b2) order s2)
      = trace s2 @ map (\<lambda>(t, e). Call (NUnsubscribe (sub_id (the (nb_subs b2 t)))) e) (zip order es)"
    using unsubscribe_all_trace [of order "nb_subs b2" nl s2] assms(3) st by (auto simp: range_order_def)
  have "map (\<lambda>(t, e). Call (NUnsubscribe (sub_id (the (nb_subs b2 t)))) e) (zip order es)
      = map (\<lambda>(t, e). Call (NUnsubscribe (the (map_of (rev made) t))) e) (zip order es)"
    using sub_id by (auto dest: set_zip_leftD)
  moreover obtain e s' where "api_err (NCloseConn (nb_conn b2)) (nl_CloseConn nl (nb_conn b2))
      (unsubscribe_all nl (nb_subs b2) order s2) = (e, s')" by fastforce
  ultimately show ?thesis
    using es st conn dom assms(3) by (auto simp: NATS_Close_def Let_def range_order_def dest!: api_err_trace)
qed

text \<open>A library that numbers what it hands out\<close>

definition counting_nats :: "nat nats_lib" where
  "counting_nats = \<lparr>nl_Connect = (\<lambda>url opts n. (Inr n, Suc n)), nl_JetStream = (\<lambda>c n. (Inr n, Suc n)),
     nl_CloseConn = (\<lambda>c n. (None, n)), nl_Publish = (\<lambda>js t m n. (None, n)),
     nl_Subscribe = (\<lambda>js t n. (Inr n, Suc n)), nl_Unsubscribe = (\<lambda>i n. (None, n)),
     nl_Ack = (\<lambda>n. (None, n)), nl_Nak = (\<lambda>n. (None, n))\<rparr>"

definition demo_bus_config :: BusConfig where
  "demo_bus_config = \<lparr>bc_URLs = [''nats://bus''], bc_Username = [], bc_Password = []\<rparr>"

definition demo_io :: "nat nats_state" where
  "demo_io = \<lparr>world = 0, trace = [], ctx_next = 0, ctx_done = [], otlp_active = False\<rparr>"

lemma nats_close_unsubscribes_example:
  "\<exists>b s1 made st es e b' s'. NATS_New counting_nats demo_bus_config demo_io = (Inr (b :: unit NATSBus), s1)
    \<and> subscribe_run counting_nats [(0, ''a'', \<lambda>t d h. (None, h)), (0, ''a'', \<lambda>t d h. (None, h))] (b, s1) = (made, st)
    \<and> NATS_Close counting_nats [''a''] st = (None, (b', s'))
    \<and> trace s' = trace (snd st) @ [Call (NUnsubscribe 3) es, Call (NCloseConn (nb_conn b)) e]"
proof -
  let ?h = "\<lambda>t d h. (None, h :: unit)"
  obtain b s1 where new: "NATS_New counting_nats demo_bus_config demo_io = (Inr (b :: unit NATSBus), s1)"
    and b: "b = \<lparr>nb_conn = 0, nb_js = 1, nb_subs = Map.empty\<rparr>" and s1: "world s1 = 2"
    by (simp add: NATS_New_def counting_nats_def demo_bus_config_def demo_io_def api_def Let_def)
  obtain made st where run: "subscribe_run counting_nats [(0, ''a'', ?h), (0, ''a'', ?h)] (b, s1) = (made, st)"
    by (metis prod.collapse)
  then have made: "made = [(''a'', 2), (''a'', 3)]" and subs: "nb_subs (fst st) = [''a'' \<mapsto> \<lparr>sub_id = 3, sub_handler = ?h\<rparr>]"
    using s1 by (auto simp: NATS_Subscribe_def counting_nats_def api_def b Let_def)
  have "range_order [''a''] (nb_subs (fst st))" by (simp add: subs range_order_def)
  from nats_close_unsubscribes [OF new run this] made
  obtain es e b' s' where "NATS_Close counting_nats [''a''] st = (None, (b', s'))" "length es = 1"
    "trace s' = trace (snd st) @ map (\<lambda>(t, e). Call (NUnsubscribe (the (map_of (rev made) t))) e) (zip [''a''] es)
        @ [Call (NCloseConn (nb_conn b)) e]" by auto
  moreover from this made obtain x where "trace s' = trace (snd st) @ [Call (NUnsubscribe 3) x, Call (NCloseConn (nb_conn b)) e]"
    by (cases es) auto
  ultimately show ?thesis using new run by blast
qed

end
