(* ===== verification/Kafka.thy ===== *)
theory Kafka
  imports Message_Bus
begin

text \<open>
  \<open>core/messaging/kafka/kafka.go\<close>: the bus over Kafka. The client library is a parameter: the
  producer, the consumer and the partition consumers are the numbers it hands out; a partition
  consumer is kept with the handler its goroutine calls.

  \<open>Subscribe\<close> leaves a goroutine behind, which forwards messages and ends when its message
  channel is closed or its context is done, and removes the key of its topic from the tracked
  consumers as it ends. The step relation at the end interleaves these goroutines with the
  calls, at the points where the code takes its mutex.
\<close>

datatype kafka_call =
    KfNewProducer "string list" "(string \<times> string) option" | KfNewConsumer "string list" "(string \<times> string) option"
  | KfCloseProducer nat | KfCloseConsumer nat | KfSend nat string string
  | KfConsumePartition nat string nat | KfClosePartition nat

record 'w kafka_lib =
  kl_NewSyncProducer :: "string list \<Rightarrow> (string \<times> string) option \<Rightarrow> 'w \<Rightarrow> nat res \<times> 'w"
  kl_NewConsumer :: "string list \<Rightarrow> (string \<times> string) option \<Rightarrow> 'w \<Rightarrow> nat res \<times> 'w"
  kl_CloseProducer :: "nat \<Rightarrow> 'w \<Rightarrow> goerror option \<times> 'w"
  kl_CloseConsumer :: "nat \<Rightarrow> 'w \<Rightarrow> goerror option \<times> 'w"
  kl_SendMessage :: "nat \<Rightarrow> string \<Rightarrow> string \<Rightarrow> 'w \<Rightarrow> goerror option \<times> 'w"
  kl_ConsumePartition :: "nat \<Rightarrow> string \<Rightarrow> nat \<Rightarrow> 'w \<Rightarrow> nat res \<times> 'w"
  kl_ClosePartition :: "nat \<Rightarrow> 'w \<Rightarrow> goerror option \<times> 'w"

type_synonym 'w kafka_state = "('w, kafka_call) io_state"

record 'h PartitionConsumer =
  pc_id :: nat
  pc_handler :: "'h MsgHandler"

record 'h KafkaBus =
  kb_producer :: nat
  kb_consumer :: nat
  kb_brokers :: "string list"
  kb_subscriptions :: "string \<rightharpoonup> 'h PartitionConsumer"

section \<open>Operations\<close>

text \<open>The SASL settings of the configuration: user and password when a user is given\<close>

definition sasl :: "BusConfig \<Rightarrow> (string \<times> string) option" where
  "sasl cfg = (if bc_Username cfg \<noteq> [] then Some (bc_Username cfg, bc_Password cfg) else None)"

definition Kafka_New :: "'w kafka_lib \<Rightarrow> BusConfig \<Rightarrow> 'w kafka_state \<Rightarrow> 'h KafkaBus res \<times> 'w kafka_state" where
  "Kafka_New kl cfg s =
     (case api (KfNewProducer (bc_URLs cfg) (sasl cfg)) (kl_NewSyncProducer kl (bc_URLs cfg) (sasl cfg)) s of
        (Inl err, s1) \<Rightarrow> (Inl (Wrapped ''kafka producer: '' err), s1)
      | (Inr producer, s1) \<Rightarrow>
          (case api (KfNewConsumer (bc_URLs cfg) (sasl cfg)) (kl_NewConsumer kl (bc_URLs cfg) (sasl cfg)) s1 of
             (Inl err, s2) \<Rightarrow>
               (Inl (Wrapped ''kafka consumer: '' err),
                snd (api_err (KfCloseProducer producer) (kl_CloseProducer kl producer) s2))
           | (Inr consumer, s2) \<Rightarrow>
               (Inr \<lparr>kb_producer = producer, kb_consumer = consumer, kb_brokers = bc_URLs cfg,
                     kb_subscriptions = Map.empty\<rparr>, s2)))"

definition Kafka_Publish ::
    "'w kafka_lib \<Rightarrow> string \<Rightarrow> string \<Rightarrow> 'h KafkaBus \<times> 'w kafka_state
     \<Rightarrow> goerror option \<times> 'h KafkaBus \<times> 'w kafka_state" where
  "Kafka_Publish kl topic msg st =
     (let (b, s) = st;
          (err, s1) = api_err (KfSend (kb_producer b) topic msg) (kl_SendMessage kl (kb_producer b) topic msg) s
      in (err, (b, s1)))"

text \<open>\<open>fmt.Sprintf("%s-0", topic)\<close>\<close>

definition topic_key :: "string \<Rightarrow> string" where
  "topic_key topic = topic @ ''-0''"

definition track :: "string \<Rightarrow> 'p \<Rightarrow> (string \<rightharpoonup> 'p) \<Rightarrow> (string \<rightharpoonup> 'p)" where
  "track topic pc subs = subs(topic_key topic \<mapsto> pc)"

text \<open>The deferred delete of the goroutine\<close>

definition untrack :: "string \<Rightarrow> (string \<rightharpoonup> 'p) \<Rightarrow> (string \<rightharpoonup> 'p)" where
  "untrack topic subs = subs(topic_key topic := None)"

definition Kafka_Subscribe ::
    "'w kafka_lib \<Rightarrow> nat \<Rightarrow> string \<Rightarrow> 'h MsgHandler \<Rightarrow> 'h KafkaBus \<times> 'w kafka_state
     \<Rightarrow> goerror option \<times> 'h KafkaBus \<times> 'w kafka_state" where
  "Kafka_Subscribe kl ctx topic handler st =
     (let (b, s) = st in
      case api (KfConsumePartition (kb_consumer b) topic 0) (kl_ConsumePartition kl (kb_consumer b) topic 0) s of
        (Inl err, s1) \<Rightarrow> (Some (Wrapped ''kafka subscribe: '' err), (b, s1))
      | (Inr pc, s1) \<Rightarrow>
          (None, (b\<lparr>kb_subscriptions := track topic \<lparr>pc_id = pc, pc_handler = handler\<rparr> (kb_subscriptions b)\<rparr>, s1)))"

text \<open>
  The goroutine of a subscription on what its \<open>select\<close> receives: messages, the end of the
  message channel, the end of the context. It returns the state of the handler and whether it
  closed the partition consumer itself; \<open>None\<close> while it still waits. \<open>CtxDone\<close> is the branch of the
  \<open>select\<close>, not the moment the context ends: while messages are pending too, the runtime may take
  any number of them before it.
\<close>

datatype received = Msg string string | ChannelClosed | CtxDone

fun forward :: "'h MsgHandler \<Rightarrow> received list \<Rightarrow> 'h \<Rightarrow> 'h \<times> bool option" where
  "forward handler [] hs = (hs, None)"
| "forward handler (Msg topic v # rs) hs = forward handler rs (snd (handler topic v hs))"
| "forward handler (ChannelClosed # rs) hs = (hs, Some False)"
| "forward handler (CtxDone # rs) hs = (hs, Some True)"

text \<open>The loop of \<open>Close\<close> over the tracked consumers, collecting the errors\<close>

fun close_partitions ::
    "'w kafka_lib \<Rightarrow> (string \<rightharpoonup> 'h PartitionConsumer) \<Rightarrow> string list \<Rightarrow> 'w kafka_state
     \<Rightarrow> goerror list \<times> 'w kafka_state" where
  "close_partitions kl subs [] s = ([], s)"
| "close_partitions kl subs (k # ks) s =
     (case subs k of
        None \<Rightarrow> close_partitions kl subs ks s
      | Some pc \<Rightarrow>
          (let (err, s1) = api_err (KfClosePartition (pc_id pc)) (kl_ClosePartition kl (pc_id pc)) s;
               (errs, s2) = close_partitions kl subs ks s1
           in (case err of Some e \<Rightarrow> e # errs | None \<Rightarrow> errs, s2)))"

text \<open>\<open>fmt.Errorf("kafka close: %v", errs)\<close>\<close>

definition close_error :: "goerror list \<Rightarrow> goerror option" where
  "close_error errs =
     (if errs \<noteq> [] then Some (Errorf (''kafka close: ['' @ Join (map err_text errs) '' '' @ '']'')) else None)"

definition Kafka_Close ::
    "'w kafka_lib \<Rightarrow> string list \<Rightarrow> 'h KafkaBus \<times> 'w kafka_state \<Rightarrow> goerror option \<times> 'h KafkaBus \<times> 'w kafka_state" where
  "Kafka_Close kl order st =
     (let (b, s) = st;
          (errs, s1) = close_partitions kl (kb_subscriptions b) order s;
          b1 = b\<lparr>kb_subscriptions := Map.empty\<rparr>;
          (e1, s2) = api_err (KfCloseProducer (kb_producer b)) (kl_CloseProducer kl (kb_producer b)) s1;
          (e2, s3) = api_err (KfCloseConsumer (kb_consumer b)) (kl_CloseConsumer kl (kb_consumer b)) s2
      in (close_error (errs @ (case e1 of Some e \<Rightarrow> [e] | None \<Rightarrow> []) @ (case e2 of Some e \<Rightarrow> [e] | None \<Rightarrow> [])),
          (b1, s3)))"

definition Kafka_bus :: "'w kafka_lib \<Rightarrow> string list \<Rightarrow> ('h, 'h KafkaBus \<times> 'w kafka_state) MessageBus" where
  "Kafka_bus kl order =
     \<lparr>bus_Publish = Kafka_Publish kl, bus_Subscribe = Kafka_Subscribe kl, bus_Close = Kafka_Close kl order\<rparr>"

section \<open>The bus keeps the contract\<close>

definition kafka_handlers :: "'h KafkaBus \<times> 'w kafka_state \<Rightarrow> string \<rightharpoonup> 'h MsgHandler" where
  "kafka_handlers st = (\<lambda>t. map_option pc_handler (kb_subscriptions (fst st) (topic_key t)))"

lemma topic_key_inject [simp]: "topic_key t = topic_key u \<longleftrightarrow> t = u"
  by (simp add: topic_key_def)

interpretation kafka: message_bus "Kafka_bus kl order" kafka_handlers
  for kl :: "'w kafka_lib" and order :: "string list"
  by unfold_locales
     (auto simp: Kafka_bus_def Kafka_Subscribe_def Kafka_Publish_def Kafka_Close_def kafka_handlers_def track_def
       fun_eq_iff Let_def split: prod.splits sum.splits)

section \<open>Goroutines and calls interleaved\<close>

text \<open>
  A subscription between \<open>ConsumePartition\<close> and the lock, reading, and between its last step
  and the deferred delete. \<open>ks_topic\<close> records the topic of every consumer ever opened and
  \<open>ks_closed\<close> the consumers closed.
\<close>

datatype subscription = Opened string | Reading string | Ending string

record kafka_sys =
  ks_subs :: "string \<rightharpoonup> nat"
  ks_procs :: "nat \<rightharpoonup> subscription"
  ks_topic :: "nat \<rightharpoonup> string"
  ks_closed :: "nat set"

definition kafka_init :: kafka_sys where
  "kafka_init = \<lparr>ks_subs = Map.empty, ks_procs = Map.empty, ks_topic = Map.empty, ks_closed = {}\<rparr>"

text \<open>\<open>Close\<close> under its lock: every tracked consumer is closed, none is tracked any more\<close>

definition close_tracked :: "kafka_sys \<Rightarrow> kafka_sys" where
  "close_tracked s = s\<lparr>ks_subs := Map.empty, ks_closed := ks_closed s \<union> ran (ks_subs s)\<rparr>"

inductive kafka_step :: "kafka_sys \<Rightarrow> kafka_sys \<Rightarrow> bool" where
  opened: "ks_topic s n = None \<Longrightarrow>
    kafka_step s (s\<lparr>ks_topic := (ks_topic s)(n \<mapsto> t), ks_procs := (ks_procs s)(n \<mapsto> Opened t)\<rparr>)"
| tracked: "ks_procs s n = Some (Opened t) \<Longrightarrow>
    kafka_step s (s\<lparr>ks_subs := track t n (ks_subs s), ks_procs := (ks_procs s)(n \<mapsto> Reading t)\<rparr>)"
| channel_closed: "ks_procs s n = Some (Reading t) \<Longrightarrow> n \<in> ks_closed s \<Longrightarrow>
    kafka_step s (s\<lparr>ks_procs := (ks_procs s)(n \<mapsto> Ending t)\<rparr>)"
| ctx_done: "ks_procs s n = Some (Reading t) \<Longrightarrow>
    kafka_step s (s\<lparr>ks_closed := insert n (ks_closed s), ks_procs := (ks_procs s)(n \<mapsto> Ending t)\<rparr>)"
| untracked: "ks_procs s n = Some (Ending t) \<Longrightarrow>
    kafka_step s (s\<lparr>ks_subs := untrack t (ks_subs s), ks_procs := (ks_procs s)(n := None)\<rparr>)"
| closed: "kafka_step s (close_tracked s)"

inductive kafka_reach :: "kafka_sys \<Rightarrow> bool" where
  reach_init: "kafka_reach kafka_init"
| reach_step: "kafka_reach s \<Longrightarrow> kafka_step s s' \<Longrightarrow> kafka_reach s'"

inductive_cases kafka_stepE: "kafka_step s s'"

text \<open>Bookkeeping: a goroutine knows its topic, a tracked consumer is tracked under its topic\<close>

definition kafka_inv :: "kafka_sys \<Rightarrow> bool" where
  "kafka_inv s \<longleftrightarrow>
     (\<forall>n p. ks_procs s n = Some p \<longrightarrow> ks_topic s n = Some (case p of Opened t \<Rightarrow> t | Reading t \<Rightarrow> t | Ending t \<Rightarrow> t))
   \<and> (\<forall>n t. ks_procs s n = Some (Ending t) \<longrightarrow> n \<in> ks_closed s)
   \<and> (\<forall>k n. ks_subs s k = Some n \<longrightarrow> (\<exists>t. k = topic_key t \<and> ks_topic s n = Some t))"

text \<open>No topic was subscribed twice\<close>

definition one_per_topic :: "kafka_sys \<Rightarrow> bool" where
  "one_per_topic s \<longleftrightarrow> (\<forall>m n t. ks_topic s m = Some t \<and> ks_topic s n = Some t \<longrightarrow> m = n)"

definition open_is_tracked :: "kafka_sys \<Rightarrow> bool" where
  "open_is_tracked s \<longleftrightarrow>
     (\<forall>n t. ks_topic s n = Some t \<and> n \<notin> ks_closed s \<longrightarrow>
        ks_procs s n = Some (Opened t)
        \<or> ks_procs s n = Some (Reading t) \<and> ks_subs s (topic_key t) = Some n)"

lemma kafka_inv_reach: "kafka_reach s \<Longrightarrow> kafka_inv s"
proof (induction rule: kafka_reach.induct)
  case reach_init
  then show ?case by (simp add: kafka_inv_def kafka_init_def)
next
  case (reach_step s s')
  from reach_step.hyps(2) show ?case
  proof (cases rule: kafka_step.cases)
    case (opened n t)
    then have "ks_subs s k \<noteq> Some n" for k using reach_step.IH by (force simp: kafka_inv_def)
    with opened reach_step.IH show ?thesis by (auto simp: kafka_inv_def)
  qed (use reach_step.IH in \<open>auto simp: kafka_inv_def track_def untrack_def close_tracked_def split: if_splits\<close>)
qed

lemma topic_kept: "kafka_step s s' \<Longrightarrow> ks_topic s n = Some t \<Longrightarrow> ks_topic s' n = Some t"
  by (erule kafka_stepE) (auto simp: close_tracked_def)

lemma one_per_topic_back: "kafka_step s s' \<Longrightarrow> one_per_topic s' \<Longrightarrow> one_per_topic s"
  unfolding one_per_topic_def using topic_kept by blast

lemma open_is_tracked_step:
  assumes "kafka_step s s'" and inv: "kafka_inv s" and one: "one_per_topic s'" and ok: "open_is_tracked s"
  shows "open_is_tracked s'"
  using assms(1)
proof (cases rule: kafka_step.cases)
  case (opened n t)
  then show ?thesis using ok inv by (auto simp: open_is_tracked_def)
next
  case (tracked n t)
  then show ?thesis using ok inv one
    by (auto simp: open_is_tracked_def kafka_inv_def one_per_topic_def track_def split: if_splits)
next
  case (untracked n t)
  then show ?thesis using ok inv one
    by (auto simp: open_is_tracked_def kafka_inv_def one_per_topic_def untrack_def split: if_splits) 
next
  case closed
  then show ?thesis using ok by (auto simp: open_is_tracked_def close_tracked_def ran_def)
qed (use ok in \<open>auto simp: open_is_tracked_def\<close>)

text \<open>
  C34. When no topic is subscribed twice, closing a Kafka bus closes every partition consumer
  that was opened, save those of a Subscribe still before its lock: but for these, no interleaving of the
  goroutines with the calls leaks a consumer.
\<close>

theorem kafka_close_closes_all:
  assumes "kafka_reach s" and "one_per_topic s" and "ks_topic s n = Some t"
  shows "n \<in> ks_closed (close_tracked s) \<or> ks_procs s n = Some (Opened t)"
proof -
  have "one_per_topic s \<Longrightarrow> open_is_tracked s"
    using assms(1)
  proof (induction rule: kafka_reach.induct)
    case reach_init
    then show ?case by (simp add: open_is_tracked_def kafka_init_def)
  next
    case (reach_step s s')
    then show ?case
      using open_is_tracked_step kafka_inv_reach one_per_topic_back by blast
  qed
  with assms show ?thesis by (fastforce simp: open_is_tracked_def close_tracked_def ran_def)
qed

lemma one_subscription:
  "kafka_reach \<lparr>ks_subs = [topic_key t \<mapsto> 0], ks_procs = [0 \<mapsto> Reading t], ks_topic = [0 \<mapsto> t], ks_closed = {}\<rparr>"
proof -
  have 1: "kafka_step kafka_init (kafka_init\<lparr>ks_topic := (ks_topic kafka_init)(0 \<mapsto> t),
      ks_procs := (ks_procs kafka_init)(0 \<mapsto> Opened t)\<rparr>)" (is "kafka_step _ ?s1")
    by (rule opened) (simp add: kafka_init_def)
  have 2: "kafka_step ?s1 (?s1\<lparr>ks_subs := track t 0 (ks_subs ?s1), ks_procs := (ks_procs ?s1)(0 \<mapsto> Reading t)\<rparr>)"
    by (rule tracked) simp
  show ?thesis
    using reach_step [OF reach_step [OF reach_init 1] 2] by (simp add: kafka_init_def track_def)
qed

text \<open>
  When a topic is subscribed twice, a consumer can be missed: the tracked entry of the topic
  is the newer one, and it is removed by the end of the older subscription's goroutine, whose
  context is done. Closing the bus then leaves the newer consumer open and reading.
\<close>

lemma kafka_close_can_miss:
  "\<exists>s. kafka_reach s \<and> ks_procs (close_tracked s) 1 = Some (Reading t) \<and> ks_topic s 1 = Some t
     \<and> 1 \<notin> ks_closed (close_tracked s)"
proof -
  let ?s0 = "\<lparr>ks_subs = [topic_key t \<mapsto> 0], ks_procs = [0 \<mapsto> Reading t], ks_topic = [0 \<mapsto> t], ks_closed = {}\<rparr>"
  let ?s1 = "?s0\<lparr>ks_topic := (ks_topic ?s0)(1 \<mapsto> t), ks_procs := (ks_procs ?s0)(1 \<mapsto> Opened t)\<rparr>"
  let ?s2 = "?s1\<lparr>ks_subs := track t 1 (ks_subs ?s1), ks_procs := (ks_procs ?s1)(1 \<mapsto> Reading t)\<rparr>"
  let ?s3 = "?s2\<lparr>ks_closed := insert 0 (ks_closed ?s2), ks_procs := (ks_procs ?s2)(0 \<mapsto> Ending t)\<rparr>"
  let ?s4 = "?s3\<lparr>ks_subs := untrack t (ks_subs ?s3), ks_procs := (ks_procs ?s3)(0 := None)\<rparr>"
  have 1: "kafka_reach ?s1" by (rule reach_step [OF one_subscription]) (rule opened, simp)
  have 2: "kafka_reach ?s2" by (rule reach_step [OF 1]) (rule tracked, simp)
  have 3: "kafka_reach ?s3" by (rule reach_step [OF 2]) (rule ctx_done, simp)
  have 4: "kafka_reach ?s4" by (rule reach_step [OF 3]) (rule untracked, simp)
  have subs: "ks_subs ?s4 = Map.empty" by (simp add: track_def untrack_def)
  have "ks_procs (close_tracked ?s4) 1 = Some (Reading t) \<and> ks_topic ?s4 1 = Some t
      \<and> 1 \<notin> ks_closed (close_tracked ?s4)"
    unfolding close_tracked_def subs by simp
  with 4 show ?thesis by blast
qed

theorem kafka_close_closes_all_witness:
  "0 \<in> ks_closed (close_tracked \<lparr>ks_subs = [topic_key ''jobs'' \<mapsto> 0], ks_procs = [0 \<mapsto> Reading ''jobs''],
     ks_topic = [0 \<mapsto> ''jobs''], ks_closed = {}\<rparr>)"
proof -
  let ?s = "\<lparr>ks_subs = [topic_key ''jobs'' \<mapsto> 0], ks_procs = [0 \<mapsto> Reading ''jobs''],
     ks_topic = [0 \<mapsto> ''jobs''], ks_closed = {}\<rparr>"
  have "one_per_topic ?s" by (simp add: one_per_topic_def)
  then have "0 \<in> ks_closed (close_tracked ?s) \<or> ks_procs ?s 0 = Some (Opened ''jobs'')"
    by (rule kafka_close_closes_all [OF one_subscription]) simp
  then show ?thesis by simp
qed

text \<open>
  The sequential operations are steps of this relation: a successful Subscribe is an opening
  followed by a tracking, Close is the closing step, on the identifiers of the consumers.
\<close>

definition bus_ids :: "'h KafkaBus \<Rightarrow> string \<rightharpoonup> nat" where
  "bus_ids b = (\<lambda>k. map_option pc_id (kb_subscriptions b k))"

lemma Kafka_Subscribe_steps:
  assumes "Kafka_Subscribe kl ctx t h (b, io) = (None, (b', io'))" and "ks_subs s = bus_ids b"
    and fresh: "\<And>w n w'. kl_ConsumePartition kl (kb_consumer b) t 0 w = (Inr n, w') \<Longrightarrow> ks_topic s n = None"
  shows "\<exists>s'. kafka_step\<^sup>*\<^sup>* s s' \<and> ks_subs s' = bus_ids b'"
proof -
  obtain n w' where pc: "kl_ConsumePartition kl (kb_consumer b) t 0 (world io) = (Inr n, w')"
    and b': "b' = b\<lparr>kb_subscriptions := track t \<lparr>pc_id = n, pc_handler = h\<rparr> (kb_subscriptions b)\<rparr>"
    using assms(1) by (auto simp: Kafka_Subscribe_def api_def split: prod.splits sum.splits)
  let ?s1 = "s\<lparr>ks_topic := (ks_topic s)(n \<mapsto> t), ks_procs := (ks_procs s)(n \<mapsto> Opened t)\<rparr>"
  let ?s2 = "?s1\<lparr>ks_subs := track t n (ks_subs ?s1), ks_procs := (ks_procs ?s1)(n \<mapsto> Reading t)\<rparr>"
  have "kafka_step s ?s1" by (rule opened) (rule fresh [OF pc])
  moreover have "kafka_step ?s1 ?s2" by (rule tracked) simp
  ultimately have "kafka_step\<^sup>*\<^sup>* s ?s2" by (meson rtranclp.rtrancl_into_rtrancl rtranclp.rtrancl_refl)
  moreover have "ks_subs ?s2 = bus_ids b'" using assms(2) b' by (auto simp: bus_ids_def track_def fun_eq_iff)
  ultimately show ?thesis by blast
qed

lemma Kafka_Close_step:
  assumes "Kafka_Close kl order (b, io) = (r, (b', io'))" and "ks_subs s = bus_ids b"
  shows "kafka_step s (close_tracked s) \<and> ks_subs (close_tracked s) = bus_ids b'"
proof
  show "kafka_step s (close_tracked s)" by (rule closed)
  have "kb_subscriptions b' = Map.empty" using assms(1) by (auto simp: Kafka_Close_def Let_def split: prod.splits)
  then show "ks_subs (close_tracked s) = bus_ids b'" by (simp add: close_tracked_def bus_ids_def)
qed

end
