(* ===== verification/Bus_Delivery.thy ===== *)
theory Bus_Delivery
  imports NATS Kafka
begin

text \<open>
  From the event watcher to the handler of a tenant, over both buses: what the handler has been
  given once the messages of its topic have been delivered, and what the bus is told of the
  handler's errors.
\<close>

section \<open>What the handler sees\<close>

text \<open>The state of a handler after the messages, in order, whatever it returned for each\<close>

definition handle_all :: "'h MsgHandler \<Rightarrow> (string \<times> string) list \<Rightarrow> 'h \<Rightarrow> 'h" where
  "handle_all handler ms hs = fold (\<lambda>(topic, data) hs. snd (handler topic data hs)) ms hs"

text \<open>The errors it returned, message by message\<close>

fun handler_errors :: "'h MsgHandler \<Rightarrow> (string \<times> string) list \<Rightarrow> 'h \<Rightarrow> goerror option list" where
  "handler_errors handler [] hs = []"
| "handler_errors handler ((topic, data) # ms) hs =
     (let (e, hs') = handler topic data hs in e # handler_errors handler ms hs')"

lemma handle_all_simps [simp]:
  "handle_all handler [] hs = hs"
  "handle_all handler ((topic, data) # ms) hs = handle_all handler ms (snd (handler topic data hs))"
  by (simp_all add: handle_all_def)

section \<open>NATS\<close>

text \<open>The library calls the callback of a subscription for one message after the other.\<close>

definition nats_run :: "'w nats_lib \<Rightarrow> 'h MsgHandler \<Rightarrow> (string \<times> string) list \<Rightarrow> 'h \<times> 'w nats_state \<Rightarrow> 'h \<times> 'w nats_state" where
  "nats_run nl handler ms st = fold (\<lambda>(subject, data). nats_deliver nl handler subject data) ms st"

text \<open>The request that answers a delivery\<close>

definition answer :: "goerror option \<Rightarrow> nats_call" where
  "answer e = (if e = None then NAck else NNak)"

lemma nats_deliver_run:
  assumes "handler subject data hs = (e, hs')"
  obtains s' r where "nats_deliver nl handler subject data (hs, s) = (hs', s')"
    and "trace s' = trace s @ [Call (answer e) r]"
proof (cases e)
  case None
  obtain r s' where run: "api_err NAck (nl_Ack nl) s = (r, s')" by fastforce
  show ?thesis using that [of s' r] api_err_trace [OF run] by (simp add: nats_deliver_def assms None run answer_def)
next
  case (Some err)
  obtain r s' where run: "api_err NNak (nl_Nak nl) s = (r, s')" by fastforce
  show ?thesis using that [of s' r] api_err_trace [OF run] by (simp add: nats_deliver_def assms Some run answer_def)
qed

lemma nats_run_all:
  "\<exists>rs s'. nats_run nl handler ms (hs, s) = (handle_all handler ms hs, s')
     \<and> length rs = length ms
     \<and> trace s' = trace s @ map2 (\<lambda>e r. Call (answer e) r) (handler_errors handler ms hs) rs"
proof (induction ms arbitrary: hs s)
  case Nil
  then show ?case by (simp add: nats_run_def)
next
  case (Cons m ms)
  obtain subject data where m: "m = (subject, data)" by (cases m)
  obtain e hs' where h: "handler subject data hs = (e, hs')" by fastforce
  obtain s1 r where 1: "nats_deliver nl handler subject data (hs, s) = (hs', s1)"
    "trace s1 = trace s @ [Call (answer e) r]" by (rule nats_deliver_run [where handler = handler and subject = subject and data = data, OF h])
  obtain rs s' where "nats_run nl handler ms (hs', s1) = (handle_all handler ms hs', s')" "length rs = length ms"
    "trace s' = trace s1 @ map2 (\<lambda>e r. Call (answer e) r) (handler_errors handler ms hs') rs"
    using Cons.IH by blast
  with 1 m h show ?case by (intro exI [of _ "r # rs"] exI [of _ s']) (simp add: nats_run_def)
qed

section \<open>Kafka\<close>

text \<open>The goroutine of a subscription reads its messages and drops what the handler returns.\<close>

lemma forward_all:
  "forward handler (map (\<lambda>(topic, v). Msg topic v) ms @ rest) hs = forward handler rest (handle_all handler ms hs)"
  by (induction ms arbitrary: hs) auto

text \<open>
  C33. A watcher of a tenant's events that has started passes to its handler every delivery the
  bus makes, one call for each, in the order of the deliveries and with the tenant's identifier, over
  either bus. On NATS each delivery is acknowledged when the handler accepted it and refused
  when it returned an error, upon which the server delivers the message again: a message may be
  handled many times. On Kafka the errors are dropped and nothing is requested again, and what is
  delivered is what partition 0 receives after the subscription: a message that failed, or was
  sent before, is not handled at all. Once the \<open>select\<close> of a Kafka watcher takes the branch of the
  finished context, which with messages pending need not be at once, it handles no further
  message and closes its consumer.
\<close>

theorem watcher_delivers:
  assumes "Start (NewEventWatcher (NATS_bus nl order) topic tenant h) c (nb, ns) = (None, nst)"
    and "Start (NewEventWatcher (Kafka_bus kl order') topic tenant h) c (kb, ks) = (None, kst)"
  shows "\<exists>sub pc. nb_subs (fst nst) topic = Some sub \<and> kb_subscriptions (fst kst) (topic_key topic) = Some pc
    \<and> (\<forall>ms hs s. \<exists>rs s'. nats_run nl (sub_handler sub) ms (hs, s) = (handle_all (h tenant) ms hs, s')
          \<and> length rs = length ms
          \<and> trace s' = trace s @ map2 (\<lambda>e r. Call (answer e) r) (handler_errors (h tenant) ms hs) rs)
    \<and> (\<forall>ms hs. forward (pc_handler pc) (map (\<lambda>(topic, v). Msg topic v) ms) hs = (handle_all (h tenant) ms hs, None))
    \<and> (\<forall>ms rest hs. forward (pc_handler pc) (map (\<lambda>(topic, v). Msg topic v) ms @ CtxDone # rest) hs
          = (handle_all (h tenant) ms hs, Some True))"
proof -
  obtain sub where "nb_subs (fst nst) topic = Some sub" "sub_handler sub = h tenant"
    using nats.watcher_started [OF assms(1)] by (auto simp: nats_handlers_def)
  moreover obtain pc where "kb_subscriptions (fst kst) (topic_key topic) = Some pc" "pc_handler pc = h tenant"
    using kafka.watcher_started [OF assms(2)] by (auto simp: kafka_handlers_def)
  moreover have "forward (h tenant) (map (\<lambda>(topic, v). Msg topic v) ms) hs = (handle_all (h tenant) ms hs, None)" for ms hs
    using forward_all [of "h tenant" ms "[]" hs] by simp
  moreover have "forward (h tenant) (map (\<lambda>(topic, v). Msg topic v) ms @ CtxDone # rest) hs
      = (handle_all (h tenant) ms hs, Some True)" for ms rest hs
    by (simp add: forward_all)
  ultimately show ?thesis using nats_run_all [of nl "h tenant"] by auto
qed

text \<open>On NATS the context makes no difference: a subscription outlives it.\<close>

lemma nats_ignores_context: "NATS_Subscribe nl c topic handler = NATS_Subscribe nl c' topic handler"
  by (simp add: NATS_Subscribe_def [abs_def])

text \<open>A handler that keeps what it is given and rejects empty messages\<close>

definition recorder :: "string \<Rightarrow> (string \<times> string \<times> string) list MsgHandler" where
  "recorder tenant topic data seen =
     (if data = [] then Some (Errorf ''empty'') else None, seen @ [(tenant, topic, data)])"

definition counting_kafka :: "nat kafka_lib" where
  "counting_kafka = \<lparr>kl_NewSyncProducer = (\<lambda>u sasl n. (Inr n, Suc n)), kl_NewConsumer = (\<lambda>u sasl n. (Inr n, Suc n)),
     kl_CloseProducer = (\<lambda>p n. (None, n)), kl_CloseConsumer = (\<lambda>p n. (None, n)),
     kl_SendMessage = (\<lambda>p t m n. (None, n)), kl_ConsumePartition = (\<lambda>c t off n. (Inr n, Suc n)),
     kl_ClosePartition = (\<lambda>p n. (None, n))\<rparr>"

theorem watcher_delivers_witness:
  "\<exists>sub (nst :: (string \<times> string \<times> string) list NATSBus \<times> nat nats_state). nb_subs (fst nst) ''t'' = Some sub
    \<and> (\<exists>r r' s'. nats_run counting_nats (sub_handler sub) [(''t'', ''x''), (''t'', [])] ([], demo_io)
          = ([(''acme'', ''t'', ''x''), (''acme'', ''t'', [])], s')
        \<and> trace s' = [Call NAck r, Call NNak r'])"
proof -
  let ?nb = "\<lparr>nb_conn = 0, nb_js = 1, nb_subs = Map.empty\<rparr> :: (string \<times> string \<times> string) list NATSBus"
  let ?kb = "\<lparr>kb_producer = 0, kb_consumer = 1, kb_brokers = [], kb_subscriptions = Map.empty\<rparr> :: (string \<times> string \<times> string) list KafkaBus"
  let ?ks = "\<lparr>world = 2, trace = [], ctx_next = 0, ctx_done = [], otlp_active = False\<rparr> :: nat kafka_state"
  obtain nst where n: "Start (NewEventWatcher (NATS_bus counting_nats []) ''t'' ''acme'' recorder) 0 (?nb, demo_io) = (None, nst)"
    by (simp add: Start_def NewEventWatcher_def NATS_bus_def NATS_Subscribe_def counting_nats_def api_def demo_io_def)
  obtain kst where k: "Start (NewEventWatcher (Kafka_bus counting_kafka []) ''t'' ''acme'' recorder) 0 (?kb, ?ks) = (None, kst)"
    by (simp add: Start_def NewEventWatcher_def Kafka_bus_def Kafka_Subscribe_def counting_kafka_def api_def)
  obtain sub where sub: "nb_subs (fst nst) ''t'' = Some sub"
    and all: "\<forall>ms hs s. \<exists>rs s'. nats_run counting_nats (sub_handler sub) ms (hs, s) = (handle_all (recorder ''acme'') ms hs, s')
          \<and> length rs = length ms
          \<and> trace s' = trace s @ map2 (\<lambda>e r. Call (answer e) r) (handler_errors (recorder ''acme'') ms hs) rs"
    using watcher_delivers [OF n k] by blast
  from all [rule_format, of "[(''t'', ''x''), (''t'', [])]" "[]" demo_io]
  obtain rs s' where run: "nats_run counting_nats (sub_handler sub) [(''t'', ''x''), (''t'', [])] ([], demo_io)
      = ([(''acme'', ''t'', ''x''), (''acme'', ''t'', [])], s')" "length rs = 2"
    "trace s' = map2 (\<lambda>e r. Call (answer e) r) [None, Some (Errorf ''empty'')] rs"
    by (simp add: recorder_def demo_io_def numeral_2_eq_2) blast
  obtain r r' where "rs = [r, r']" using run(2) by (auto simp: length_Suc_conv numeral_2_eq_2)
  with run(3) have "trace s' = [Call NAck r, Call NNak r']" by (simp add: answer_def)
  with sub run(1) show ?thesis by blast
qed

end
