(* ===== verification/Bus_Registry.thy ===== *)
theory Bus_Registry
  imports Bus_Delivery
begin

text \<open>
  The registry of \<open>core/messaging/registry.go\<close> with both buses in it, as the \<open>init\<close> functions of
  \<open>nats.go\<close> and \<open>kafka.go\<close> leave it, and the life of a bus: made by its type, used, closed. What is
  opened on the way is closed again.
\<close>

section \<open>Both buses registered\<close>

text \<open>A \<open>messaging.MessageBus\<close> of the registry; its state is the bus with the client library's.\<close>

datatype 'h any_bus = BusNATS "'h NATSBus" | BusKafka "'h KafkaBus"

type_synonym ('a, 'b) bus_services = "'a nats_state \<times> 'b kafka_state"

definition nats_register ::
    "'a nats_lib \<Rightarrow> ('h any_bus, ('a, 'b) bus_services) constructors \<Rightarrow> ('h any_bus, ('a, 'b) bus_services) constructors" where
  "nats_register nl = Register BusTypeNATS
     (\<lambda>cfg (ns, ks). let (r, ns') = NATS_New nl cfg ns in (map_sum id BusNATS r, (ns', ks)))"

definition kafka_register ::
    "'b kafka_lib \<Rightarrow> ('h any_bus, ('a, 'b) bus_services) constructors \<Rightarrow> ('h any_bus, ('a, 'b) bus_services) constructors" where
  "kafka_register kl = Register BusTypeKafka
     (\<lambda>cfg (ns, ks). let (r, ks') = Kafka_New kl cfg ks in (map_sum id BusKafka r, (ns, ks')))"

text \<open>The imports of a program decide which \<open>init\<close> runs first.\<close>

definition registries :: "'a nats_lib \<Rightarrow> 'b kafka_lib \<Rightarrow> ('h any_bus, ('a, 'b) bus_services) constructors set" where
  "registries nl kl = {nats_register nl (kafka_register kl Map.empty), kafka_register kl (nats_register nl Map.empty)}"

lemma bus_types_differ [simp]: "BusTypeNATS \<noteq> BusTypeKafka" "BusTypeKafka \<noteq> BusTypeNATS"
  by (simp_all add: BusTypeNATS_def BusTypeKafka_def)

lemma NewBus_nats:
  assumes "cs \<in> registries nl kl"
  shows "NewBus order cs BusTypeNATS cfg (ns, ks)
    = (let (r, ns') = NATS_New nl cfg ns in (map_sum id BusNATS r, (ns', ks)))"
  using assms by (auto simp: registries_def nats_register_def kafka_register_def Register_def NewBus_def)

lemma NewBus_kafka:
  assumes "cs \<in> registries nl kl"
  shows "NewBus order cs BusTypeKafka cfg (ns, ks)
    = (let (r, ks') = Kafka_New kl cfg ks in (map_sum id BusKafka r, (ns, ks')))"
  using assms by (auto simp: registries_def nats_register_def kafka_register_def Register_def NewBus_def)

lemma NewBus_unknown:
  assumes "cs \<in> registries nl kl" and "t \<noteq> BusTypeNATS" and "t \<noteq> BusTypeKafka"
  shows "\<exists>e. NewBus order cs t cfg st = (Inl e, st)"
  using assms by (auto simp: registries_def nats_register_def kafka_register_def Register_def NewBus_def)

section \<open>What a bus owns\<close>

datatype 'h bus_op = Publishing string string | Subscribing nat string "'h MsgHandler"

text \<open>Publications and subscriptions, one after the other, whatever they return\<close>

fun use_bus :: "('h, 's) MessageBus \<Rightarrow> 'h bus_op list \<Rightarrow> 's \<Rightarrow> 's" where
  "use_bus B [] s = s"
| "use_bus B (Publishing t m # ops) s = use_bus B ops (snd (bus_Publish B t m s))"
| "use_bus B (Subscribing c t h # ops) s = use_bus B ops (snd (bus_Subscribe B c t h s))"

text \<open>
  A bus that holds connections: \<open>own\<close> are the calls that release them, \<open>requests\<close> the calls made so
  far, \<open>held\<close> the number of connections opened by them and not released. Using the bus changes neither,
  closing it ends with the release of all it owns.
\<close>

locale connected_bus = message_bus B handlers
  for B :: "('h, 's) MessageBus" and handlers :: "'s \<Rightarrow> string \<rightharpoonup> 'h MsgHandler" +
  fixes own :: "'s \<Rightarrow> 'c list" and requests :: "'s \<Rightarrow> ('c \<times> goerror option) list" and held :: "'s \<Rightarrow> int"
  assumes publish_held: "bus_Publish B t m s = (r, s') \<Longrightarrow> own s' = own s \<and> held s' = held s"
    and subscribe_held: "bus_Subscribe B c t h s = (r, s') \<Longrightarrow> own s' = own s \<and> held s' = held s"
    and close_held: "bus_Close B s = (r, s') \<Longrightarrow> held s' = held s - int (length (own s))
      \<and> (\<exists>cs es. requests s' = requests s @ cs @ zip (own s) es \<and> length es = length (own s))"
begin

lemma use_held: "own (use_bus B ops s) = own s \<and> held (use_bus B ops s) = held s"
proof (induction ops arbitrary: s)
  case (Cons x ops)
  show ?case
  proof (cases x)
    case (Publishing t m)
    with Cons.IH publish_held [of t m s] show ?thesis by (simp add: prod_eq_iff)
  next
    case (Subscribing c t h)
    with Cons.IH subscribe_held [of c t h s] show ?thesis by (simp add: prod_eq_iff)
  qed
qed simp

text \<open>A bus that is used and then closed has released what it owned, and nothing more.\<close>

lemma used_and_closed:
  assumes "bus_Close B (use_bus B ops s) = (r, s')"
  shows "held s' = held s - int (length (own s))"
    and "\<exists>cs es. requests s' = cs @ zip (own s) es \<and> length es = length (own s)"
  using close_held [OF assms] use_held by (simp, metis append_assoc use_held)

end

section \<open>The connections of the two buses\<close>

fun nats_weight :: "nats_call effect \<Rightarrow> int" where
  "nats_weight (Call (NConnect _ _) None) = 1"
| "nats_weight (Call (NCloseConn _) _) = - 1"
| "nats_weight _ = 0"

definition nats_held :: "'w nats_state \<Rightarrow> int" where
  "nats_held s = (\<Sum>e\<leftarrow>trace s. nats_weight e)"

fun kafka_weight :: "kafka_call effect \<Rightarrow> int" where
  "kafka_weight (Call (KfNewProducer _ _) None) = 1"
| "kafka_weight (Call (KfNewConsumer _ _) None) = 1"
| "kafka_weight (Call (KfCloseProducer _) _) = - 1"
| "kafka_weight (Call (KfCloseConsumer _) _) = - 1"
| "kafka_weight _ = 0"

definition kafka_held :: "'w kafka_state \<Rightarrow> int" where
  "kafka_held s = (\<Sum>e\<leftarrow>trace s. kafka_weight e)"

lemma nats_held_call [simp]: "nats_held (emit e s) = nats_held s + nats_weight e"
  by (simp add: nats_held_def)

lemma kafka_held_call [simp]: "kafka_held (emit e s) = kafka_held s + kafka_weight e"
  by (simp add: kafka_held_def)

lemma nats_api:
  "api c f s = (r, s') \<Longrightarrow> nats_held s' = nats_held s + nats_weight (Call c (err_of r)) \<and> calls (trace s') = calls (trace s) @ [(c, err_of r)]"
  by (simp add: api_trace nats_held_def)

lemma nats_api_err:
  "api_err c f s = (r, s') \<Longrightarrow> nats_held s' = nats_held s + nats_weight (Call c r) \<and> calls (trace s') = calls (trace s) @ [(c, r)]"
  by (simp add: api_err_trace nats_held_def)

lemma kafka_api:
  "api c f s = (r, s') \<Longrightarrow> kafka_held s' = kafka_held s + kafka_weight (Call c (err_of r)) \<and> calls (trace s') = calls (trace s) @ [(c, err_of r)]"
  by (simp add: api_trace kafka_held_def)

lemma kafka_api_err:
  "api_err c f s = (r, s') \<Longrightarrow> kafka_held s' = kafka_held s + kafka_weight (Call c r) \<and> calls (trace s') = calls (trace s) @ [(c, r)]"
  by (simp add: api_err_trace kafka_held_def)

lemma unsubscribe_all_held:
  "nats_held (unsubscribe_all nl subs ts s) = nats_held s
   \<and> (\<exists>cs. calls (trace (unsubscribe_all nl subs ts s)) = calls (trace s) @ cs)"
proof (induction ts arbitrary: s)
  case (Cons t ts)
  show ?case
  proof (cases "subs t")
    case None
    with Cons.IH [of s] show ?thesis by simp
  next
    case (Some sub)
    obtain r s1 where run: "api_err (NUnsubscribe (sub_id sub)) (nl_Unsubscribe nl (sub_id sub)) s = (r, s1)" by fastforce
    from nats_api_err [OF run] Cons.IH [of s1] Some run show ?thesis by auto
  qed
qed simp

lemma close_partitions_held:
  "close_partitions kl subs ks s = (errs, s') \<Longrightarrow> kafka_held s' = kafka_held s
   \<and> (\<exists>cs. calls (trace s') = calls (trace s) @ cs)"
proof (induction ks arbitrary: s errs s')
  case (Cons k ks)
  show ?case
  proof (cases "subs k")
    case None
    with Cons show ?thesis by simp
  next
    case (Some pc)
    obtain r s1 where run: "api_err (KfClosePartition (pc_id pc)) (kl_ClosePartition kl (pc_id pc)) s = (r, s1)" by fastforce
    obtain es s2 where rest: "close_partitions kl subs ks s1 = (es, s2)" by fastforce
    with Cons.prems Some run have "s' = s2" by simp
    with kafka_api_err [OF run] Cons.IH [OF rest] show ?thesis by auto
  qed
qed simp

interpretation nats_conn: connected_bus "NATS_bus nl order" nats_handlers
    "\<lambda>st. [NCloseConn (nb_conn (fst st))]" "\<lambda>st. calls (trace (snd st))" "\<lambda>st. nats_held (snd st)"
  for nl :: "'w nats_lib" and order :: "string list"
proof unfold_locales
  fix t m and s s' :: "'h NATSBus \<times> 'w nats_state" and r
  assume "bus_Publish (NATS_bus nl order) t m s = (r, s')"
  then show "[NCloseConn (nb_conn (fst s'))] = [NCloseConn (nb_conn (fst s))] \<and> nats_held (snd s') = nats_held (snd s)"
    by (auto simp: NATS_bus_def NATS_Publish_def Let_def split: prod.splits dest!: nats_api_err)
next
  fix c t h and s s' :: "'h NATSBus \<times> 'w nats_state" and r
  assume "bus_Subscribe (NATS_bus nl order) c t h s = (r, s')"
  then show "[NCloseConn (nb_conn (fst s'))] = [NCloseConn (nb_conn (fst s))] \<and> nats_held (snd s') = nats_held (snd s)"
    by (auto simp: NATS_bus_def NATS_Subscribe_def split: prod.splits sum.splits dest!: nats_api)
next
  fix s s' :: "'h NATSBus \<times> 'w nats_state" and r
  assume run: "bus_Close (NATS_bus nl order) s = (r, s')"
  obtain b s0 where s: "s = (b, s0)" by (cases s)
  let ?u = "unsubscribe_all nl (nb_subs b) order s0"
  obtain e s1 where close: "api_err (NCloseConn (nb_conn b)) (nl_CloseConn nl (nb_conn b)) ?u = (e, s1)" by fastforce
  have "snd s' = s1" using run s close by (auto simp: NATS_bus_def NATS_Close_def Let_def)
  then show "nats_held (snd s') = nats_held (snd s) - int (length [NCloseConn (nb_conn (fst s))])
      \<and> (\<exists>cs es. calls (trace (snd s')) = calls (trace (snd s)) @ cs @ zip [NCloseConn (nb_conn (fst s))] es
          \<and> length es = length [NCloseConn (nb_conn (fst s))])"
    using nats_api_err [OF close] unsubscribe_all_held [of nl "nb_subs b" order s0] s
    by (auto intro!: exI [of _ "[e]"])
qed

interpretation kafka_conn: connected_bus "Kafka_bus kl order" kafka_handlers
    "\<lambda>st. [KfCloseProducer (kb_producer (fst st)), KfCloseConsumer (kb_consumer (fst st))]"
    "\<lambda>st. calls (trace (snd st))" "\<lambda>st. kafka_held (snd st)"
  for kl :: "'w kafka_lib" and order :: "string list"
proof unfold_locales
  fix t m and s s' :: "'h KafkaBus \<times> 'w kafka_state" and r
  assume "bus_Publish (Kafka_bus kl order) t m s = (r, s')"
  then show "[KfCloseProducer (kb_producer (fst s')), KfCloseConsumer (kb_consumer (fst s'))]
      = [KfCloseProducer (kb_producer (fst s)), KfCloseConsumer (kb_consumer (fst s))] \<and> kafka_held (snd s') = kafka_held (snd s)"
    by (auto simp: Kafka_bus_def Kafka_Publish_def Let_def split: prod.splits dest!: kafka_api_err)
next
  fix c t h and s s' :: "'h KafkaBus \<times> 'w kafka_state" and r
  assume "bus_Subscribe (Kafka_bus kl order) c t h s = (r, s')"
  then show "[KfCloseProducer (kb_producer (fst s')), KfCloseConsumer (kb_consumer (fst s'))]
      = [KfCloseProducer (kb_producer (fst s)), KfCloseConsumer (kb_consumer (fst s))] \<and> kafka_held (snd s') = kafka_held (snd s)"
    by (auto simp: Kafka_bus_def Kafka_Subscribe_def split: prod.splits sum.splits dest!: kafka_api)
next
  fix s s' :: "'h KafkaBus \<times> 'w kafka_state" and r
  assume run: "bus_Close (Kafka_bus kl order) s = (r, s')"
  obtain b s0 where s: "s = (b, s0)" by (cases s)
  obtain errs s1 where 1: "close_partitions kl (kb_subscriptions b) order s0 = (errs, s1)" by fastforce
  obtain e2 s2 where 2: "api_err (KfCloseProducer (kb_producer b)) (kl_CloseProducer kl (kb_producer b)) s1 = (e2, s2)" by fastforce
  obtain e3 s3 where 3: "api_err (KfCloseConsumer (kb_consumer b)) (kl_CloseConsumer kl (kb_consumer b)) s2 = (e3, s3)" by fastforce
  have "snd s' = s3" using run s 1 2 3 by (auto simp: Kafka_bus_def Kafka_Close_def Let_def)
  then show "kafka_held (snd s') = kafka_held (snd s) - int (length [KfCloseProducer (kb_producer (fst s)), KfCloseConsumer (kb_consumer (fst s))])
      \<and> (\<exists>cs es. calls (trace (snd s')) = calls (trace (snd s)) @ cs
            @ zip [KfCloseProducer (kb_producer (fst s)), KfCloseConsumer (kb_consumer (fst s))] es
          \<and> length es = length [KfCloseProducer (kb_producer (fst s)), KfCloseConsumer (kb_consumer (fst s))])"
    using close_partitions_held [OF 1] kafka_api_err [OF 2] kafka_api_err [OF 3] s
    by (auto intro!: exI [of _ "[e2, e3]"])
qed

section \<open>The life of a bus\<close>

lemma NATS_New_held:
  assumes "NATS_New nl cfg s = (r, s')"
  shows "nats_held s' = nats_held s + (case r of Inl _ \<Rightarrow> 0 | Inr _ \<Rightarrow> 1)"
proof -
  let ?url = "Join (bc_URLs cfg) '',''"
  let ?opts = "if bc_Username cfg \<noteq> [] then Some (bc_Username cfg, bc_Password cfg) else None"
  obtain c s1 where 1: "api (NConnect ?url ?opts) (nl_Connect nl ?url ?opts) s = (c, s1)" by fastforce
  show ?thesis
  proof (cases c)
    case (Inl e)
    with assms 1 nats_api [OF 1] show ?thesis by (auto simp: NATS_New_def Let_def err_of_def)
  next
    case (Inr conn)
    obtain j s2 where 2: "api (NJetStream conn) (nl_JetStream nl conn) s1 = (j, s2)" by fastforce
    obtain e s3 where 3: "api_err (NCloseConn conn) (nl_CloseConn nl conn) s2 = (e, s3)" by fastforce
    from assms 1 2 3 Inr nats_api [OF 1] nats_api [OF 2] nats_api_err [OF 3] show ?thesis
      by (cases j) (auto simp: NATS_New_def Let_def err_of_def)
  qed
qed

lemma Kafka_New_held:
  assumes "Kafka_New kl cfg s = (r, s')"
  shows "kafka_held s' = kafka_held s + (case r of Inl _ \<Rightarrow> 0 | Inr _ \<Rightarrow> 2)"
proof -
  let ?u = "bc_URLs cfg" and ?a = "sasl cfg"
  obtain p s1 where 1: "api (KfNewProducer ?u ?a) (kl_NewSyncProducer kl ?u ?a) s = (p, s1)" by fastforce
  show ?thesis
  proof (cases p)
    case (Inl e)
    with assms 1 kafka_api [OF 1] show ?thesis by (auto simp: Kafka_New_def err_of_def)
  next
    case (Inr producer)
    obtain c s2 where 2: "api (KfNewConsumer ?u ?a) (kl_NewConsumer kl ?u ?a) s1 = (c, s2)" by fastforce
    obtain e s3 where 3: "api_err (KfCloseProducer producer) (kl_CloseProducer kl producer) s2 = (e, s3)" by fastforce
    from assms 1 2 3 Inr kafka_api [OF 1] kafka_api [OF 2] kafka_api_err [OF 3] show ?thesis
      by (cases c) (auto simp: Kafka_New_def err_of_def)
  qed
qed

text \<open>
  C35. A bus leaves nothing open. Whichever of the two \<open>init\<close> functions ran first, the registry makes the bus
  of the type asked for, with its own library only; a type that is not registered is an error
  without a call. When the creation fails, what it had opened has been released. A bus that was made
  has one connection to NATS, or a producer and a consumer of Kafka, and after any publications and subscriptions, successful
  or not, closing it asks the library to release exactly these, last, and leaves as many open as there were
  before the bus.
\<close>

theorem bus_leaves_nothing_open:
  assumes reg: "cs \<in> registries nl kl"
    and new: "NewBus order cs t cfg (ns, ks) = (r, (ns', ks'))"
  shows "case r of
      Inl e \<Rightarrow> nats_held ns' = nats_held ns \<and> kafka_held ks' = kafka_held ks
        \<and> (t = ''nats'' \<or> ns' = ns) \<and> (t = ''kafka'' \<or> ks' = ks)
    | Inr (BusNATS b) \<Rightarrow> t = ''nats'' \<and> ks' = ks \<and> nats_held ns' = nats_held ns + 1
        \<and> (\<forall>ops order'. \<exists>q b' s' xs e. bus_Close (NATS_bus nl order') (use_bus (NATS_bus nl order') ops (b, ns')) = (q, (b', s'))
              \<and> calls (trace s') = xs @ [(NCloseConn (nb_conn b), e)] \<and> nats_held s' = nats_held ns)
    | Inr (BusKafka b) \<Rightarrow> t = ''kafka'' \<and> ns' = ns \<and> kafka_held ks' = kafka_held ks + 2
        \<and> (\<forall>ops order'. \<exists>q b' s' xs e1 e2. bus_Close (Kafka_bus kl order') (use_bus (Kafka_bus kl order') ops (b, ks')) = (q, (b', s'))
              \<and> calls (trace s') = xs @ [(KfCloseProducer (kb_producer b), e1), (KfCloseConsumer (kb_consumer b), e2)]
              \<and> kafka_held s' = kafka_held ks)"
proof -
  consider "t = BusTypeNATS" | "t = BusTypeKafka" | "t \<noteq> BusTypeNATS" "t \<noteq> BusTypeKafka" by blast
  then show ?thesis
  proof cases
    case 1
    obtain x where x: "NATS_New nl cfg ns = (x, ns')" "r = map_sum id BusNATS x" "ks' = ks"
      using new unfolding 1 NewBus_nats [OF reg] by (auto split: prod.splits)
    note held = NATS_New_held [OF x(1)]
    show ?thesis
    proof (cases x)
      case (Inl e)
      with x held 1 show ?thesis by (simp add: BusTypeNATS_def)
    next
      case (Inr b)
      have "\<exists>q b' s' xs e. bus_Close (NATS_bus nl order') (use_bus (NATS_bus nl order') ops (b, ns')) = (q, (b', s'))
          \<and> calls (trace s') = xs @ [(NCloseConn (nb_conn b), e)] \<and> nats_held s' = nats_held ns" for ops order'
      proof -
        obtain q b' s' where run: "bus_Close (NATS_bus nl order') (use_bus (NATS_bus nl order') ops (b, ns')) = (q, (b', s'))"
          by (metis prod.collapse)
        from nats_conn.used_and_closed [OF run] held Inr show ?thesis
          using run by (fastforce simp: length_Suc_conv)
      qed
      with x held Inr 1 show ?thesis by (simp add: BusTypeNATS_def)
    qed
  next
    case 2
    obtain x where x: "Kafka_New kl cfg ks = (x, ks')" "r = map_sum id BusKafka x" "ns' = ns"
      using new unfolding 2 NewBus_kafka [OF reg] by (auto split: prod.splits)
    note held = Kafka_New_held [OF x(1)]
    show ?thesis
    proof (cases x)
      case (Inl e)
      with x held 2 show ?thesis by (simp add: BusTypeKafka_def)
    next
      case (Inr b)
      have "\<exists>q b' s' xs e1 e2. bus_Close (Kafka_bus kl order') (use_bus (Kafka_bus kl order') ops (b, ks')) = (q, (b', s'))
          \<and> calls (trace s') = xs @ [(KfCloseProducer (kb_producer b), e1), (KfCloseConsumer (kb_consumer b), e2)]
          \<and> kafka_held s' = kafka_held ks" for ops order'
      proof -
        obtain q b' s' where run: "bus_Close (Kafka_bus kl order') (use_bus (Kafka_bus kl order') ops (b, ks')) = (q, (b', s'))"
          by (metis prod.collapse)
        from kafka_conn.used_and_closed [OF run] held Inr show ?thesis
          using run by (fastforce simp: length_Suc_conv)
      qed
      with x held Inr 2 show ?thesis by (simp add: BusTypeKafka_def)
    qed
  next
    case 3
    with NewBus_unknown [OF reg 3, of order cfg "(ns, ks)"] new show ?thesis by auto
  qed
qed

theorem bus_leaves_nothing_open_witness:
  "\<exists>(b :: unit NATSBus) s ks q b' s' xs e.
      NewBus [] (nats_register counting_nats (kafka_register counting_kafka Map.empty)) ''nats'' demo_bus_config
        (demo_io, \<lparr>world = 0, trace = [], ctx_next = 0, ctx_done = [], otlp_active = False\<rparr>) = (Inr (BusNATS b), (s, ks))
    \<and> nats_held s = 1
    \<and> bus_Close (NATS_bus counting_nats [''a''])
        (use_bus (NATS_bus counting_nats [''a'']) [Subscribing 0 ''a'' (\<lambda>t d h. (None, h)), Publishing ''a'' ''x''] (b, s)) = (q, (b', s'))
    \<and> calls (trace s') = xs @ [(NCloseConn (nb_conn b), e)] \<and> nats_held s' = 0"
proof -
  let ?cs = "nats_register counting_nats (kafka_register counting_kafka Map.empty)
    :: (unit any_bus, (nat, nat) bus_services) constructors"
  let ?st = "(demo_io, \<lparr>world = 0, trace = [], ctx_next = 0, ctx_done = [], otlp_active = False\<rparr>) :: (nat, nat) bus_services"
  have reg: "?cs \<in> registries counting_nats counting_kafka" by (simp add: registries_def)
  obtain b s ks where new: "NewBus [] ?cs ''nats'' demo_bus_config ?st = (Inr (BusNATS b), (s, ks))"
    using NewBus_nats [OF reg, of "[]" demo_bus_config "fst ?st" "snd ?st"]
    by (simp add: BusTypeNATS_def NATS_New_def counting_nats_def demo_bus_config_def demo_io_def api_def Let_def)
  from bus_leaves_nothing_open [OF reg new] have made: "nats_held s = 1"
    and life: "\<forall>ops order'. \<exists>q b' s' xs e. bus_Close (NATS_bus counting_nats order') (use_bus (NATS_bus counting_nats order') ops (b, s)) = (q, (b', s'))
      \<and> calls (trace s') = xs @ [(NCloseConn (nb_conn b), e)] \<and> nats_held s' = 0"
    by (simp_all add: nats_held_def demo_io_def)
  from life [rule_format, of "[''a'']" "[Subscribing 0 ''a'' (\<lambda>t d h. (None, h)), Publishing ''a'' ''x'']"] new made
  show ?thesis by blast
qed

end
