(* ===== verification/Startup.thy ===== *)
theory Startup
  imports Telemetry
begin

text \<open>
  What the two programs do around their work: environment variables with a default
  (\<open>core/env/env.go\<close>), the logger's configuration (\<open>core/logging/logging.go\<close>), shutdown callbacks
  (\<open>core/shutdown/shutdown.go\<close>), and the start of the telemetry SDK (\<open>Init\<close> and
  \<open>BuildResource\<close> of \<open>core/tracing/tracing.go\<close>, \<open>Init\<close> and \<open>newInstruments\<close> of
  \<open>core/metrics/metrics.go\<close>). The OpenTelemetry SDK is a parameter: exporters, resources and
  providers are the numbers it hands out. Each call that creates or shuts down one of them is
  recorded on the trace.
\<close>

section \<open>Environment and logging\<close>

definition OrDefault :: "'w os \<Rightarrow> string \<Rightarrow> string \<Rightarrow> ('w, 'c) io_state \<Rightarrow> string" where
  "OrDefault os key fallback s = (let v = getenv os key s in if v \<noteq> [] then v else fallback)"

datatype zap_level = DebugLevel | InfoLevel | WarnLevel | ErrorLevel
datatype zap_encoder = JSONEncoder | ConsoleEncoder

definition BuildLogger :: "string \<Rightarrow> string \<Rightarrow> (zap_level \<times> zap_encoder) res" where
  "BuildLogger format level =
     (let levelOpt =
        (if ToLower level = ''debug'' then Some DebugLevel
         else if ToLower level = ''info'' then Some InfoLevel
         else if ToLower level = ''warn'' then Some WarnLevel
         else if ToLower level = ''error'' then Some ErrorLevel
         else None)
      in case levelOpt of
           None \<Rightarrow> Inl (Errorf (''invalid MUTO_LOG_LEVEL '' @ go_quote level
             @ '': must be one of debug, info, warn, error''))
         | Some l \<Rightarrow>
             (if ToLower format = ''json'' then Inr (l, JSONEncoder)
              else if ToLower format = ''console'' then Inr (l, ConsoleEncoder)
              else Inl (Errorf (''invalid MUTO_LOG_FORMAT '' @ go_quote format
                @ '': must be one of json, console''))))"

section \<open>Shutdown callbacks\<close>

type_synonym ('w, 'c) shutdown_fn = "('w, 'c) io_state \<Rightarrow> goerror option \<times> ('w, 'c) io_state"

record ('w, 'c) shutdown_func =
  sf_Name :: string
  sf_Run :: "('w, 'c) shutdown_fn"

text \<open>
  The callbacks run in goroutines of their own; \<open>All\<close> waits for every one. The list is in the
  order in which they run, any permutation of the arguments.
\<close>

fun shutdown_All :: "('w, 'c) shutdown_func list \<Rightarrow> ('w, 'c) io_state \<Rightarrow> ('w, 'c) io_state" where
  "shutdown_All [] s = s"
| "shutdown_All (fn # fns) s =
     (let (err, s1) = sf_Run fn s;
          s2 = (case err of Some e \<Rightarrow> emit (LogError (Some e) (sf_Name fn @ '' shutdown failed'')) s1 | None \<Rightarrow> s1)
      in shutdown_All fns s2)"

section \<open>The telemetry SDK\<close>

record 'w otel_lib =
  ol_NewTraceExporter :: "'w \<Rightarrow> nat res \<times> 'w"
  ol_NewMetricExporter :: "'w \<Rightarrow> nat res \<times> 'w"
  ol_ShutdownExporter :: "nat \<Rightarrow> 'w \<Rightarrow> goerror option \<times> 'w"
  ol_NewResource :: "string \<Rightarrow> 'w \<Rightarrow> (nat \<times> goerror option) \<times> 'w"
  ol_NewTracerProvider :: "nat \<Rightarrow> nat \<Rightarrow> nat"
  ol_ShutdownTracer :: "nat \<Rightarrow> 'w \<Rightarrow> goerror option \<times> 'w"
  ol_NewMeterProvider :: "nat \<Rightarrow> nat \<Rightarrow> nat"
  ol_ShutdownMeter :: "nat \<Rightarrow> 'w \<Rightarrow> goerror option \<times> 'w"
  ol_NewInstrument :: "nat \<Rightarrow> instrument \<Rightarrow> 'w \<Rightarrow> goerror option \<times> 'w"

text \<open>An SDK call that returns a value or an error, and one that returns only an error\<close>

definition sdk :: "string \<Rightarrow> ('w \<Rightarrow> 'a res \<times> 'w) \<Rightarrow> ('w, 'c) io_state \<Rightarrow> 'a res \<times> ('w, 'c) io_state" where
  "sdk name f s = (let (r, w) = f (world s) in (r, emit (Sdk name (err_of r)) (s\<lparr>world := w\<rparr>)))"

definition sdk_err ::
    "string \<Rightarrow> ('w \<Rightarrow> goerror option \<times> 'w) \<Rightarrow> ('w, 'c) io_state \<Rightarrow> goerror option \<times> ('w, 'c) io_state" where
  "sdk_err name f s = (let (r, w) = f (world s) in (r, emit (Sdk name r) (s\<lparr>world := w\<rparr>)))"

text \<open>\<open>BuildResource\<close>: a partial resource or a schema conflict is reported and tolerated\<close>

definition BuildResource :: "'w otel_lib \<Rightarrow> string \<Rightarrow> ('w, 'c) io_state \<Rightarrow> nat res \<times> ('w, 'c) io_state" where
  "BuildResource ol defaultServiceName s =
     (let ((res, err), w) = ol_NewResource ol defaultServiceName (world s);
          s1 = emit (Sdk ''resource.New'' err) (s\<lparr>world := w\<rparr>)
      in case err of
           Some e \<Rightarrow>
             (if err_is KPartialResource e \<or> err_is KSchemaURLConflict e
              then (Inr res, emit (Sdk ''otel.Handle'' (Some e)) s1)
              else (Inl (Wrapped ''build resource: '' e), s1))
         | None \<Rightarrow> (Inr res, s1))"

definition tracing_Init ::
    "'w os \<Rightarrow> 'w otel_lib \<Rightarrow> string \<Rightarrow> ('w, 'c) io_state \<Rightarrow> ('w, 'c) shutdown_fn res \<times> ('w, 'c) io_state" where
  "tracing_Init os ol defaultServiceName s =
     (if getenv os ''OTEL_EXPORTER_OTLP_ENDPOINT'' s = [] \<and> getenv os ''OTEL_EXPORTER_OTLP_TRACES_ENDPOINT'' s = []
      then (Inr (\<lambda>s. (None, s)), s)
      else
        case sdk ''otlptracehttp.New'' (ol_NewTraceExporter ol) s of
          (Inl err, s1) \<Rightarrow> (Inl (Wrapped ''create otlp exporter: '' err), s1)
        | (Inr exporter, s1) \<Rightarrow>
            (case BuildResource ol defaultServiceName s1 of
               (Inl err, s2) \<Rightarrow> (Inl err, snd (sdk_err ''exporter.Shutdown'' (ol_ShutdownExporter ol exporter) s2))
             | (Inr res, s2) \<Rightarrow>
                 (let tp = ol_NewTracerProvider ol exporter res;
                      s3 = emit (Sdk ''otel.SetTracerProvider'' None) s2;
                      s4 = emit (Sdk ''otel.SetTextMapPropagator'' None) s3
                  in (Inr (sdk_err ''TracerProvider.Shutdown'' (ol_ShutdownTracer ol tp)), s4))))"

text \<open>\<open>newInstruments\<close>: in the order of the code, up to the first error\<close>

definition all_instruments :: "instrument list" where
  "all_instruments =
     [ReconciliationsTotal, ReconciliationDuration, JobsTotal, JobDuration, AgentsRunning, JobQueueDepth]"

fun newInstruments ::
    "'w otel_lib \<Rightarrow> nat \<Rightarrow> instrument list \<Rightarrow> ('w, 'c) io_state \<Rightarrow> goerror option \<times> ('w, 'c) io_state" where
  "newInstruments ol meter [] s = (None, s)"
| "newInstruments ol meter (i # is) s =
     (case sdk_err ''meter.NewInstrument'' (ol_NewInstrument ol meter i) s of
        (Some err, s1) \<Rightarrow> (Some err, s1)
      | (None, s1) \<Rightarrow> newInstruments ol meter is s1)"

definition metrics_Init ::
    "'w os \<Rightarrow> 'w otel_lib \<Rightarrow> string \<Rightarrow> ('w, 'c) io_state \<Rightarrow> ('w, 'c) shutdown_fn res \<times> ('w, 'c) io_state" where
  "metrics_Init os ol defaultServiceName s =
     (if getenv os ''OTEL_EXPORTER_OTLP_ENDPOINT'' s = [] \<and> getenv os ''OTEL_EXPORTER_OTLP_METRICS_ENDPOINT'' s = []
      then (Inr (\<lambda>s. (None, s)), s)
      else
        case sdk ''otlpmetrichttp.New'' (ol_NewMetricExporter ol) s of
          (Inl err, s1) \<Rightarrow> (Inl (Wrapped ''create otlp metric exporter: '' err), s1)
        | (Inr exporter, s1) \<Rightarrow>
            (case BuildResource ol defaultServiceName s1 of
               (Inl err, s2) \<Rightarrow> (Inl err, snd (sdk_err ''exporter.Shutdown'' (ol_ShutdownExporter ol exporter) s2))
             | (Inr res, s2) \<Rightarrow>
                 (let mp = ol_NewMeterProvider ol exporter res in
                  case newInstruments ol mp all_instruments s2 of
                    (Some err, s3) \<Rightarrow>
                      (Inl (Wrapped ''create otlp metric instruments: '' err),
                       snd (sdk_err ''MeterProvider.Shutdown'' (ol_ShutdownMeter ol mp) s3))
                  | (None, s3) \<Rightarrow>
                      (Inr (sdk_err ''MeterProvider.Shutdown'' (ol_ShutdownMeter ol mp)),
                       (emit (Sdk ''otel.SetMeterProvider'' None) s3)\<lparr>otlp_active := True\<rparr>))))"

section \<open>Every instrument, or no recording\<close>

text \<open>The instruments as an enumeration: the list of the code misses none and repeats none.\<close>

instantiation instrument :: enum
begin

definition enum_instrument_def: "enum_class.enum = all_instruments"

definition enum_all_instrument_def: "enum_class.enum_all P \<longleftrightarrow> list_all P all_instruments"

definition enum_ex_instrument_def: "enum_class.enum_ex P \<longleftrightarrow> list_ex P all_instruments"

instance
proof
  have all: "i \<in> set all_instruments" for i :: instrument
    by (cases i) (simp_all add: all_instruments_def)
  then show "UNIV = set (enum_class.enum :: instrument list)" by (auto simp: enum_instrument_def)
  show "distinct (enum_class.enum :: instrument list)" by (simp add: enum_instrument_def all_instruments_def)
  show "enum_class.enum_all P \<longleftrightarrow> Ball UNIV P" for P :: "instrument \<Rightarrow> bool"
    using all by (auto simp: enum_all_instrument_def list_all_iff)
  show "enum_class.enum_ex P \<longleftrightarrow> Bex UNIV P" for P :: "instrument \<Rightarrow> bool"
    using all by (auto simp: enum_ex_instrument_def list_ex_iff)
qed

end

lemma set_all_instruments [simp]: "set all_instruments = UNIV"
  using enum_UNIV [where 'a = instrument] by (simp add: enum_instrument_def)

lemma newInstruments_all:
  "newInstruments ol m is s = (None, s') \<Longrightarrow> i \<in> set is \<Longrightarrow> \<exists>w w'. ol_NewInstrument ol m i w = (None, w')"
  by (induction "is" arbitrary: s) (auto simp: sdk_err_def split: prod.splits option.splits)

lemma active_BuildResource [simp]: "otlp_active (snd (BuildResource ol n s)) = otlp_active s"
  by (simp add: BuildResource_def Let_def split: prod.splits option.splits)

lemma active_newInstruments [simp]: "otlp_active (snd (newInstruments ol m is s)) = otlp_active s"
  by (induction ol m "is" s rule: newInstruments.induct) (auto simp: sdk_err_def split: prod.splits option.splits)

text \<open>
  Recording starts only when an endpoint is configured and every instrument has been created; any
  failure on the way leaves it as it was.
\<close>

lemma metrics_Init_all_or_nothing:
  assumes "metrics_Init os ol name s = (r, s')" and "\<not> otlp_active s"
  shows "otlp_active s' \<longrightarrow> (\<exists>f mp. r = Inr f \<and> (\<forall>i. \<exists>w w'. ol_NewInstrument ol mp i w = (None, w')))"
    and "r = Inl e \<Longrightarrow> \<not> otlp_active s'"
proof -
  obtain x s1 where 1: "sdk ''otlpmetrichttp.New'' (ol_NewMetricExporter ol) s = (x, s1)" by fastforce
  obtain y s2 where 2: "BuildResource ol name s1 = (y, s2)" by fastforce
  have off: "\<not> otlp_active s1" "\<not> otlp_active s2"
    using assms(2) 1 active_BuildResource [of ol name s1] 2 by (auto simp: sdk_def split: prod.splits)
  have off3: "newInstruments ol m all_instruments s2 = (z, s3) \<Longrightarrow> \<not> otlp_active s3" for m z s3
    using off(2) active_newInstruments [of ol m all_instruments s2] by simp
  have shut: "otlp_active (snd (sdk_err n f u)) = otlp_active u" for n f and u :: "('a, 'b) io_state"
    by (simp add: sdk_err_def split: prod.splits)
  have made: "newInstruments ol m all_instruments s2 = (None, s3) \<Longrightarrow> \<forall>i. \<exists>w w'. ol_NewInstrument ol m i w = (None, w')" for m s3
    using newInstruments_all [of ol m all_instruments s2 s3] by simp
  show "otlp_active s' \<longrightarrow> (\<exists>f mp. r = Inr f \<and> (\<forall>i. \<exists>w w'. ol_NewInstrument ol mp i w = (None, w')))"
    using assms off
    by (auto simp: metrics_Init_def 1 2 Let_def shut dest: off3 dest!: made split: if_splits sum.splits prod.splits option.splits)
  show "r = Inl e \<Longrightarrow> \<not> otlp_active s'"
    using assms off
    by (auto simp: metrics_Init_def 1 2 Let_def shut dest: off3 split: if_splits sum.splits prod.splits option.splits)
qed

section \<open>Exporters opened and closed\<close>

text \<open>
  What an event does to the number of exporters open: a provider that is shut down shuts its
  exporter down.
\<close>

definition sdk_delta :: "string \<Rightarrow> goerror option \<Rightarrow> int" where
  "sdk_delta name err =
     (if name \<in> {''otlptracehttp.New'', ''otlpmetrichttp.New''} then (if err = None then 1 else 0)
      else if name \<in> {''exporter.Shutdown'', ''TracerProvider.Shutdown'', ''MeterProvider.Shutdown''} then - 1
      else 0)"

definition exporter_delta :: "'c effect \<Rightarrow> int" where
  "exporter_delta e = (case e of Sdk name err \<Rightarrow> sdk_delta name err | _ \<Rightarrow> 0)"

definition open_exporters :: "('w, 'c) io_state \<Rightarrow> int" where
  "open_exporters s = (\<Sum>e\<leftarrow>trace s. exporter_delta e)"

lemma open_emit [simp]: "open_exporters (emit e s) = open_exporters s + exporter_delta e"
  by (simp add: open_exporters_def)

lemma open_upd [simp]:
  "open_exporters (s\<lparr>world := w\<rparr>) = open_exporters s" "open_exporters (s\<lparr>otlp_active := b\<rparr>) = open_exporters s"
  by (simp_all add: open_exporters_def)

lemma sdk_deltas [simp]:
  "sdk_delta ''otlptracehttp.New'' r = (if r = None then 1 else 0)"
  "sdk_delta ''otlpmetrichttp.New'' r = (if r = None then 1 else 0)"
  "sdk_delta ''exporter.Shutdown'' r = - 1"
  "sdk_delta ''TracerProvider.Shutdown'' r = - 1"
  "sdk_delta ''MeterProvider.Shutdown'' r = - 1"
  "sdk_delta ''resource.New'' r = 0" "sdk_delta ''otel.Handle'' r = 0"
  "sdk_delta ''meter.NewInstrument'' r = 0"
  "sdk_delta ''otel.SetTracerProvider'' r = 0" "sdk_delta ''otel.SetTextMapPropagator'' r = 0"
  "sdk_delta ''otel.SetMeterProvider'' r = 0"
  by (simp_all add: sdk_delta_def)

lemma exporter_delta_simps [simp]:
  "exporter_delta (Sdk n r) = sdk_delta n r" "exporter_delta (LogError e m) = 0" "exporter_delta (LogInfo m) = 0"
  "exporter_delta (Call c r) = 0"
  by (simp_all add: exporter_delta_def)

lemma open_sdk: "open_exporters (snd (sdk name f s)) = open_exporters s + sdk_delta name (err_of (fst (sdk name f s)))"
  by (simp add: sdk_def split: prod.splits)

lemma open_sdk_err: "open_exporters (snd (sdk_err name f s)) = open_exporters s + sdk_delta name (fst (sdk_err name f s))"
  by (simp add: sdk_err_def split: prod.splits)

lemma open_BuildResource: "open_exporters (snd (BuildResource ol n s)) = open_exporters s"
  by (simp add: BuildResource_def Let_def split: prod.splits option.splits)

lemma open_newInstruments: "open_exporters (snd (newInstruments ol m is s)) = open_exporters s"
proof (induction "is" arbitrary: s)
  case (Cons i "is")
  obtain r s1 where run: "sdk_err ''meter.NewInstrument'' (ol_NewInstrument ol m i) s = (r, s1)" by fastforce
  then have "open_exporters s1 = open_exporters s"
    using open_sdk_err [of "''meter.NewInstrument''" "ol_NewInstrument ol m i" s] by simp
  with run Cons show ?case by (cases r) simp_all
qed simp

text \<open>What a shutdown callback closes\<close>

definition closes :: "int \<Rightarrow> ('w, 'c) shutdown_fn \<Rightarrow> bool" where
  "closes n f \<longleftrightarrow> (\<forall>s. open_exporters (snd (f s)) = open_exporters s - n)"

lemma closes_nothing [simp]: "closes 0 (\<lambda>s. (None, s))"
  by (simp add: closes_def)

lemma closes_one [simp]:
  "closes 1 (sdk_err ''exporter.Shutdown'' f)" "closes 1 (sdk_err ''TracerProvider.Shutdown'' f)"
  "closes 1 (sdk_err ''MeterProvider.Shutdown'' f)"
  by (simp_all add: closes_def open_sdk_err)

text \<open>
  A start of telemetry that fails leaves no exporter open; one that succeeds leaves those its
  callback closes.
\<close>

definition balanced :: "('w, 'c) io_state \<Rightarrow> ('w, 'c) shutdown_fn res \<Rightarrow> ('w, 'c) io_state \<Rightarrow> bool" where
  "balanced s r s' \<longleftrightarrow>
     (case r of Inl e \<Rightarrow> open_exporters s' = open_exporters s
      | Inr f \<Rightarrow> closes (open_exporters s' - open_exporters s) f)"

lemma tracing_Init_balanced: "tracing_Init os ol name s = (r, s') \<Longrightarrow> balanced s r s'"
proof -
  assume init: "tracing_Init os ol name s = (r, s')"
  obtain x s1 where 1: "sdk ''otlptracehttp.New'' (ol_NewTraceExporter ol) s = (x, s1)" by fastforce
  obtain y s2 where 2: "BuildResource ol name s1 = (y, s2)" by fastforce
  have o1: "open_exporters s1 = open_exporters s + (if err_of x = None then 1 else 0)"
    using open_sdk [of "''otlptracehttp.New''" "ol_NewTraceExporter ol" s] by (simp add: 1)
  have o2: "open_exporters s2 = open_exporters s1" using open_BuildResource [of ol name s1] by (simp add: 2)
  show ?thesis
    using init o1 o2
    by (auto simp: tracing_Init_def 1 2 Let_def balanced_def open_sdk_err err_of_def split: if_splits sum.splits)
qed

lemma metrics_Init_balanced: "metrics_Init os ol name s = (r, s') \<Longrightarrow> balanced s r s'"
proof -
  assume init: "metrics_Init os ol name s = (r, s')"
  obtain x s1 where 1: "sdk ''otlpmetrichttp.New'' (ol_NewMetricExporter ol) s = (x, s1)" by fastforce
  obtain y s2 where 2: "BuildResource ol name s1 = (y, s2)" by fastforce
  have o1: "open_exporters s1 = open_exporters s + (if err_of x = None then 1 else 0)"
    using open_sdk [of "''otlpmetrichttp.New''" "ol_NewMetricExporter ol" s] by (simp add: 1)
  have o2: "open_exporters s2 = open_exporters s1" using open_BuildResource [of ol name s1] by (simp add: 2)
  have o3: "newInstruments ol m all_instruments s2 = (z, s3) \<Longrightarrow> open_exporters s3 = open_exporters s2" for m z s3
    using open_newInstruments [of ol m all_instruments s2] by simp
  show ?thesis
    using init o1 o2
    by (auto simp: metrics_Init_def 1 2 Let_def balanced_def open_sdk_err err_of_def
        dest!: o3 split: if_splits sum.splits prod.splits option.splits)
qed

lemma open_shutdown_All:
  "list_all2 (\<lambda>f n. closes n (sf_Run f)) fns ns \<Longrightarrow>
     open_exporters (shutdown_All fns s) = open_exporters s - sum_list ns"
proof (induction fns ns arbitrary: s rule: list_all2_induct)
  case (Cons f fns n ns)
  obtain err s1 where run: "sf_Run f s = (err, s1)" by fastforce
  with Cons.hyps have "open_exporters s1 = open_exporters s - n" unfolding closes_def by (metis snd_conv)
  with run Cons.IH show ?case by (auto split: option.splits)
qed simp

end
