(* ===== verification/Kube_Scheme.thy ===== *)
theory Kube_Scheme
  imports Kube_Client
begin

text \<open>
  The registration of the types with the API machinery: \<open>groupversion_info.go\<close>, the \<open>init\<close> functions of
  \<open>platform/k8s/types/v1alpha1\<close> and of \<open>cmd/muto-operator/main.go\<close>, and the scheme of
  \<open>cmd/muto-mcp/main.go\<close>. A scheme is the library's, so is its builder; a client made with a scheme
  serves the types the scheme knows and no others.
\<close>

section \<open>Types of objects\<close>

text \<open>A Go type: the path of its package and its name\<close>

type_synonym go_type = "string \<times> string"

definition corev1_pkg :: string where "corev1_pkg = ''k8s.io/api/core/v1''"
definition appsv1_pkg :: string where "appsv1_pkg = ''k8s.io/api/apps/v1''"
definition metav1_pkg :: string where "metav1_pkg = ''k8s.io/apimachinery/pkg/apis/meta/v1''"
definition v1alpha1_pkg :: string where "v1alpha1_pkg = ''github.com/muto-io/muto/platform/k8s/types/v1alpha1''"

lemmas packages = corev1_pkg_def appsv1_pkg_def metav1_pkg_def v1alpha1_pkg_def

text \<open>The type behind each kind of object the operator reads or writes\<close>

fun go_type_of :: "kkind \<Rightarrow> go_type" where
  "go_type_of JobK = (v1alpha1_pkg, ''AgentJob'')"
| "go_type_of FleetK = (v1alpha1_pkg, ''AgentFleet'')"
| "go_type_of TenantK = (v1alpha1_pkg, ''Tenant'')"
| "go_type_of PodK = (corev1_pkg, ''Pod'')"
| "go_type_of SecretK = (corev1_pkg, ''Secret'')"
| "go_type_of DeploymentK = (appsv1_pkg, ''Deployment'')"
| "go_type_of ServiceK = (corev1_pkg, ''Service'')"
| "go_type_of NamespaceK = (corev1_pkg, ''Namespace'')"

definition pod_list_type :: go_type where
  "pod_list_type = (corev1_pkg, ''PodList'')"

section \<open>The API of schemes\<close>

record GroupVersion =
  gv_Group :: string
  gv_Version :: string

text \<open>\<open>scheme.Builder\<close> of controller-runtime, \<open>runtime.NewScheme\<close>, and \<open>AddToScheme\<close> of \<open>corev1\<close>\<close>

record ('b, 'sc) scheme_lib =
  scl_Builder :: "GroupVersion \<Rightarrow> 'b"
  scl_Register :: "'b \<Rightarrow> go_type list \<Rightarrow> 'b"
  scl_AddToScheme :: "'b \<Rightarrow> 'sc \<Rightarrow> goerror option \<times> 'sc"
  scl_NewScheme :: 'sc
  scl_corev1_AddToScheme :: "'sc \<Rightarrow> goerror option \<times> 'sc"

text \<open>
  What the library documents. \<open>known\<close> are the types of a scheme, \<open>pending\<close> those registered with a
  builder, \<open>core\<close> what \<open>corev1\<close> adds: types of its package and of \<open>metav1\<close>, with the four the
  operator uses and the list of pods. A builder also adds types of \<open>metav1\<close>.
\<close>

definition schemes_documented ::
    "('b, 'sc) scheme_lib \<Rightarrow> ('sc \<Rightarrow> go_type set) \<Rightarrow> ('b \<Rightarrow> go_type set) \<Rightarrow> go_type set \<Rightarrow> go_type set \<Rightarrow> bool" where
  "schemes_documented L known pending core meta \<longleftrightarrow>
     known (scl_NewScheme L) = {}
   \<and> (\<forall>gv. pending (scl_Builder L gv) = {})
   \<and> (\<forall>b ts. pending (scl_Register L b ts) = pending b \<union> set ts)
   \<and> (\<forall>b sc. known (snd (scl_AddToScheme L b sc)) = known sc \<union> pending b \<union> meta)
   \<and> (\<forall>sc. known (snd (scl_corev1_AddToScheme L sc)) = known sc \<union> core)
   \<and> fst ` meta \<subseteq> {metav1_pkg} \<and> fst ` core \<subseteq> {corev1_pkg, metav1_pkg}
   \<and> {(corev1_pkg, ''Pod''), pod_list_type, (corev1_pkg, ''Secret''), (corev1_pkg, ''Service''), (corev1_pkg, ''Namespace'')} \<subseteq> core"

section \<open>What the program registers\<close>

definition GroupVersion_muto :: GroupVersion where
  "GroupVersion_muto = \<lparr>gv_Group = ''muto.io'', gv_Version = ''v1alpha1''\<rparr>"

definition SchemeBuilder :: "('b, 'sc) scheme_lib \<Rightarrow> 'b" where
  "SchemeBuilder L = scl_Builder L GroupVersion_muto"

text \<open>The \<open>init\<close> functions of the package, which Go runs in the order of the file names\<close>

definition init_agentfleet :: "('b, 'sc) scheme_lib \<Rightarrow> 'b \<Rightarrow> 'b" where
  "init_agentfleet L b = scl_Register L b [(v1alpha1_pkg, ''AgentFleet''), (v1alpha1_pkg, ''AgentFleetList'')]"

definition init_agentjob :: "('b, 'sc) scheme_lib \<Rightarrow> 'b \<Rightarrow> 'b" where
  "init_agentjob L b = scl_Register L b [(v1alpha1_pkg, ''AgentJob''), (v1alpha1_pkg, ''AgentJobList'')]"

definition init_tenant :: "('b, 'sc) scheme_lib \<Rightarrow> 'b \<Rightarrow> 'b" where
  "init_tenant L b = scl_Register L b [(v1alpha1_pkg, ''Tenant''), (v1alpha1_pkg, ''TenantList'')]"

text \<open>\<open>AddToScheme\<close> is bound to the builder, a pointer, and called after the \<open>init\<close> functions.\<close>

definition v1alpha1_AddToScheme :: "('b, 'sc) scheme_lib \<Rightarrow> 'sc \<Rightarrow> goerror option \<times> 'sc" where
  "v1alpha1_AddToScheme L =
     scl_AddToScheme L (init_tenant L (init_agentjob L (init_agentfleet L (SchemeBuilder L))))"

text \<open>The schemes of the two programs; both drop the errors.\<close>

definition operator_init :: "('b, 'sc) scheme_lib \<Rightarrow> 'sc \<Rightarrow> 'sc" where
  "operator_init L sc =
     (let (_, sc1) = scl_corev1_AddToScheme L sc;
          (_, sc2) = v1alpha1_AddToScheme L sc1
      in sc2)"

definition operator_scheme :: "('b, 'sc) scheme_lib \<Rightarrow> 'sc" where
  "operator_scheme L = operator_init L (scl_NewScheme L)"

definition mcp_scheme :: "('b, 'sc) scheme_lib \<Rightarrow> 'sc" where
  "mcp_scheme L =
     (let sc = scl_NewScheme L;
          (_, sc1) = scl_corev1_AddToScheme L sc;
          (_, sc2) = v1alpha1_AddToScheme L sc1
      in sc2)"

section \<open>What the schemes know\<close>

lemma known_operator_scheme:
  assumes "schemes_documented L known pending core meta"
  shows "known (operator_scheme L) = core \<union> meta \<union> Pair v1alpha1_pkg `
    {''AgentFleet'', ''AgentFleetList'', ''AgentJob'', ''AgentJobList'', ''Tenant'', ''TenantList''}"
proof -
  have "pending (init_tenant L (init_agentjob L (init_agentfleet L (SchemeBuilder L)))) = Pair v1alpha1_pkg `
      {''AgentFleet'', ''AgentFleetList'', ''AgentJob'', ''AgentJobList'', ''Tenant'', ''TenantList''}"
    using assms unfolding schemes_documented_def init_tenant_def init_agentjob_def init_agentfleet_def SchemeBuilder_def
    by auto
  then show ?thesis
    using assms unfolding schemes_documented_def operator_scheme_def operator_init_def v1alpha1_AddToScheme_def
    by (simp add: split_beta Let_def Un_ac)
qed

lemma mcp_scheme_eq: "mcp_scheme L = operator_scheme L"
  by (simp add: mcp_scheme_def operator_scheme_def operator_init_def)

text \<open>Both know every kind the program uses but one: nobody registers the types of \<open>appsv1\<close>.\<close>

lemma operator_scheme_kinds:
  assumes "schemes_documented L known pending core meta"
  shows "go_type_of kd \<in> known (operator_scheme L) \<longleftrightarrow> kd \<noteq> DeploymentK"
    and "pod_list_type \<in> known (operator_scheme L)"
proof -
  have core: "fst ` core \<subseteq> {corev1_pkg, metav1_pkg}" and meta: "fst ` meta \<subseteq> {metav1_pkg}"
    and used: "{(corev1_pkg, ''Pod''), pod_list_type, (corev1_pkg, ''Secret''), (corev1_pkg, ''Service''), (corev1_pkg, ''Namespace'')} \<subseteq> core"
    using assms unfolding schemes_documented_def by blast+
  have apps: "appsv1_pkg \<noteq> corev1_pkg" "appsv1_pkg \<noteq> metav1_pkg" "appsv1_pkg \<noteq> v1alpha1_pkg"
    by (simp_all add: packages)
  have "go_type_of DeploymentK \<notin> core \<union> meta"
    using imageI [of _ core fst] imageI [of _ meta fst] core meta apps by fastforce
  then have "go_type_of DeploymentK \<notin> known (operator_scheme L)"
    unfolding known_operator_scheme [OF assms] using apps by simp
  moreover have "go_type_of kd \<in> known (operator_scheme L)" if "kd \<noteq> DeploymentK"
    unfolding known_operator_scheme [OF assms] using that used by (cases kd) simp_all
  ultimately show "go_type_of kd \<in> known (operator_scheme L) \<longleftrightarrow> kd \<noteq> DeploymentK" by metis
  show "pod_list_type \<in> known (operator_scheme L)"
    unfolding known_operator_scheme [OF assms] using used by simp
qed

section \<open>A client made with a scheme\<close>

text \<open>
  A request about a type the scheme does not know fails before it reaches the server, with an error of
  its own (\<open>no kind is registered for the type\<close>), which is no answer of the server: \<open>IsNotFound\<close> and
  \<open>IsAlreadyExists\<close> do not hold of it.
\<close>

definition refuses :: "('w \<Rightarrow> 'a res \<times> 'w) \<Rightarrow> bool" where
  "refuses f \<longleftrightarrow> (\<forall>w. \<exists>e. f w = (Inl e, w) \<and> \<not> IsNotFound e \<and> \<not> IsAlreadyExists e)"

definition refuses_err :: "('w \<Rightarrow> goerror option \<times> 'w) \<Rightarrow> bool" where
  "refuses_err f \<longleftrightarrow> (\<forall>w. \<exists>e. f w = (Some e, w) \<and> \<not> IsNotFound e \<and> \<not> IsAlreadyExists e)"

definition typed_client :: "go_type set \<Rightarrow> 'w kclient \<Rightarrow> bool" where
  "typed_client types kc \<longleftrightarrow>
     (\<forall>k. (go_type_of JobK \<notin> types \<longrightarrow> refuses (kc_GetJob kc k))
        \<and> (go_type_of FleetK \<notin> types \<longrightarrow> refuses (kc_GetFleet kc k))
        \<and> (go_type_of TenantK \<notin> types \<longrightarrow> refuses (kc_GetTenant kc k))
        \<and> (go_type_of SecretK \<notin> types \<longrightarrow> refuses (kc_GetSecret kc k))
        \<and> (go_type_of DeploymentK \<notin> types \<longrightarrow> refuses (kc_GetDeployment kc k))
        \<and> (go_type_of ServiceK \<notin> types \<longrightarrow> refuses (kc_GetService kc k))
        \<and> (go_type_of NamespaceK \<notin> types \<longrightarrow> refuses (kc_GetNamespace kc k))
        \<and> (go_type_of PodK \<notin> types \<longrightarrow> refuses (kc_GetPod kc k)))
   \<and> (pod_list_type \<notin> types \<longrightarrow> (\<forall>ns l. refuses (kc_ListPods kc ns l)))
   \<and> (\<forall>ob. go_type_of (fst (obj_key ob)) \<notin> types \<longrightarrow> refuses_err (kc_Create kc ob) \<and> refuses_err (kc_Delete kc ob))
   \<and> (\<forall>j. go_type_of JobK \<notin> types \<longrightarrow> refuses (kc_StatusUpdateJob kc j))
   \<and> (\<forall>f. go_type_of FleetK \<notin> types \<longrightarrow> refuses (kc_StatusUpdateFleet kc f))
   \<and> (\<forall>t. go_type_of TenantK \<notin> types \<longrightarrow> refuses (kc_UpdateTenant kc t) \<and> refuses (kc_StatusUpdateTenant kc t))"

lemma typed_client_deployments:
  assumes "typed_client types kc" and "go_type_of DeploymentK \<notin> types"
  shows "refuses (kc_GetDeployment kc k)" "refuses_err (kc_Delete kc (ODeployment d))"
  using assms unfolding typed_client_def by (blast, metis obj_key.simps(6) fst_conv)

end
