(* ===== verification/Controllers.thy ===== *)
theory Controllers
  imports Kube_Scheme Job_Reconciler Fleet_Reconciler Tenant_Reconciler
begin

text \<open>
  \<open>SetupWithManager\<close> of the three reconcilers (\<open>platform/k8s/reconcilers\<close>): what each hands to the
  controller runtime. A controller is started for changes of objects of one type, and of those it owns;
  the reconciler it calls is the traced one, over the client of the manager.
\<close>

text \<open>What the operator uses of a manager (\<open>ctrl.Manager\<close>)\<close>

record ('w, 'sc) kmanager =
  mgr_GetClient :: "'w kclient"
  mgr_GetScheme :: 'sc

text \<open>The controller built by \<open>NewControllerManagedBy(mgr).For(...).Owns(...).Complete(...)\<close>\<close>

record 'w controller =
  ctl_For :: go_type
  ctl_Owns :: "go_type list"
  ctl_Reconcile :: "key \<Rightarrow> 'w kstate \<Rightarrow> Result res \<times> 'w kstate"

section \<open>The reconcilers\<close>

record ('w, 'sc) TenantReconciler =
  tnr_Client :: "'w kclient"
  tnr_Scheme :: 'sc

record ('w, 'sc) AgentJobReconciler =
  ajr_Client :: "'w kclient"
  ajr_Scheme :: 'sc

record ('w, 'sc) AgentFleetReconciler =
  afr_Client :: "'w kclient"
  afr_Scheme :: 'sc

definition Tenant_SetupWithManager ::
    "'w os \<Rightarrow> ctrl_lib \<Rightarrow> ('w, 'sc) TenantReconciler \<Rightarrow> 'w controller" where
  "Tenant_SetupWithManager os cl r =
     \<lparr>ctl_For = go_type_of TenantK, ctl_Owns = [],
      ctl_Reconcile = TenantManaged (tnr_Client r) os cl\<rparr>"

definition AgentJob_SetupWithManager ::
    "'w os \<Rightarrow> ctrl_lib \<Rightarrow> ('w, 'sc) AgentJobReconciler \<Rightarrow> 'w controller" where
  "AgentJob_SetupWithManager os cl r =
     \<lparr>ctl_For = go_type_of JobK, ctl_Owns = [go_type_of PodK],
      ctl_Reconcile = AgentJobManaged (ajr_Client r) os cl\<rparr>"

definition AgentFleet_SetupWithManager ::
    "'w os \<Rightarrow> ('w, 'sc) AgentFleetReconciler \<Rightarrow> 'w controller" where
  "AgentFleet_SetupWithManager os r =
     \<lparr>ctl_For = go_type_of FleetK, ctl_Owns = [],
      ctl_Reconcile = AgentFleetManaged (afr_Client r) os\<rparr>"

section \<open>What the operator sets up\<close>

text \<open>The three calls of \<open>run\<close>, in order, each with the name its error is logged under\<close>

definition the_reconcilers :: "'w os \<Rightarrow> ctrl_lib \<Rightarrow> ('w, 'sc) kmanager \<Rightarrow> (string \<times> 'w controller) list" where
  "the_reconcilers os cl mgr =
     [(''TenantReconciler'', Tenant_SetupWithManager os cl
         \<lparr>tnr_Client = mgr_GetClient mgr, tnr_Scheme = mgr_GetScheme mgr\<rparr>),
      (''AgentJobReconciler'', AgentJob_SetupWithManager os cl
         \<lparr>ajr_Client = mgr_GetClient mgr, ajr_Scheme = mgr_GetScheme mgr\<rparr>),
      (''AgentFleetReconciler'', AgentFleet_SetupWithManager os
         \<lparr>afr_Client = mgr_GetClient mgr, afr_Scheme = mgr_GetScheme mgr\<rparr>)]"

text \<open>The types the controllers watch\<close>

definition watched_types :: "(go_type \<times> go_type list) list" where
  "watched_types = [(go_type_of TenantK, []), (go_type_of JobK, [go_type_of PodK]), (go_type_of FleetK, [])]"

lemma the_reconcilers_watch:
  "map (\<lambda>(n, c). (ctl_For c, ctl_Owns c)) (the_reconcilers os cl mgr) = watched_types"
  by (simp add: the_reconcilers_def watched_types_def Tenant_SetupWithManager_def AgentJob_SetupWithManager_def
      AgentFleet_SetupWithManager_def)

text \<open>The scheme of the operator knows them all: nothing is missing when the controllers are set up.\<close>

lemma watched_types_known:
  assumes "schemes_documented L known pending core meta"
  shows "\<forall>(t, ts)\<in>set watched_types. set (t # ts) \<subseteq> known (operator_scheme L)"
proof -
  have "go_type_of kd \<in> known (operator_scheme L)" if "kd \<noteq> DeploymentK" for kd
    using operator_scheme_kinds(1) [OF assms] that by blast
  from this [of TenantK] this [of JobK] this [of PodK] this [of FleetK] show ?thesis
    unfolding watched_types_def by (simp del: go_type_of.simps)
qed

end
