(* ===== verification/Programs.thy ===== *)
theory Programs
  imports Startup MCP_Lifecycle CF_Adapter Controllers
begin

text \<open>
  The two programs: \<open>cmd/muto-operator/main.go\<close> and \<open>cmd/muto-mcp/main.go\<close>. \<open>run\<close> returns the
  process exit code; what it hands to the controller runtime, the API machinery and the MCP
  transport is recorded as calls, in order. The deferred shutdown of the telemetry runs on
  every path after its registration.
\<close>

section \<open>Libraries\<close>

datatype sys_call =
    GetConfig | NewManager string string | AddHealthzCheck | AddReadyzCheck
  | NewKubeClient | NewCFClient string string string | SetupReconciler go_type "go_type list" | MgrStart | ServeStdio

type_synonym 'w sys_state = "('w, sys_call) io_state"

text \<open>
  A manager and a client are made with a scheme. \<open>sl_cf_config\<close> and \<open>sl_cf_lib\<close> are \<open>config.New\<close> and
  \<open>cfclient.New\<close> of go-cfclient, \<open>sl_cf_os\<close> the clock of the CF adapter's cache, \<open>sl_kube_os\<close> and
  \<open>sl_ctrl_lib\<close> what the reconcilers use beside their client, \<open>sl_Setup\<close> the \<open>Complete\<close> of a controller.
\<close>

record ('w, 'k, 'cfg, 'f, 'sc) operator_lib =
  sl_GetConfig :: "'w \<Rightarrow> goerror option \<times> 'w"
  sl_NewManager :: "'sc \<Rightarrow> string \<Rightarrow> string \<Rightarrow> 'w \<Rightarrow> ('k, 'sc) kmanager res \<times> 'w"
  sl_AddHealthz :: "'w \<Rightarrow> goerror option \<times> 'w"
  sl_AddReadyz :: "'w \<Rightarrow> goerror option \<times> 'w"
  sl_NewClient :: "'sc \<Rightarrow> 'w \<Rightarrow> 'k kclient res \<times> 'w"
  sl_cf_config :: "string \<Rightarrow> string \<Rightarrow> string \<Rightarrow> 'w \<Rightarrow> 'cfg res \<times> 'w"
  sl_cf_lib :: "'cfg \<Rightarrow> 'f cf_lib res"
  sl_cf_os :: "'f os"
  sl_kube_os :: "'k os"
  sl_ctrl_lib :: ctrl_lib
  sl_Setup :: "'k controller \<Rightarrow> 'w \<Rightarrow> goerror option \<times> 'w"
  sl_Start :: "'w \<Rightarrow> goerror option \<times> 'w"

section \<open>muto-operator\<close>

definition newManager ::
    "('w, 'k, 'cfg, 'f, 'sc) operator_lib \<Rightarrow> 'sc \<Rightarrow> string \<Rightarrow> string \<Rightarrow> 'w sys_state
     \<Rightarrow> ('k, 'sc) kmanager res \<times> 'w sys_state" where
  "newManager sl scheme metricsAddr probeAddr s =
     (case api (NewManager metricsAddr probeAddr) (sl_NewManager sl scheme metricsAddr probeAddr) s of
        (Inl err, s1) \<Rightarrow> (Inl err, s1)
      | (Inr mgr, s1) \<Rightarrow>
          (case api_err AddHealthzCheck (sl_AddHealthz sl) s1 of
             (Some err, s2) \<Rightarrow> (Inl (Wrapped ''adding healthz check: '' err), s2)
           | (None, s2) \<Rightarrow>
               (case api_err AddReadyzCheck (sl_AddReadyz sl) s2 of
                  (Some err, s3) \<Rightarrow> (Inl (Wrapped ''adding readyz check: '' err), s3)
                | (None, s3) \<Rightarrow> (Inr mgr, s3))))"

datatype ('k, 'f) platform =
    K8sPlatform "('k, kube_call, 'k k8s_turn) adapter"
  | CFPlatform "('f cf_world, cf_call, 'f cf_turn) adapter"

text \<open>The \<open>switch platform\<close>: no adapter when the program returns 1\<close>

definition platform_adapter ::
    "'w os \<Rightarrow> ('w, 'k, 'cfg, 'f, 'sc) operator_lib \<Rightarrow> 'sc \<Rightarrow> string \<Rightarrow> 'w sys_state
     \<Rightarrow> ('k, 'f) platform option \<times> 'w sys_state" where
  "platform_adapter os sl scheme platform s =
     (if platform = ''k8s'' then
        let namespace = OrDefault os ''MUTO_NAMESPACE'' ''default'' s in
        (case api NewKubeClient (sl_NewClient sl scheme) s of
           (Inl err, s1) \<Rightarrow> (None, emit (LogError (Some err) ''unable to create k8s client for adapter'') s1)
         | (Inr c, s1) \<Rightarrow> (Some (K8sPlatform (WrapPlatformAdapter (NewK8sAdapter c namespace))), s1))
      else if platform = ''cf'' then
        let url = getenv os ''CF_API_URL'' s; user = getenv os ''CF_USERNAME'' s; pw = getenv os ''CF_PASSWORD'' s in
        (case api (NewCFClient url user pw)
                (\<lambda>w. let (cfg, w') = sl_cf_config sl url user pw w in (NewRealCFClient cfg (sl_cf_lib sl), w')) s of
           (Inl err, s1) \<Rightarrow> (None, emit (LogError (Some err) ''unable to create CF client'') s1)
         | (Inr cfClient, s1) \<Rightarrow>
             (Some (CFPlatform (WrapPlatformAdapter (NewCFAdapter cfClient (sl_cf_os sl)
                \<lparr>cfg_IsolationTier = getenv os ''CF_ISOLATION_TIER'' s1,
                 cfg_SharedOrgName = getenv os ''CF_SHARED_ORG'' s1\<rparr>))), s1))
      else (None, emit (LogError None ''unknown MUTO_PLATFORM value'') s))"

text \<open>The calls of \<open>SetupWithManager\<close>, in order, up to the first error\<close>

fun setup_reconcilers ::
    "('w, 'k, 'cfg, 'f, 'sc) operator_lib \<Rightarrow> (string \<times> 'k controller) list \<Rightarrow> 'w sys_state \<Rightarrow> bool \<times> 'w sys_state" where
  "setup_reconcilers sl [] s = (True, s)"
| "setup_reconcilers sl ((n, r) # rs) s =
     (case api_err (SetupReconciler (ctl_For r) (ctl_Owns r)) (sl_Setup sl r) s of
        (Some err, s1) \<Rightarrow> (False, emit (LogError (Some err) (''unable to create '' @ n)) s1)
      | (None, s1) \<Rightarrow> setup_reconcilers sl rs s1)"

text \<open>From the metrics address to the end of \<open>run\<close>\<close>

definition operator_serve ::
    "'w os \<Rightarrow> ('w, 'k, 'cfg, 'f, 'sc) operator_lib \<Rightarrow> 'sc \<Rightarrow> 'w sys_state \<Rightarrow> nat \<times> 'w sys_state" where
  "operator_serve os sl scheme s =
     (let metricsAddr = OrDefault os ''MUTO_METRICS_BIND_ADDRESS'' '':8080'' s;
          probeAddr = OrDefault os ''MUTO_HEALTH_PROBE_BIND_ADDRESS'' '':8081'' s in
      case api_err GetConfig (sl_GetConfig sl) s of
        (Some err, s1) \<Rightarrow> (1, emit (LogError (Some err) ''unable to load kubeconfig'') s1)
      | (None, s1) \<Rightarrow>
      (case newManager sl scheme metricsAddr probeAddr s1 of
         (Inl err, s2) \<Rightarrow> (1, emit (LogError (Some err) ''unable to start manager'') s2)
       | (Inr mgr, s2) \<Rightarrow>
       (let platform = OrDefault os ''MUTO_PLATFORM'' ''k8s'' s2 in
        case platform_adapter os sl scheme platform s2 of
          (None, s3) \<Rightarrow> (1, s3)
        | (Some adapter, s3) \<Rightarrow>
        (case setup_reconcilers sl (the_reconcilers (sl_kube_os sl) (sl_ctrl_lib sl) mgr)
                 (emit (LogInfo ''platform adapter initialized'') s3) of
           (False, s4) \<Rightarrow> (1, s4)
         | (True, s4) \<Rightarrow>
         (case api_err MgrStart (sl_Start sl) (emit (LogInfo ''starting muto-operator'') s4) of
            (Some err, s5) \<Rightarrow> (1, emit (LogError (Some err) ''operator exited with error'') s5)
          | (None, s5) \<Rightarrow> (0, s5))))))"

text \<open>The part of \<open>run\<close> under the deferred shutdown, with the callbacks registered when it returns\<close>

definition operator_body ::
    "'w os \<Rightarrow> 'w otel_lib \<Rightarrow> ('w, 'k, 'cfg, 'f, 'sc) operator_lib \<Rightarrow> 'sc \<Rightarrow> 'w sys_state
     \<Rightarrow> nat \<times> ('w, sys_call) shutdown_func list \<times> 'w sys_state" where
  "operator_body os ol sl scheme s =
     (case tracing_Init os ol ''muto-operator'' s of
        (Inl err, s1) \<Rightarrow> (1, [], emit (LogError (Some err) ''unable to initialize tracing'') s1)
      | (Inr shutdownTracing, s1) \<Rightarrow>
          (let shutdowns = [\<lparr>sf_Name = ''tracing'', sf_Run = shutdownTracing\<rparr>] in
           case metrics_Init os ol ''muto-operator'' s1 of
             (Inl err, s2) \<Rightarrow> (1, shutdowns, emit (LogError (Some err) ''unable to initialize OTLP metrics'') s2)
           | (Inr shutdownOTLPMetrics, s2) \<Rightarrow>
               (let (code, s3) = operator_serve os sl scheme s2
                in (code, shutdowns @ [\<lparr>sf_Name = ''OTLP metrics'', sf_Run = shutdownOTLPMetrics\<rparr>], s3))))"

text \<open>
  \<open>perm\<close> is the order in which the shutdown callbacks happen to run. The message of a bad
  logging configuration goes to the standard error. The scheme is a variable of the package, filled by \<open>init\<close>.
\<close>

definition operator_run ::
    "(('w, sys_call) shutdown_func list \<Rightarrow> ('w, sys_call) shutdown_func list) \<Rightarrow> 'w os \<Rightarrow> 'w otel_lib
     \<Rightarrow> ('b, 'sc) scheme_lib \<Rightarrow> ('w, 'k, 'cfg, 'f, 'sc) operator_lib \<Rightarrow> 'w sys_state \<Rightarrow> nat \<times> 'w sys_state" where
  "operator_run perm os ol SL sl s =
     (let logFormat = OrDefault os ''MUTO_LOG_FORMAT'' ''json'' s;
          logLevel = OrDefault os ''MUTO_LOG_LEVEL'' ''info'' s in
      case BuildLogger logFormat logLevel of
        Inl err \<Rightarrow> (1, emit (LogError (Some err) ''invalid logging configuration'') s)
      | Inr logger \<Rightarrow>
          (let (code, shutdowns, s1) = operator_body os ol sl (operator_scheme SL) s
           in (code, shutdown_All (perm shutdowns) s1)))"

section \<open>muto-mcp\<close>

type_synonym 'k mcp_state = "'k k8s_turn DefaultScheduler \<times> 'k kstate"

record ('w, 'k, 'sc) mcp_prog_lib =
  ms_GetConfig :: "'w \<Rightarrow> goerror option \<times> 'w"
  ms_NewClient :: "'sc \<Rightarrow> 'w \<Rightarrow> 'k kclient res \<times> 'w"
  ms_ServeStdio :: "'k mcp_state MutoMCPServer \<Rightarrow> 'w \<Rightarrow> goerror option \<times> 'w"

definition mcp_serve ::
    "'w os \<Rightarrow> ('b, 'sc) scheme_lib \<Rightarrow> mcp_lib \<Rightarrow> string list \<Rightarrow> ('w, 'k, 'sc) mcp_prog_lib \<Rightarrow> 'w sys_state
     \<Rightarrow> nat \<times> 'w sys_state" where
  "mcp_serve os SL L order ms s =
     (let scheme = mcp_scheme SL in
      case api_err GetConfig (ms_GetConfig ms) s of
        (Some err, s1) \<Rightarrow> (1, emit (LogError (Some err) ''unable to load kubeconfig'') s1)
      | (None, s1) \<Rightarrow>
      (case api NewKubeClient (ms_NewClient ms scheme) s1 of
         (Inl err, s2) \<Rightarrow> (1, emit (LogError (Some err) ''unable to create k8s client'') s2)
       | (Inr c, s2) \<Rightarrow>
       (let namespace = OrDefault os ''MUTO_NAMESPACE'' ''default'' s2;
            adapter = WrapPlatformAdapter (NewK8sAdapter c namespace);
            sched = muto_scheduler adapter;
            srv = MCP_New sched_emit L sched order in
        case api_err ServeStdio (ms_ServeStdio ms srv) (emit (LogInfo ''starting muto-mcp server (stdio)'') s2) of
          (Some err, s3) \<Rightarrow> (1, emit (LogError (Some err) ''mcp server exited'') s3)
        | (None, s3) \<Rightarrow> (0, s3))))"

definition mcp_run ::
    "'w os \<Rightarrow> 'w otel_lib \<Rightarrow> ('b, 'sc) scheme_lib \<Rightarrow> mcp_lib \<Rightarrow> string list \<Rightarrow> ('w, 'k, 'sc) mcp_prog_lib
     \<Rightarrow> 'w sys_state \<Rightarrow> nat \<times> 'w sys_state" where
  "mcp_run os ol SL L order ms s =
     (let logFormat = OrDefault os ''MUTO_LOG_FORMAT'' ''json'' s;
          logLevel = OrDefault os ''MUTO_LOG_LEVEL'' ''info'' s in
      case BuildLogger logFormat logLevel of
        Inl err \<Rightarrow> (1, emit (LogError (Some err) ''invalid logging configuration'') s)
      | Inr logger \<Rightarrow>
          (case tracing_Init os ol ''muto-mcp'' s of
             (Inl err, s1) \<Rightarrow> (1, emit (LogError (Some err) ''unable to initialize tracing'') s1)
           | (Inr shutdownTracing, s1) \<Rightarrow>
               (let (code, s2) = mcp_serve os SL L order ms s1
                in (code, shutdown_All [\<lparr>sf_Name = ''tracing'', sf_Run = shutdownTracing\<rparr>] s2))))"

section \<open>No exporter outlives a program\<close>

lemma open_api: "api c f s = (r, s') \<Longrightarrow> open_exporters s' = open_exporters s"
  by (auto simp: api_def split: prod.splits)

lemma open_api_err: "api_err c f s = (r, s') \<Longrightarrow> open_exporters s' = open_exporters s"
  by (auto simp: api_err_def split: prod.splits)

lemma open_setup: "setup_reconcilers sl rs s = (ok, s') \<Longrightarrow> open_exporters s' = open_exporters s"
proof (induction rs arbitrary: s)
  case (Cons nr rs)
  obtain n r where nr: "nr = (n, r)" by fastforce
  obtain e s1 where run: "api_err (SetupReconciler (ctl_For r) (ctl_Owns r)) (sl_Setup sl r) s = (e, s1)" by fastforce
  with open_api_err [OF run] Cons nr show ?case by (cases e) auto
qed simp

lemma open_platform: "platform_adapter os sl sc p s = (a, s') \<Longrightarrow> open_exporters s' = open_exporters s"
  by (auto simp: platform_adapter_def Let_def dest!: open_api split: if_splits prod.splits sum.splits)

lemma open_newManager: "newManager sl sc m p s = (e, s') \<Longrightarrow> open_exporters s' = open_exporters s"
  by (auto simp: newManager_def dest!: open_api_err open_api split: prod.splits option.splits sum.splits)

lemma open_operator_serve: "operator_serve os sl sc s = (code, s') \<Longrightarrow> open_exporters s' = open_exporters s"
  by (auto simp: operator_serve_def Let_def dest!: open_api_err open_newManager open_platform open_setup
      split: prod.splits option.splits bool.splits sum.splits)

lemma open_mcp_serve: "mcp_serve os SL L order ms s = (code, s') \<Longrightarrow> open_exporters s' = open_exporters s"
  by (auto simp: mcp_serve_def Let_def dest!: open_api_err open_api split: prod.splits option.splits sum.splits)

text \<open>What a list of callbacks closes, in any order\<close>

definition closing :: "('w, 'c) shutdown_func \<Rightarrow> bool" where
  "closing f \<longleftrightarrow> (\<exists>n. closes n (sf_Run f))"

definition amount :: "('w, 'c) io_state \<Rightarrow> ('w, 'c) shutdown_func \<Rightarrow> int" where
  "amount s0 f = open_exporters s0 - open_exporters (snd (sf_Run f s0))"

lemma amount_closes: "closes n (sf_Run f) \<Longrightarrow> amount s0 f = n"
  by (simp add: amount_def closes_def)

lemma open_shutdown_any_order:
  assumes "\<And>xs. mset (perm xs) = mset xs" and "\<forall>f\<in>set fns. closing f"
  shows "open_exporters (shutdown_All (perm fns) s) = open_exporters s - (\<Sum>f\<leftarrow>fns. amount s0 f)"
proof -
  have "set (perm fns) = set fns" using assms(1) by (metis set_mset_mset)
  then have "\<forall>f\<in>set (perm fns). closing f" using assms(2) by simp
  then have "\<forall>f\<in>set (perm fns). closes (amount s0 f) (sf_Run f)"
    by (auto simp: closing_def amount_closes)
  then have "list_all2 (\<lambda>f n. closes n (sf_Run f)) (perm fns) (map (amount s0) (perm fns))"
    by (simp add: list_all2_conv_all_nth)
  from open_shutdown_All [OF this]
  have "open_exporters (shutdown_All (perm fns) s) = open_exporters s - (\<Sum>f\<leftarrow>perm fns. amount s0 f)" .
  moreover have "(\<Sum>f\<leftarrow>perm fns. amount s0 f) = (\<Sum>f\<leftarrow>fns. amount s0 f)"
    using assms(1) by (metis mset_map sum_mset_sum_list)
  ultimately show ?thesis by simp
qed

lemma balanced_Inr: "balanced s (Inr f) s' \<Longrightarrow> closes (open_exporters s' - open_exporters s) f"
  by (simp add: balanced_def)

lemma operator_body_balanced:
  assumes "operator_body os ol sl sc s = (code, fns, s')"
  shows "(\<forall>f\<in>set fns. closing f) \<and> open_exporters s' = open_exporters s + (\<Sum>f\<leftarrow>fns. amount s0 f)"
proof -
  obtain x s1 where 1: "tracing_Init os ol ''muto-operator'' s = (x, s1)" by fastforce
  obtain y s2 where 2: "metrics_Init os ol ''muto-operator'' s1 = (y, s2)" by fastforce
  obtain c s3 where 3: "operator_serve os sl sc s2 = (c, s3)" by fastforce
  note b1 = tracing_Init_balanced [OF 1] and b2 = metrics_Init_balanced [OF 2] and o3 = open_operator_serve [OF 3]
  show ?thesis
  proof (cases x)
    case (Inl e)
    then show ?thesis using assms b1 by (auto simp: operator_body_def 1 balanced_def)
  next
    case (Inr f)
    note cf = balanced_Inr [OF b1 [unfolded Inr]]
    show ?thesis
    proof (cases y)
      case (Inl e)
      then show ?thesis using assms b2 cf \<open>x = Inr f\<close>
        by (auto simp: operator_body_def 1 2 balanced_def closing_def amount_closes)
    next
      case (Inr g)
      with b2 have "closes (open_exporters s2 - open_exporters s1) g" by (simp add: balanced_def)
      moreover from this cf have "closing \<lparr>sf_Name = n, sf_Run = f\<rparr>" "closing \<lparr>sf_Name = n, sf_Run = g\<rparr>" for n
        unfolding closing_def by auto
      ultimately show ?thesis using assms cf \<open>x = Inr f\<close> Inr o3
        by (auto simp: operator_body_def 1 2 3 amount_closes)
    qed
  qed
qed

text \<open>
  C37. Every exporter of telemetry a program opens is shut down before the program exits, once,
  whatever fails: by its provider's shutdown callback when the telemetry started, in any order
  of the callbacks, and by the failing start itself otherwise.
\<close>

theorem programs_close_exporters:
  assumes "\<And>xs. mset (perm xs) = mset xs"
  shows "open_exporters (snd (operator_run perm os ol SL sl s)) = open_exporters s
    \<and> open_exporters (snd (mcp_run os ol SL L order ms s)) = open_exporters s"
proof
  obtain code fns s1 where body: "operator_body os ol sl (operator_scheme SL) s = (code, fns, s1)" by (metis prod.collapse)
  from operator_body_balanced [OF body, of s1] open_shutdown_any_order [of perm fns s1 s1] assms
  show "open_exporters (snd (operator_run perm os ol SL sl s)) = open_exporters s"
    by (simp add: operator_run_def body Let_def split: sum.split)
next
  obtain x s1 where 1: "tracing_Init os ol ''muto-mcp'' s = (x, s1)" by fastforce
  obtain c s2 where 2: "mcp_serve os SL L order ms s1 = (c, s2)" by fastforce
  note b = tracing_Init_balanced [OF 1] and o2 = open_mcp_serve [OF 2]
  show "open_exporters (snd (mcp_run os ol SL L order ms s)) = open_exporters s"
  proof (cases x)
    case (Inl e)
    then show ?thesis using b by (simp add: mcp_run_def 1 Let_def balanced_def split: sum.split)
  next
    case (Inr f)
    with b have f: "closes (open_exporters s1 - open_exporters s) f" by (simp add: balanced_def)
    obtain e s3 where run: "f s2 = (e, s3)" by fastforce
    with f o2 have "open_exporters s3 = open_exporters s" unfolding closes_def by (metis diff_diff_eq2 add_diff_cancel_left' snd_conv)
    then show ?thesis by (simp add: mcp_run_def 1 2 Inr run Let_def split: sum.split option.split)
  qed
qed

section \<open>The order of the operator's start\<close>

text \<open>The calls of a plan, in order, up to the first that fails; the flag says that none failed\<close>

fun follows :: "'c list \<Rightarrow> ('c \<times> goerror option) list \<Rightarrow> bool \<Rightarrow> bool" where
  "follows [] cs ok = (cs = [] \<and> ok)"
| "follows (p # ps) [] ok = False"
| "follows (p # ps) ((c, e) # cs) ok =
     (c = p \<and> (case e of None \<Rightarrow> follows ps cs ok | Some _ \<Rightarrow> cs = [] \<and> \<not> ok))"

text \<open>The environment of a process does not change while it starts.\<close>

definition fixed_env :: "'w os \<Rightarrow> (string \<Rightarrow> string) \<Rightarrow> bool" where
  "fixed_env os E \<longleftrightarrow> (\<forall>k w. os_getenv os k w = E k)"

definition or_default :: "(string \<Rightarrow> string) \<Rightarrow> string \<Rightarrow> string \<Rightarrow> string" where
  "or_default E k d = (if E k \<noteq> [] then E k else d)"

definition manager_plan :: "(string \<Rightarrow> string) \<Rightarrow> sys_call list" where
  "manager_plan E = [GetConfig, NewManager (or_default E ''MUTO_METRICS_BIND_ADDRESS'' '':8080'')
     (or_default E ''MUTO_HEALTH_PROBE_BIND_ADDRESS'' '':8081''), AddHealthzCheck, AddReadyzCheck]"

definition platform_plan :: "(string \<Rightarrow> string) \<Rightarrow> sys_call list" where
  "platform_plan E = (if or_default E ''MUTO_PLATFORM'' ''k8s'' = ''k8s'' then [NewKubeClient]
     else [NewCFClient (E ''CF_API_URL'') (E ''CF_USERNAME'') (E ''CF_PASSWORD'')])"

definition setup_plan :: "(go_type \<times> go_type list) list \<Rightarrow> sys_call list" where
  "setup_plan = map (\<lambda>(t, ts). SetupReconciler t ts)"

definition operator_plan :: "(string \<Rightarrow> string) \<Rightarrow> sys_call list" where
  "operator_plan E = manager_plan E @ platform_plan E @ setup_plan watched_types @ [MgrStart]"

lemma OrDefault_fixed: "fixed_env os E \<Longrightarrow> OrDefault os k d s = or_default E k d"
  by (simp add: OrDefault_def getenv_def fixed_env_def or_default_def Let_def)

lemma getenv_fixed: "fixed_env os E \<Longrightarrow> getenv os k s = E k"
  by (simp add: getenv_def fixed_env_def)

lemma calls_emit_log [simp]:
  "calls (trace (emit (LogError e m) s)) = calls (trace s)" "calls (trace (emit (LogInfo m) s)) = calls (trace s)"
  "calls (trace (emit (Sdk n r) s)) = calls (trace s)"
  by simp_all

lemma sys_calls_api_err: "api_err c f s = (r, s') \<Longrightarrow> calls (trace s') = calls (trace s) @ [(c, r)]"
  by (simp add: api_err_trace)

lemma sys_calls_api: "api c f s = (r, s') \<Longrightarrow> calls (trace s') = calls (trace s) @ [(c, err_of r)]"
  by (simp add: api_trace)

lemma follows_append:
  "follows ps cs ok \<Longrightarrow> \<not> ok \<Longrightarrow> follows (ps @ qs) cs False"
  "follows ps cs True \<Longrightarrow> follows qs cs' ok \<Longrightarrow> follows (ps @ qs) (cs @ cs') ok"
  by (induction ps cs ok rule: follows.induct) (auto split: option.splits)

text \<open>Each part of \<open>operator_serve\<close> follows its part of the plan.\<close>

definition segment :: "sys_call list \<Rightarrow> 'w sys_state \<Rightarrow> bool \<Rightarrow> 'w sys_state \<Rightarrow> bool" where
  "segment p s ok s' \<longleftrightarrow> (\<exists>cs. calls (trace s') = calls (trace s) @ cs \<and> follows p cs ok)"

lemma segment_Nil [simp]: "calls (trace s') = calls (trace s) \<Longrightarrow> segment [] s ok s' = ok"
  by (simp add: segment_def)

lemma segment_log [simp]:
  "segment p (emit (LogInfo m) s) ok s' = segment p s ok s'" "segment p s ok (emit (LogInfo m) s') = segment p s ok s'"
  "segment p s ok (emit (LogError e m) s') = segment p s ok s'"
  by (simp_all add: segment_def)

lemma segment_stop: "segment p s False s' \<Longrightarrow> segment (p @ q) s False s'"
  by (auto simp: segment_def intro: follows_append(1))

lemma segment_then: "segment p s True s1 \<Longrightarrow> segment q s1 ok s2 \<Longrightarrow> segment (p @ q) s ok s2"
  unfolding segment_def by (metis append_assoc follows_append(2))

lemmas segment_Cons_stop = segment_stop [of "[c]" for c, simplified]
  and segment_Cons_then = segment_then [of "[c]" for c, simplified]

lemma segment_api_err: "api_err c f s = (r, s') \<Longrightarrow> segment [c] s (r = None) s'"
  by (drule sys_calls_api_err) (simp add: segment_def split: option.splits)

lemma newManager_follows:
  "newManager sl sc m p s = (x, s') \<Longrightarrow> segment [NewManager m p, AddHealthzCheck, AddReadyzCheck] s (\<not> isl x) s'"
  by (auto simp: newManager_def segment_def err_of_def dest!: sys_calls_api_err sys_calls_api
      split: prod.splits option.splits sum.splits)

lemma platform_follows:
  assumes "platform_adapter os sl sc (or_default E ''MUTO_PLATFORM'' ''k8s'') s = (a, s')" and "fixed_env os E"
  shows "if or_default E ''MUTO_PLATFORM'' ''k8s'' \<in> {''k8s'', ''cf''}
    then segment (platform_plan E) s (a \<noteq> None) s' else a = None \<and> segment [] s True s'"
  using assms(1)
  by (auto simp: platform_adapter_def platform_plan_def segment_def Let_def getenv_fixed [OF assms(2)] err_of_def
      dest!: sys_calls_api split: if_splits prod.splits sum.splits)

lemma setup_follows:
  "setup_reconcilers sl rs s = (ok, s') \<Longrightarrow>
     segment (setup_plan (map (\<lambda>(n, c). (ctl_For c, ctl_Owns c)) rs)) s ok s'"
proof (induction rs arbitrary: s)
  case (Cons nr rs)
  obtain n r where nr: "nr = (n, r)" by fastforce
  let ?c = "SetupReconciler (ctl_For r) (ctl_Owns r)"
  obtain e s1 where run: "api_err ?c (sl_Setup sl r) s = (e, s1)" by fastforce
  note here = segment_api_err [OF run]
  show ?case
  proof (cases e)
    case None
    with Cons.prems run nr have "setup_reconcilers sl rs s1 = (ok, s')" by simp
    from segment_then [OF _ Cons.IH [OF this]] here None nr show ?thesis by (fastforce simp: setup_plan_def)
  next
    case (Some x)
    with Cons.prems run here nr show ?thesis using segment_stop [of "[?c]" s s'] by (auto simp: setup_plan_def)
  qed
qed (simp add: setup_plan_def)

text \<open>From the reconcilers on: the flag and the last call decide the exit code.\<close>

lemma serve_from_reconcilers:
  assumes "setup_reconcilers sl (the_reconcilers kos cl mgr) s = (ok, s1)"
    and "(if ok then case api_err MgrStart (sl_Start sl) (emit (LogInfo m) s1) of
            (Some err, s2) \<Rightarrow> (1, emit (LogError (Some err) m') s2) | (None, s2) \<Rightarrow> (0, s2)
          else (1 :: nat, s1)) = (code, s')"
  shows "code \<in> {0, 1} \<and> segment (setup_plan watched_types @ [MgrStart]) s (code = 0) s'"
proof -
  have su: "segment (setup_plan watched_types) s ok s1"
    using setup_follows [OF assms(1)] by (simp only: the_reconcilers_watch)
  show ?thesis
  proof (cases ok)
    case False
    with assms su show ?thesis by (auto intro: segment_stop)
  next
    case True
    obtain e s2 where run: "api_err MgrStart (sl_Start sl) (emit (LogInfo m) s1) = (e, s2)" by fastforce
    have "segment (setup_plan watched_types @ [MgrStart]) s (e = None) s2"
      using su segment_api_err [OF run] True by (auto intro: segment_then)
    with assms(2) True run show ?thesis by (auto split: option.splits)
  qed
qed

text \<open>
  C38. The operator starts in one order: the cluster's configuration, the manager on the
  configured addresses with both health checks, the platform's client, the reconcilers of
  tenants, jobs and fleets, and only then the manager. It stops at the first call that fails
  and exits 1; it exits 0 exactly when every call succeeds. On an unknown platform it exits 1
  before any reconciler is set up.
\<close>

theorem operator_start_order:
  assumes "fixed_env os E" and "operator_serve os sl scheme s = (code, s')"
  shows "code \<in> {0, 1} \<and> (\<exists>cs. calls (trace s') = calls (trace s) @ cs
    \<and> (if or_default E ''MUTO_PLATFORM'' ''k8s'' \<in> {''k8s'', ''cf''}
       then follows (operator_plan E) cs (code = 0)
       else code = 1 \<and> (\<exists>ok. follows (manager_plan E) cs ok)))"
proof -
  let ?p = "or_default E ''MUTO_PLATFORM'' ''k8s''" and ?M = "manager_plan E"
  let ?m = "or_default E ''MUTO_METRICS_BIND_ADDRESS'' '':8080''"
  let ?h = "or_default E ''MUTO_HEALTH_PROBE_BIND_ADDRESS'' '':8081''"
  let ?R = "setup_plan watched_types @ [MgrStart]"
  obtain e1 s1 where 1: "api_err GetConfig (sl_GetConfig sl) s = (e1, s1)" by fastforce
  obtain x2 s2 where 2: "newManager sl scheme ?m ?h s1 = (x2, s2)" by fastforce
  obtain a s3 where 3: "platform_adapter os sl scheme ?p s2 = (a, s3)" by fastforce
  note run = assms(2) [unfolded operator_serve_def OrDefault_fixed [OF assms(1)] Let_def 1]
  have M: "?M = [GetConfig] @ [NewManager ?m ?h, AddHealthzCheck, AddReadyzCheck]" by (simp add: manager_plan_def)
  note p = platform_follows [OF 3 assms(1)]
  have "code \<in> {0, 1} \<and> (if ?p \<in> {''k8s'', ''cf''} then segment (operator_plan E) s (code = 0) s'
      else code = 1 \<and> (\<exists>ok. segment ?M s ok s'))"
  proof (cases "e1 = None \<and> \<not> isl x2")
    case False
    then have "code = 1 \<and> segment ?M s False s'"
      using run 2 segment_api_err [OF 1] newManager_follows [OF 2] unfolding M
      by (auto split: option.splits sum.splits intro: segment_Cons_stop segment_Cons_then)
    then show ?thesis by (auto simp: operator_plan_def intro: segment_stop)
  next
    case True
    then obtain mgr where mgr: "x2 = Inr mgr" by (cases x2) auto
    have m: "segment ?M s True s2"
      using segment_Cons_then [OF _ newManager_follows [OF 2]] segment_api_err [OF 1] True unfolding M by simp
    show ?thesis
    proof (cases a)
      case None
      with run True mgr 2 3 have "code = 1" "s' = s3" by simp_all
      with p None segment_then [OF m, of "[]" True s3] segment_then [OF m segment_stop, of "platform_plan E" s3 ?R]
      show ?thesis by (auto simp: operator_plan_def split: if_splits)
    next
      case (Some adapter)
      with p have pk: "?p \<in> {''k8s'', ''cf''}" "segment (platform_plan E) s2 True s3" by (auto split: if_splits)
      obtain ok s4 where 4: "setup_reconcilers sl (the_reconcilers (sl_kube_os sl) (sl_ctrl_lib sl) mgr)
          (emit (LogInfo ''platform adapter initialized'') s3) = (ok, s4)" by fastforce
      have "code \<in> {0, 1} \<and> segment ?R s3 (code = 0) s'"
        using serve_from_reconcilers [OF 4, of "''operator exited with error''" "''starting muto-operator''" code s']
          run True mgr 2 3 4 Some by (simp split: bool.splits)
      with pk segment_then [OF m segment_then [OF pk(2)], of ?R "code = 0" s'] show ?thesis
        by (simp add: operator_plan_def)
    qed
  qed
  then show ?thesis by (auto simp: segment_def split: if_splits)
qed

section \<open>A process\<close>

text \<open>
  Telemetry is configured but an instrument cannot be created; the environment asks for the
  platform given.
\<close>

definition demo_process_os :: "string \<Rightarrow> unit os" where
  "demo_process_os platform = \<lparr>os_now = (\<lambda>w. (0, w)),
     os_getenv = (\<lambda>k w. if k = ''OTEL_EXPORTER_OTLP_ENDPOINT'' then ''http://otel'' else if k = ''MUTO_PLATFORM'' then platform else []),
     os_rand = (\<lambda>n w. (Inr [], w))\<rparr>"

definition demo_otel :: "unit otel_lib" where
  "demo_otel = \<lparr>ol_NewTraceExporter = (\<lambda>w. (Inr 0, w)), ol_NewMetricExporter = (\<lambda>w. (Inr 1, w)),
     ol_ShutdownExporter = (\<lambda>n w. (None, w)), ol_NewResource = (\<lambda>n w. ((0, None), w)),
     ol_NewTracerProvider = (\<lambda>e r. e), ol_ShutdownTracer = (\<lambda>n w. (None, w)),
     ol_NewMeterProvider = (\<lambda>e r. e), ol_ShutdownMeter = (\<lambda>n w. (None, w)),
     ol_NewInstrument = (\<lambda>m i w. (Some (Errorf ''bad instrument''), w))\<rparr>"

definition demo_operator :: "(unit, unit, unit, unit, go_type list) operator_lib" where
  "demo_operator = \<lparr>sl_GetConfig = (\<lambda>w. (None, w)),
     sl_NewManager = (\<lambda>sc m p w. (Inr \<lparr>mgr_GetClient = bare_client, mgr_GetScheme = sc\<rparr>, w)),
     sl_AddHealthz = (\<lambda>w. (None, w)), sl_AddReadyz = (\<lambda>w. (None, w)), sl_NewClient = (\<lambda>sc w. (Inl (Errorf ''no client''), w)),
     sl_cf_config = (\<lambda>a b c w. (Inl (Errorf ''no foundation''), w)), sl_cf_lib = (\<lambda>c. Inl (Errorf ''no foundation'')),
     sl_cf_os = demo_process_os [], sl_kube_os = demo_os, sl_ctrl_lib = demo_lib,
     sl_Setup = (\<lambda>c w. (None, w)), sl_Start = (\<lambda>w. (None, w))\<rparr>"

text \<open>A scheme is the list of its types, a builder the list of those registered.\<close>

definition demo_schemes :: "(go_type list, go_type list) scheme_lib" where
  "demo_schemes = \<lparr>scl_Builder = (\<lambda>gv. []), scl_Register = (@), scl_AddToScheme = (\<lambda>b sc. (None, sc @ b)), scl_NewScheme = [],
     scl_corev1_AddToScheme = (\<lambda>sc. (None, sc @ map (Pair corev1_pkg) [''Pod'', ''PodList'', ''Secret'', ''Service'', ''Namespace'']))\<rparr>"

lemma demo_schemes_documented:
  "schemes_documented demo_schemes set set
     (Pair corev1_pkg ` {''Pod'', ''PodList'', ''Secret'', ''Service'', ''Namespace''}) {}"
  by (auto simp: schemes_documented_def demo_schemes_def pod_list_type_def)

definition demo_process :: "unit sys_state" where
  "demo_process = \<lparr>world = (), trace = [], ctx_next = 0, ctx_done = [], otlp_active = False\<rparr>"

definition demo_mcp_prog :: "(unit, unit, go_type list) mcp_prog_lib" where
  "demo_mcp_prog = \<lparr>ms_GetConfig = (\<lambda>w. (None, w)), ms_NewClient = (\<lambda>sc w. (Inr bare_client, w)),
     ms_ServeStdio = (\<lambda>srv w. (None, w))\<rparr>"

theorem programs_close_exporters_witness:
  "open_exporters (snd (operator_run rev (demo_process_os ''k8s'') demo_otel demo_schemes demo_operator demo_process)) = 0
    \<and> open_exporters (snd (mcp_run (demo_process_os ''k8s'') demo_otel demo_schemes demo_mcp [] demo_mcp_prog demo_process)) = 0"
proof -
  have "open_exporters demo_process = 0" by (simp add: demo_process_def open_exporters_def)
  then show ?thesis
    using programs_close_exporters [of rev "demo_process_os ''k8s''" demo_otel demo_schemes demo_operator demo_process demo_mcp "[]" demo_mcp_prog]
    by simp
qed

theorem operator_start_order_witness:
  "\<exists>code s' ok cs. operator_serve (demo_process_os ''vm'') demo_operator (operator_scheme demo_schemes) demo_process = (code, s') \<and> code = 1
    \<and> calls (trace s') = cs \<and> follows (manager_plan (\<lambda>k. os_getenv (demo_process_os ''vm'') k ())) cs ok"
proof -
  let ?E = "\<lambda>k. os_getenv (demo_process_os ''vm'') k ()"
  obtain code s' where run: "operator_serve (demo_process_os ''vm'') demo_operator (operator_scheme demo_schemes) demo_process = (code, s')" by fastforce
  have "fixed_env (demo_process_os ''vm'') ?E" by (simp add: fixed_env_def)
  moreover have "or_default ?E ''MUTO_PLATFORM'' ''k8s'' = ''vm''" by (simp add: or_default_def demo_process_os_def)
  ultimately show ?thesis
    using operator_start_order [of "demo_process_os ''vm''" ?E demo_operator "operator_scheme demo_schemes" demo_process code s'] run
    by (auto simp: demo_process_def)
qed

end
