(* ===== verification/Operator_Tenants.thy ===== *)
theory Operator_Tenants
  imports Programs Tenant_Convergence
begin

text \<open>
  The tenant reconciler as \<open>muto-operator\<close> runs it, over the client of its manager. The scheme of the
  operator (\<open>cmd/muto-operator/main.go\<close>) does not know the deployments of \<open>appsv1\<close>, so every request
  about one fails: what that means for tenants, over any number of reconciliations.
\<close>

section \<open>The requests of a run\<close>

text \<open>\<open>only P s s'\<close>: what was called on the way from \<open>s\<close> to \<open>s'\<close> satisfies \<open>P\<close>.\<close>

definition only :: "(kube_call \<Rightarrow> bool) \<Rightarrow> 'w kstate \<Rightarrow> 'w kstate \<Rightarrow> bool" where
  "only P s s' \<longleftrightarrow> (\<exists>cs. calls (trace s') = calls (trace s) @ cs \<and> (\<forall>c\<in>set cs. P (fst c)))"

lemma only_same: "calls (trace s') = calls (trace s) \<Longrightarrow> only P s s'"
  by (simp add: only_def)

lemma only_refl [simp, intro]: "only P s s"
  by (simp add: only_same)

lemma only_trans [trans]:
  assumes "only P s t" and "only P t u" shows "only P s u"
proof -
  obtain cs ds where "calls (trace t) = calls (trace s) @ cs" "\<forall>c\<in>set cs. P (fst c)"
    "calls (trace u) = calls (trace t) @ ds" "\<forall>c\<in>set ds. P (fst c)"
    using assms unfolding only_def by blast
  then show ?thesis unfolding only_def by (intro exI [of _ "cs @ ds"]) auto
qed

lemma only_api: "api c f s = (r, s') \<Longrightarrow> P c \<Longrightarrow> only P s s'"
  by (auto simp: only_def api_trace)

lemma only_api_err: "api_err c f s = (r, s') \<Longrightarrow> P c \<Longrightarrow> only P s s'"
  by (auto simp: only_def api_err_trace)

lemma only_log [simp]:
  "only P s (emit (LogInfo m) s') = only P s s'" "only P s (emit (LogError x m) s') = only P s s'"
  "only P (emit (LogInfo m) s) s' = only P s s'"
  by (simp_all add: only_def)

lemma only_now: "now os s = (t, s') \<Longrightarrow> only P s s'"
  by (simp add: only_def now_trace)

lemma only_ensure:
  assumes "\<And>s r s1. get s = (r, s1) \<Longrightarrow> only P s s1" and "\<And>s e s1. create s = (e, s1) \<Longrightarrow> only P s s1"
    and run: "ensure get create s = (e, s')"
  shows "only P s s'"
proof -
  obtain r s1 where 1: "get s = (r, s1)" by fastforce
  have "only P s1 s'" using assms(2) run 1 by (auto simp: ensure_def split: sum.splits if_splits)
  with assms(1) [OF 1] show ?thesis by (rule only_trans)
qed

section \<open>Requests that finish no tenant\<close>

text \<open>
  The readiness of a tenant with a gateway is not written, and no tenant with a namespace that is being
  deleted is updated, which is how its finalizer would be removed.
\<close>

fun unfinished :: "kube_call \<Rightarrow> bool" where
  "unfinished (KStatusUpdate (OTenant t)) = (\<not> dedicated_a2a t)"
| "unfinished (KUpdate (OTenant t)) = (IsZero (om_DeletionTimestamp (kt_Meta t)) \<or> tsp_Namespace (kt_Spec t) = [])"
| "unfinished _ = True"

lemma only_ensureNamespace: "ensureNamespace kc t s = (e, s') \<Longrightarrow> only unfinished s s'"
  unfolding ensureNamespace_def by (erule only_ensure [rotated 2]) (erule only_api only_api_err, simp)+

lemma only_generateToken: "generateToken os s = (r, s') \<Longrightarrow> only P s s'"
  by (auto simp: generateToken_def Let_def intro: only_same split: prod.splits sum.splits)

lemma only_ensureA2ASecret:
  assumes "ensureA2ASecret kc os ns owner s = (e, s')" shows "only unfinished s s'"
proof (rule only_ensure [OF _ _ assms [unfolded ensureA2ASecret_def]])
  fix s :: "'a kstate" and r s1
  assume "k_GetSecret kc (ns, ''muto-a2a-token'') s = (r, s1)"
  then show "only unfinished s s1" by (rule only_api) simp
next
  fix s :: "'a kstate" and e s1
  obtain tok s0 where tok: "generateToken os s = (tok, s0)" by fastforce
  assume "(case generateToken os s of (Inl err, s1) \<Rightarrow> (Some (Wrapped ''generate a2a token: '' err), s1)
    | (Inr token, s1) \<Rightarrow> k_Create kc (OSecret \<lparr>sec_Meta = zero_ObjectMeta
        \<lparr>om_Name := ''muto-a2a-token'', om_Namespace := ns, om_OwnerReferences := [owner]\<rparr>,
        sec_Data = [''token'' \<mapsto> token]\<rparr>) s1) = (e, s1)"
  then have "only unfinished s0 s1" using tok by (cases tok) (auto elim: only_api_err)
  with only_generateToken [OF tok] show "only unfinished s s1" by (rule only_trans)
qed

section \<open>A client without deployments\<close>

lemma ensureA2ADeployment_refused:
  assumes "refuses (kc_GetDeployment kc (ns, ''a2a-gateway''))" and "ensureA2ADeployment kc os ns owner s = (e, s')"
  shows "e \<noteq> None" "only unfinished s s'"
proof -
  obtain err where "kc_GetDeployment kc (ns, ''a2a-gateway'') (world s) = (Inl err, world s)" "\<not> IsNotFound err"
    using assms(1) unfolding refuses_def by blast
  with assms(2) show "e \<noteq> None" "only unfinished s s'"
    by (auto simp: ensureA2ADeployment_def ensure_def api_def err_of_def only_def)
qed

lemma gateway_refused:
  assumes "\<And>k. refuses (kc_GetDeployment kc k)" and "reconcileA2AGateway kc os cl t s = (e, s')"
  shows "e \<noteq> None" "only unfinished s s'"
proof -
  let ?ns = "tsp_Namespace (kt_Spec t)" and ?o = "cl_NewControllerRef cl (kt_Meta t) ''Tenant''"
  obtain e1 s1 where 1: "ensureA2ASecret kc os ?ns ?o s = (e1, s1)" by fastforce
  obtain e2 s2 where 2: "ensureA2ADeployment kc os ?ns ?o s1 = (e2, s2)" by fastforce
  note dep = ensureA2ADeployment_refused [OF assms(1) 2]
  have run: "e = (if e1 = None then e2 else e1) \<and> s' = (if e1 = None then s2 else s1)"
    using assms(2) 1 2 dep(1) by (cases e1; cases e2) (auto simp: reconcileA2AGateway_def Let_def)
  with dep(1) show "e \<noteq> None" by simp
  show "only unfinished s s'"
    using run only_ensureA2ASecret [OF 1] only_trans [OF only_ensureA2ASecret [OF 1] dep(2)] by simp
qed

lemma provision_refused:
  assumes "\<And>k. refuses (kc_GetDeployment kc k)" and run: "provision kc os cl t s = (r, s')"
  shows "dedicated_a2a t \<Longrightarrow> \<exists>e. r = Inl e" "only unfinished s s'"
proof -
  obtain e1 s1 where 1: "ensureNamespace kc t s = (e1, s1)" by fastforce
  obtain e2 s2 where 2: "(if dedicated_a2a t then reconcileA2AGateway kc os cl t s1 else (None, s1)) = (e2, s2)" by fastforce
  let ?t = "t\<lparr>kt_Status := (kt_Status t)\<lparr>tst_Ready := True\<rparr>\<rparr>"
  obtain x s3 where 3: "k_StatusUpdateTenant kc ?t s2 = (x, s3)" by fastforce
  have part: "(dedicated_a2a t \<longrightarrow> e2 \<noteq> None) \<and> only unfinished s1 s2"
    using 2 gateway_refused [OF assms(1), of os cl t s1 e2 s2] by (auto split: if_splits)
  have eq: "(r, s') = (case e1 of Some err \<Rightarrow> (Inl (Wrapped ''ensure namespace: '' err), s1)
    | None \<Rightarrow> (case e2 of Some err \<Rightarrow> (Inl (Wrapped ''reconcile a2a gateway: '' err), s2)
      | None \<Rightarrow> (case x of Inl err \<Rightarrow> (Inl err, s3) | Inr _ \<Rightarrow> (Inr 0, s3))))"
    using run 2 unfolding provision_def 1 dedicated_a2a_def by (simp add: 3 split: option.splits if_splits)
  show "\<exists>e. r = Inl e" if "dedicated_a2a t" using eq part that by (auto split: option.splits)
  have "only unfinished s2 s3" if "\<not> dedicated_a2a t"
    using 3 that by (auto simp: dedicated_a2a_def elim: only_api)
  then show "only unfinished s s'"
    using eq part only_ensureNamespace [OF 1] by (auto split: option.splits sum.splits intro: only_trans)
qed

lemma deletes_refused:
  assumes "\<And>d. refuses_err (kc_Delete kc (ODeployment d))" and "ns \<noteq> []" and "deleteA2AGatewayResources kc ns s = (e, s')"
  shows "e \<noteq> None" "only unfinished s s'"
proof -
  obtain err where "kc_Delete kc (gateway_deployment ns) (world s) = (Some err, world s)" "\<not> IsNotFound err"
    using assms(1) unfolding refuses_err_def gateway_deployment_def by blast
  with assms(2,3) show "e \<noteq> None" "only unfinished s s'"
    by (auto simp: deleteA2AGatewayResources_def delete_logged_def api_err_def only_def)
qed

lemma finalize_refused:
  assumes "\<And>d. refuses_err (kc_Delete kc (ODeployment d))" and lib: "finalizers_kept cl"
    and run: "finalizeTenant kc cl t s = (r, s')"
  shows "tenantFinalizer \<in> set (om_Finalizers (kt_Meta t)) \<and> tsp_Namespace (kt_Spec t) \<noteq> [] \<Longrightarrow> \<exists>e. r = Inl e"
    and "only unfinished s s'"
proof -
  let ?ns = "tsp_Namespace (kt_Spec t)" and ?s = "emit (LogInfo ''tenant marked for deletion, cleaning up gateway resources'') s"
  obtain e s1 where 1: "deleteA2AGatewayResources kc ?ns ?s = (e, s1)" by fastforce
  have del: "(?ns \<noteq> [] \<longrightarrow> e \<noteq> None) \<and> only unfinished s s1"
  proof (cases "?ns = []")
    case True
    with 1 show ?thesis by (auto simp: deleteA2AGatewayResources_def)
  next
    case False
    from deletes_refused [OF assms(1) False 1] show ?thesis by simp
  qed
  show "\<exists>e. r = Inl e" if "tenantFinalizer \<in> set (om_Finalizers (kt_Meta t)) \<and> ?ns \<noteq> []"
    using run del 1 lib that by (auto simp: finalizeTenant_def finalizers_kept_def Let_def split: option.splits)
  let ?s1 = "emit (LogInfo ''gateway resources cleaned up, removing tenant finalizer'') s1"
  let ?t = "t\<lparr>kt_Meta := cl_RemoveFinalizer cl (kt_Meta t) tenantFinalizer\<rparr>"
  obtain x s2 where 2: "k_UpdateTenant kc ?t ?s1 = (x, s2)" by fastforce
  have "only unfinished ?s1 s2" if "?ns = []" using that by (intro only_api [OF 2]) simp
  moreover consider "s' = s" | "e \<noteq> None" "only unfinished s s' = only unfinished s s1" | "e = None" "s' = s2"
    using run 1 2 by (cases e; cases x) (auto simp: finalizeTenant_def Let_def split: if_splits)
  ultimately show "only unfinished s s'"
    using del by cases (auto intro: only_trans)
qed

section \<open>One reconciliation\<close>

text \<open>A tenant the operator has work for that needs the deployment of its gateway\<close>

definition needs_deployment :: "KTenant \<Rightarrow> bool" where
  "needs_deployment t \<longleftrightarrow> tenantFinalizer \<in> set (om_Finalizers (kt_Meta t))
     \<and> (if IsZero (om_DeletionTimestamp (kt_Meta t)) then dedicated_a2a t else tsp_Namespace (kt_Spec t) \<noteq> [])"

lemma add_finalizer_only:
  assumes lib: "finalizers_kept cl" and "add_finalizer kc cl t s = (x, s')" and "IsZero (om_DeletionTimestamp (kt_Meta t))"
  shows "only unfinished s s'" "tenantFinalizer \<in> set (om_Finalizers (kt_Meta t)) \<Longrightarrow> x = Inr t"
proof -
  let ?t = "t\<lparr>kt_Meta := cl_AddFinalizer cl (kt_Meta t) tenantFinalizer\<rparr>"
  let ?s = "emit (LogInfo ''adding tenant finalizer'') s"
  obtain y s1 where 1: "k_UpdateTenant kc ?t ?s = (y, s1)" by fastforce
  have "IsZero (om_DeletionTimestamp (kt_Meta ?t))" using lib assms(3) by (simp add: finalizers_kept_def)
  then have "only unfinished ?s s1" by (intro only_api [OF 1]) simp
  moreover have "s' = s \<or> s' = s1"
    using assms(2) 1 by (auto simp: add_finalizer_def Let_def split: if_splits sum.splits)
  ultimately show "only unfinished s s'" by auto
  show "x = Inr t" if "tenantFinalizer \<in> set (om_Finalizers (kt_Meta t))"
    using assms(2) lib that by (simp add: add_finalizer_def finalizers_kept_def)
qed

lemma reconcile_refused:
  assumes get: "\<And>k. refuses (kc_GetDeployment kc k)" and del: "\<And>d. refuses_err (kc_Delete kc (ODeployment d))"
    and lib: "finalizers_kept cl" and run: "reconcile_tenant kc os cl req s = (r, s')"
  shows "only unfinished s s'"
    and "kc_GetTenant kc req (world s) = (Inr t, w) \<Longrightarrow> needs_deployment t \<Longrightarrow> \<exists>e. r = Inl e"
proof -
  obtain x s1 where 1: "k_GetTenant kc req s = (x, s1)" by fastforce
  have o1: "only unfinished s s1" by (rule only_api [OF 1]) simp
  have "only unfinished s1 s' \<and> (\<forall>t. x = Inr t \<and> needs_deployment t \<longrightarrow> (\<exists>e. r = Inl e))"
  proof (cases x)
    case (Inl e)
    with run 1 show ?thesis by (auto simp: reconcile_tenant_def split: option.splits)
  next
    case (Inr t)
    show ?thesis
    proof (cases "IsZero (om_DeletionTimestamp (kt_Meta t))")
      case False
      with run 1 Inr have "finalizeTenant kc cl t s1 = (r, s')" by (simp add: reconcile_tenant_def)
      from finalize_refused [OF del lib this] Inr False show ?thesis by (auto simp: needs_deployment_def)
    next
      case live: True
      obtain y s2 where 2: "add_finalizer kc cl t s1 = (y, s2)" by fastforce
      note added = add_finalizer_only [OF lib 2 live]
      show ?thesis
      proof (cases y)
        case (Inl e)
        with run 1 2 Inr live have "s' = s2 \<and> r = Inl e" by (simp add: reconcile_tenant_def \<open>x = Inr t\<close>)
        with added(1) show ?thesis by simp
      next
        case (Inr t')
        with run 1 2 live have "provision kc os cl t' s2 = (r, s')" by (simp add: reconcile_tenant_def \<open>x = Inr t\<close>)
        note prov = provision_refused [OF get this]
        have "\<exists>e. r = Inl e" if "needs_deployment t"
          using that live added(2) Inr prov(1) by (auto simp: needs_deployment_def)
        with only_trans [OF added(1) prov(2)] \<open>x = Inr t\<close> show ?thesis by auto
      qed
    qed
  qed
  with o1 show "only unfinished s s'"
    and "kc_GetTenant kc req (world s) = (Inr t, w) \<Longrightarrow> needs_deployment t \<Longrightarrow> \<exists>e. r = Inl e"
    using 1 by (auto simp: api_def intro: only_trans)
qed

lemma managed_refused:
  assumes get: "\<And>k. refuses (kc_GetDeployment kc k)" and del: "\<And>d. refuses_err (kc_Delete kc (ODeployment d))"
    and lib: "finalizers_kept cl" and run: "TenantManaged kc os cl req s = (r, s')"
  shows "only unfinished s s'"
    and "kc_GetTenant kc req (snd (os_now os (world s))) = (Inr t, w) \<Longrightarrow> needs_deployment t \<Longrightarrow> \<exists>e. r = Inl e"
proof -
  let ?s = "emit (SpanStart ''TenantReconciler.Reconcile'') s"
  obtain t1 s1 where 1: "now os ?s = (t1, s1)" by fastforce
  obtain x s2 where 2: "reconcile_tenant kc os cl req s1 = (x, s2)" by fastforce
  obtain t2 s3 where 3: "now os s2 = (t2, s3)" by fastforce
  have eq: "r = x \<and> calls (trace s') = calls (trace s3)"
    using run by (auto simp: TenantManaged_def WrapReconciler_def WrapWith_def TenantReconcile_def
        ObserveReconcile_def Let_def 1 2 3 split: sum.splits)
  have "only unfinished ?s s3"
    by (rule only_trans [OF only_now [OF 1] only_trans [OF reconcile_refused(1) [OF get del lib 2] only_now [OF 3]]])
  with eq show "only unfinished s s'" by (simp add: only_def)
  have "world s1 = snd (os_now os (world s))" using 1 by (auto simp: now_def split: prod.splits)
  with reconcile_refused(2) [OF get del lib 2] eq
  show "kc_GetTenant kc req (snd (os_now os (world s))) = (Inr t, w) \<Longrightarrow> needs_deployment t \<Longrightarrow> \<exists>e. r = Inl e"
    by metis
qed

section \<open>The operator\<close>

text \<open>Reconciliations one after the other, the world being what it has become before each\<close>

fun served_in ::
    "(key \<Rightarrow> 'w kstate \<Rightarrow> Result res \<times> 'w kstate) \<Rightarrow> ('w \<times> key) list \<Rightarrow> 'w kstate \<Rightarrow> 'w kstate" where
  "served_in R [] s = s"
| "served_in R ((w, req) # reqs) s = served_in R reqs (snd (R req (s\<lparr>world := w\<rparr>)))"

lemma only_served_in:
  assumes "\<And>req s r s'. R req s = (r, s') \<Longrightarrow> only P s s'"
  shows "only P s (served_in R reqs s)"
proof (induction reqs arbitrary: s)
  case (Cons wr reqs)
  obtain w req where wr: "wr = (w, req)" by (cases wr)
  obtain r s' where run: "R req (s\<lparr>world := w\<rparr>) = (r, s')" by fastforce
  have "only P s s'" using assms [OF run] by (simp add: only_def)
  with Cons.IH [of s'] wr run show ?case by (auto intro: only_trans)
qed simp

text \<open>
  Where the convergence of tenants does not reach: a client that stores deployments has a scheme that
  knows them, and the operator's does not.
\<close>

lemma storing_needs_deployments:
  assumes "stores_objects kinds kc objects tenant" and "DeploymentK \<in> kinds" and "typed_client types kc"
  shows "go_type_of DeploymentK \<in> types"
proof (rule ccontr)
  assume "go_type_of DeploymentK \<notin> types"
  then have refused: "refuses_err (kc_Delete kc (ODeployment d))" for d
    using typed_client_deployments(2) [OF assms(3)] by blast
  fix d w
  obtain e w' where "kc_Delete kc (ODeployment d) w = (e, w')" "tolerated KNotFound e"
    using deletes [OF stores_parts(5) [OF assms(1)], of "ODeployment d" w] assms(2) by auto
  moreover obtain x where "kc_Delete kc (ODeployment d) w = (Some x, w)" "\<not> IsNotFound x"
    using refused unfolding refuses_err_def by blast
  ultimately show False by (auto simp: tolerated_def)
qed

text \<open>The client of a manager serves the types of the scheme the manager was made with, and no others.\<close>

definition typed_managers :: "('sc \<Rightarrow> go_type set) \<Rightarrow> ('w, 'k, 'cfg, 'f, 'sc) operator_lib \<Rightarrow> bool" where
  "typed_managers known sl \<longleftrightarrow>
     (\<forall>sc m p w mgr w'. sl_NewManager sl sc m p w = (Inr mgr, w') \<longrightarrow> typed_client (known sc) (mgr_GetClient mgr))"

text \<open>
  C5. The operator cannot finish a tenant that needs a gateway's deployment. Its scheme knows every type
  it uses except the deployments of apps/v1, so a client made with it refuses every request about
  one. Whatever the cluster does between reconciliations, and however many there are, the controller the
  operator sets up never writes that a tenant with a dedicated A2A bus is ready, and never
  updates a tenant with a namespace once it is being deleted, so that its finalizer stays and it is never
  gone; each reconciliation of such a tenant ends with an error. All types the controllers
  watch are known, so the operator starts all the same.
\<close>

theorem operator_leaves_tenants_unfinished:
  assumes schemes: "schemes_documented SL known pending core meta"
    and typed: "typed_managers known sl"
    and lib: "finalizers_kept (sl_ctrl_lib sl)"
    and manager: "newManager sl (operator_scheme SL) m p s0 = (Inr mgr, s1)"
    and ctl: "(''TenantReconciler'', ctl) \<in> set (the_reconcilers (sl_kube_os sl) (sl_ctrl_lib sl) mgr)"
  shows "(\<exists>cs. calls (trace (served_in (ctl_Reconcile ctl) reqs s)) = calls (trace s) @ cs
      \<and> (\<forall>t e. (KStatusUpdate (OTenant t), e) \<in> set cs \<longrightarrow> \<not> dedicated_a2a t)
      \<and> (\<forall>t e. (KUpdate (OTenant t), e) \<in> set cs \<longrightarrow>
            IsZero (om_DeletionTimestamp (kt_Meta t)) \<or> tsp_Namespace (kt_Spec t) = []))
    \<and> (\<forall>req t w. kc_GetTenant (mgr_GetClient mgr) req (snd (os_now (sl_kube_os sl) (world s))) = (Inr t, w)
        \<and> needs_deployment t \<longrightarrow> (\<exists>e. fst (ctl_Reconcile ctl req s) = Inl e))
    \<and> (\<forall>(t, ts)\<in>set watched_types. set (t # ts) \<subseteq> known (operator_scheme SL))"
proof (intro conjI)
  let ?kc = "mgr_GetClient mgr" and ?cl = "sl_ctrl_lib sl" and ?os = "sl_kube_os sl"
  obtain w w' where "sl_NewManager sl (operator_scheme SL) m p w = (Inr mgr, w')"
    using manager by (auto simp: newManager_def api_def split: prod.splits sum.splits option.splits)
  with typed have client: "typed_client (known (operator_scheme SL)) ?kc"
    unfolding typed_managers_def by blast
  have "go_type_of DeploymentK \<notin> known (operator_scheme SL)"
    using operator_scheme_kinds(1) [OF schemes] by blast
  note refused = typed_client_deployments [OF client this]
  have R: "ctl_Reconcile ctl = TenantManaged ?kc ?os ?cl"
    using ctl by (auto simp: the_reconcilers_def Tenant_SetupWithManager_def)
  have "only unfinished s (served_in (ctl_Reconcile ctl) reqs s)"
    unfolding R by (rule only_served_in) (rule managed_refused(1) [OF refused lib])
  then show "\<exists>cs. calls (trace (served_in (ctl_Reconcile ctl) reqs s)) = calls (trace s) @ cs
      \<and> (\<forall>t e. (KStatusUpdate (OTenant t), e) \<in> set cs \<longrightarrow> \<not> dedicated_a2a t)
      \<and> (\<forall>t e. (KUpdate (OTenant t), e) \<in> set cs \<longrightarrow>
            IsZero (om_DeletionTimestamp (kt_Meta t)) \<or> tsp_Namespace (kt_Spec t) = [])"
    unfolding only_def by (metis fst_conv unfinished.simps(1,2))
  show "\<forall>req t w. kc_GetTenant ?kc req (snd (os_now ?os (world s))) = (Inr t, w) \<and> needs_deployment t
      \<longrightarrow> (\<exists>e. fst (ctl_Reconcile ctl req s) = Inl e)"
    unfolding R using managed_refused(2) [OF refused lib] by (metis prod.collapse)
  show "\<forall>(t, ts)\<in>set watched_types. set (t # ts) \<subseteq> known (operator_scheme SL)"
    by (rule watched_types_known [OF schemes])
qed

section \<open>A typed client\<close>

text \<open>The client of a cluster, made with a scheme that knows the given types\<close>

definition no_kind :: goerror where
  "no_kind = Leaf KOther ''no kind is registered for the type''"

definition typed :: "go_type set \<Rightarrow> kkind \<Rightarrow> ('w \<Rightarrow> 'a res \<times> 'w) \<Rightarrow> 'w \<Rightarrow> 'a res \<times> 'w" where
  "typed types kd f w = (if go_type_of kd \<in> types then f w else (Inl no_kind, w))"

definition typed_err :: "go_type set \<Rightarrow> kkind \<Rightarrow> ('w \<Rightarrow> goerror option \<times> 'w) \<Rightarrow> 'w \<Rightarrow> goerror option \<times> 'w" where
  "typed_err types kd f w = (if go_type_of kd \<in> types then f w else (Some no_kind, w))"

definition with_types :: "go_type set \<Rightarrow> 'w kclient \<Rightarrow> 'w kclient" where
  "with_types types kc =
     \<lparr>kc_GetJob = (\<lambda>k. typed types JobK (kc_GetJob kc k)), kc_GetFleet = (\<lambda>k. typed types FleetK (kc_GetFleet kc k)),
      kc_GetTenant = (\<lambda>k. typed types TenantK (kc_GetTenant kc k)), kc_GetSecret = (\<lambda>k. typed types SecretK (kc_GetSecret kc k)),
      kc_GetDeployment = (\<lambda>k. typed types DeploymentK (kc_GetDeployment kc k)),
      kc_GetService = (\<lambda>k. typed types ServiceK (kc_GetService kc k)),
      kc_GetNamespace = (\<lambda>k. typed types NamespaceK (kc_GetNamespace kc k)),
      kc_GetPod = (\<lambda>k. typed types PodK (kc_GetPod kc k)),
      kc_ListPods = (\<lambda>ns l w. if pod_list_type \<in> types then kc_ListPods kc ns l w else (Inl no_kind, w)),
      kc_Create = (\<lambda>ob. typed_err types (fst (obj_key ob)) (kc_Create kc ob)),
      kc_Delete = (\<lambda>ob. typed_err types (fst (obj_key ob)) (kc_Delete kc ob)),
      kc_UpdateTenant = (\<lambda>t. typed types TenantK (kc_UpdateTenant kc t)),
      kc_StatusUpdateJob = (\<lambda>j. typed types JobK (kc_StatusUpdateJob kc j)),
      kc_StatusUpdateFleet = (\<lambda>f. typed types FleetK (kc_StatusUpdateFleet kc f)),
      kc_StatusUpdateTenant = (\<lambda>t. typed types TenantK (kc_StatusUpdateTenant kc t))\<rparr>"

lemma typed_client_with_types: "typed_client types (with_types types kc)"
  by (simp add: typed_client_def with_types_def refuses_def refuses_err_def typed_def typed_err_def no_kind_def
      del: go_type_of.simps)

definition kube_operator :: "(unit, tenant_world, unit, unit, go_type list) operator_lib" where
  "kube_operator = \<lparr>sl_GetConfig = (\<lambda>w. (None, w)),
     sl_NewManager = (\<lambda>sc m p w. (Inr \<lparr>mgr_GetClient = with_types (set sc) tenant_store, mgr_GetScheme = sc\<rparr>, w)),
     sl_AddHealthz = (\<lambda>w. (None, w)), sl_AddReadyz = (\<lambda>w. (None, w)), sl_NewClient = (\<lambda>sc w. (Inl (Errorf ''no client''), w)),
     sl_cf_config = (\<lambda>a b c w. (Inl (Errorf ''no foundation''), w)), sl_cf_lib = (\<lambda>c. Inl (Errorf ''no foundation'')),
     sl_cf_os = demo_process_os [], sl_kube_os = tenant_os, sl_ctrl_lib = tenant_lib,
     sl_Setup = (\<lambda>c w. (None, w)), sl_Start = (\<lambda>w. (None, w))\<rparr>"

theorem operator_leaves_tenants_unfinished_witness:
  "\<exists>mgr ctl s1 cs. newManager kube_operator (operator_scheme demo_schemes) '':8080'' '':8081'' demo_process = (Inr mgr, s1)
     \<and> (''TenantReconciler'', ctl) \<in> set (the_reconcilers tenant_os tenant_lib mgr)
     \<and> calls (trace (served_in (ctl_Reconcile ctl) [(([([], ''acme'') \<mapsto> demo_a2a None [tenantFinalizer]], {}), ([], ''acme''))]
           \<lparr>world = (Map.empty, {}), trace = [], ctx_next = 0, ctx_done = [], otlp_active = False\<rparr>)) = cs
     \<and> \<not> (\<exists>t e. (KStatusUpdate (OTenant t), e) \<in> set cs \<and> dedicated_a2a t)
     \<and> (\<exists>e. fst (ctl_Reconcile ctl ([], ''acme'') \<lparr>world = ([([], ''acme'') \<mapsto> demo_a2a (Some 5) [tenantFinalizer]], {}),
           trace = [], ctx_next = 0, ctx_done = [], otlp_active = False\<rparr>) = Inl e)"
proof -
  let ?s = "\<lambda>t. \<lparr>world = (t, {}), trace = [], ctx_next = 0, ctx_done = [], otlp_active = False\<rparr> :: tenant_world kstate"
  obtain x s1 where new: "newManager kube_operator (operator_scheme demo_schemes) '':8080'' '':8081'' demo_process = (x, s1)"
    by fastforce
  then obtain mgr where x: "x = Inr mgr" "mgr_GetClient mgr = with_types (set (operator_scheme demo_schemes)) tenant_store"
    by (auto simp: newManager_def kube_operator_def api_def api_err_def split: prod.splits)
  note made = new [unfolded x(1)]
  obtain ctl where ctl: "(''TenantReconciler'', ctl) \<in> set (the_reconcilers (sl_kube_os kube_operator) (sl_ctrl_lib kube_operator) mgr)"
    by (simp add: the_reconcilers_def)
  have client: "typed_managers set kube_operator"
    by (auto simp: typed_managers_def kube_operator_def typed_client_with_types)
  have lib: "finalizers_kept (sl_ctrl_lib kube_operator)" by (simp add: kube_operator_def tenant_lib_finalizers)
  note never = operator_leaves_tenants_unfinished [OF demo_schemes_documented client lib made ctl]
  let ?dead = "demo_a2a (Some 5) [tenantFinalizer]"
  have "go_type_of TenantK \<in> set (operator_scheme demo_schemes)"
    using operator_scheme_kinds(1) [OF demo_schemes_documented, of TenantK] by blast
  then have "kc_GetTenant (mgr_GetClient mgr) ([], ''acme'') (snd (os_now (sl_kube_os kube_operator) (world (?s [([], ''acme'') \<mapsto> ?dead]))))
      = (Inr ?dead, ([([], ''acme'') \<mapsto> ?dead], {}))"
    by (simp add: x(2) with_types_def typed_def tenant_store_def stored_tenant_def demo_a2a_def zero_ObjectMeta_def kube_operator_def tenant_os_def del: go_type_of.simps)
  moreover have "needs_deployment ?dead" by (simp add: needs_deployment_def demo_a2a_def IsZero_def dedicated_a2a_def BusTypeA2A_def)
  ultimately have err: "\<exists>e. fst (ctl_Reconcile ctl ([], ''acme'') (?s [([], ''acme'') \<mapsto> ?dead])) = Inl e"
    using never [where reqs = "[]" and s = "?s [([], ''acme'') \<mapsto> ?dead]"] by blast
  from never [where reqs = "[(([([], ''acme'') \<mapsto> demo_a2a None [tenantFinalizer]], {}), ([], ''acme''))]" and s = "?s Map.empty"] made ctl err
  show ?thesis by (auto simp: kube_operator_def)
qed

end
