(* ===== verification/Spec2Isabelle.thy ===== *)
theory Spec2Isabelle
  imports Scheduler_Concurrent Scheduler_Progress Scheduler_Agents Scheduler_Types Watch_FanIn Scheduler_API K8s_Jobs Job_Lifecycle Job_Liveness
    Fleet_Convergence Tenant_Convergence Deep_Copy_Laws CF_Resolution CF_Isolation CF_Jobs Tenant_Topics MCP_Lifecycle MCP_Jobs MCP_Roundtrip
    A2A_Client Bus_Delivery Bus_Registry Programs Operator_Tenants
begin

text \<open>
  Muto: a scheduler of jobs of agents, on Kubernetes and on Cloud Foundry.

  \<^bold>\<open>The program.\<close> A job names a tenant, the roles of its agents, a trigger, a message topic and a time to
  live. Two programs run jobs. \<open>muto-mcp\<close> (\<open>cmd/muto-mcp/main.go\<close>) serves five tools to a client of
  the Model Context Protocol; the tools (\<open>mcp/\<close>) call the default scheduler
  (\<open>core/scheduler/\<close>), which keeps the jobs in memory, starts one agent for each role through a
  platform adapter (\<open>platform/k8s/adapter.go\<close>, \<open>platform/cf/\<close>) and watches them in goroutines of its own.
  \<open>muto-operator\<close> (\<open>cmd/muto-operator/main.go\<close>) runs three reconcilers
  (\<open>platform/k8s/reconcilers/\<close>) over the custom resources AgentJob, AgentFleet and Tenant: for them the
  cluster holds the state, and each reconciliation is one step. Both record traces and metrics
  (\<open>core/tracing/\<close>, \<open>core/metrics/\<close>, \<open>platform/k8s/metrics\<close>, \<open>platform/k8s/tracing\<close>). Agents exchange messages
  on NATS or Kafka (\<open>core/messaging/\<close>) or through an A2A gateway (\<open>core/a2a/\<close>).

  \<^bold>\<open>How it is modelled.\<close> A method is a function from its arguments and the state to its result and the new
  state. \<open>io_state\<close> (\<open>Telemetry\<close>) holds the outside world, an arbitrary type \<open>'w\<close>, the
  trace of what the program did (calls to services with their outcome, spans, metric operations, log
  lines, in order) and the contexts that are cancelled. Services and libraries are parameters, records of
  functions on the world: \<open>kclient\<close>, \<open>os\<close>, \<open>ctrl_lib\<close>, \<open>cf_lib\<close>, \<open>otel_lib\<close>, \<open>mcp_lib\<close>, \<open>nats_lib\<close>,
  \<open>kafka_lib\<close>, \<open>meta_lib\<close>, \<open>scheme_lib\<close>; what a theorem needs of them is among its hypotheses (\<open>documented\<close>,
  \<open>serves\<close>, \<open>deep_metadata\<close>, \<open>reads_times\<close>, \<open>stores_objects\<close>, \<open>stores_tenant\<close>, \<open>stores_fleet\<close>, \<open>steady\<close>,
  \<open>schemes_documented\<close>, \<open>typed_managers\<close>). Errors are the left of a sum, \<open>goerror\<close> keeps the wrapping of
  \<open>fmt.Errorf\<close> and the kind an \<open>errors.Is\<close> or \<open>IsNotFound\<close> test finds. 32- and 64-bit integers are
  words, a Go map is a partial function, and the order of a range over a map is a
  parameter. Instants are integers in nanoseconds.

  \<^bold>\<open>The theories.\<close>
  \<^item> \<open>Prelude\<close>: strings and errors of Go, decimal numbers, durations, orders of a map's keys.
  \<^item> \<open>Agent_Types\<close>: \<open>core/agent/types.go\<close>. \<open>State_Machine\<close>: \<open>core/scheduler/statemachine.go\<close>; its
    lemmas give the rows of the table and bound the moves of a job.
  \<^item> \<open>Telemetry\<close>, \<open>Metrics\<close>: \<open>core/tracing/tracing.go\<close>, \<open>core/metrics/metrics.go\<close>,
    \<open>platform/k8s/metrics/metrics.go\<close>; a wrapped call returns what it wraps returns, and the OTLP
    operations mirror the Prometheus ones. \<open>Startup\<close>: the start and the shutdown of both, \<open>core/env\<close>,
    \<open>core/logging\<close>, \<open>core/shutdown\<close>; recording starts with every instrument created or not at all.
  \<^item> \<open>Platform_Adapter\<close>, \<open>Scheduler\<close>: the interface and the \<open>DefaultScheduler\<close> of \<open>core/scheduler/scheduler.go\<close>, each
    method split at its critical sections (\<open>schedule_commit\<close>, \<open>cancel_commit\<close>, \<open>watch_commit\<close>).
    \<open>Watch_FanIn\<close>: \<open>watchJob\<close> over the interleavings of the agents' channels; the fuel of the receive
    loop is the number of agents, and it is enough. \<open>Scheduler_Concurrent\<close>: the goroutines as a step
    relation over shared records, its invariants, and the sequential methods as runs of it;
    \<open>Scheduler_Progress\<close>: how many steps its goroutines have left, and that they come to rest with every job ended;
    \<open>Watched_Jobs\<close>: the contract of an adapter's watch as a locale, from which the outcome of a job is proved once for both platforms;
    \<open>Scheduler_Agents\<close>: the ledger of the agents that run, a locale each adapter may satisfy, and
    which of them \<open>Schedule\<close> and \<open>Cancel\<close> account for; \<open>Scheduler_Types\<close>: the shape of the records. \<open>Scheduler_API\<close>: the interface as a locale,
    interpreted on the default scheduler and on its tracing decorator (\<open>core/tracing/scheduler.go\<close>).
  \<^item> \<open>K8s_Types\<close>, \<open>Kube_Client\<close>, \<open>K8s_Adapter\<close>: the resources, the client, \<open>platform/k8s/adapter.go\<close>;
    \<open>Kube_Scheme\<close>: the types registered by \<open>groupversion_info.go\<close>, by the \<open>init\<close> functions and by both programs, and
    what a client does for a type its scheme does not know;
    \<open>K8s_Jobs\<close>: a job from its scheduling to the phase its pods decide.
  \<^item> \<open>Deep_Store\<close>, \<open>Deep_Copy\<close>, \<open>Deep_Copy_Laws\<close>: the generated deep copies on an explicit store with
    pointers and slices; the copiers of a locale, and that a copy shares nothing with its original.
  \<^item> \<open>Reconciler\<close> (the contract of a reconciler as a locale), \<open>Job_Reconciler\<close>, \<open>Fleet_Reconciler\<close>,
    \<open>Tenant_Reconciler\<close>: one reconciliation, on every branch. \<open>Job_Lifecycle\<close>,
    \<open>Tenant_Lifecycle\<close>: the order of the requests it makes, read off the trace, and its agreement
    with the scheduler's table. \<open>Tenant_Convergence\<close>: a cluster that stores what it is sent reaches the state a
    tenant asks for in one reconciliation, and a second changes nothing; \<open>Fleet_Convergence\<close>: so does the status of a fleet. \<open>Job_Liveness\<close>: many reconciliations against a cluster that stores
    what it is sent and may refuse requests: a job ends. \<open>Controllers\<close>: \<open>SetupWithManager\<close> of the three;
    \<open>Operator_Tenants\<close>: the tenant reconciler over the client of the operator's manager.
  \<^item> \<open>CF_Cache\<close>, \<open>CF_Client\<close>, \<open>CF_Adapter\<close>: \<open>platform/cf\<close>; the cache is a locale interpreted on the
    code's map. \<open>CF_Resolution\<close>: the cache is transparent, and a spawn starts one task or none;
    \<open>CF_Isolation\<close>: any sequence of scheduled and cancelled jobs keeps each tenant to its space; \<open>CF_Jobs\<close>: a job
    from its scheduling to the phase its tasks decide.
  \<^item> \<open>Tenant_Topics\<close>: \<open>core/tenant\<close>. \<open>Message_Bus\<close> (\<open>core/messaging/bus.go\<close>, \<open>registry.go\<close>,
    \<open>platform/k8s/eventwatcher.go\<close>), \<open>NATS\<close>, \<open>Kafka\<close>: the buses, the second with the goroutines of its
    subscriptions as a step relation. \<open>Bus_Delivery\<close>: from the event watcher to the handler of a tenant, over
    both. \<open>Bus_Registry\<close>: the registry with both in it, and the life of a bus, a locale that extends the contract of
    \<open>Message_Bus\<close> with the connections a bus holds. \<open>A2A\<close>, \<open>A2A_Client\<close>: \<open>core/a2a\<close>.
  \<^item> \<open>MCP_Tools\<close>, \<open>MCP_Server\<close>: \<open>mcp/tools\<close>, \<open>mcp/server\<close>. \<open>JSON\<close>: the texts they write; \<open>JSON_Read\<close>:
    a reader of them, whose fuel, the length of the text, is enough. \<open>MCP_Lifecycle\<close>, \<open>MCP_Roundtrip\<close>:
    what a client observes of the scheduler the program runs; \<open>MCP_Jobs\<close>: from its request to the outcome of the pod.
  \<^item> \<open>Programs\<close>: \<open>run\<close> of both programs, over the parts above.

  \<^bold>\<open>What is shown.\<close> Of the scheduler: whatever the interleaving, an identifier is scheduled once, every move
  is a row of the table, a job is terminating exactly when its watchers were told to stop, and the
  outcome does not depend on the order in which agents report; every agent that runs is on a record, or
  was left by a call of \<open>Schedule\<close> that failed on the way; and once no call is started its goroutines all return, with
  every job ended. Of the reconcilers: a job
  is marked running only after all its pods were created, deleted only after all of them, ends after at
  most four due reconciliations, and what its start adds to the gauges its finish subtracts; a tenant is ready only after
  what it asks for exists, loses its finalizer only after what was made for it is gone, and one
  reconciliation is enough for either, through a client that knows the types of apps/v1. The client of the
  operator does not: there a tenant with a gateway never becomes ready, and no deleted tenant with a namespace is let go
  (\<open>operator_leaves_tenants_unfinished\<close>). Of the
  adapters: an agent's end is reported at most once; on Cloud Foundry two tenants never share a
  space, whatever is scheduled; on either platform the agents decide the phase of the job; on Kubernetes two jobs of one tenant with a common role clash. Of the buses: a started watcher's handler gets every message, and a closed bus
  holds no connection. Of the programs: telemetry
  is shut down on every path and the operator starts in one order. Where the code does not keep what it means to, a theorem says
  what it does instead (\<open>kafka_close_can_miss\<close>, \<open>k8s_pod_name_clash\<close>, \<open>job_pod_names_collide\<close>,
  \<open>dotted_tenants_overlap\<close>).

  \<^bold>\<open>Not modelled.\<close> The API machinery and the controller runtime (what is watched, when a request is
  requeued, how a scheme stores its types); the transport of the MCP
  server, the HTTP stack under the A2A client and the clients of NATS, Kafka and Cloud Foundry beyond their calls; the text of
  log lines and the fields they carry; the deadline shared by the shutdown callbacks; strings beyond ASCII in JSON and in quoted
  text. Tests, manifests, charts and documents are not part of the program.
\<close>

end
